theory Spec2Isabelle
  imports Complex_Main "HOL-Library.Multiset" "HOL-Library.Sublist"
begin

section \<open>Values of the host language\<close>

text \<open>
  The program is TypeScript. A number of the program is an IEEE 754 double; the model
  holds the value of a finite double as a real number. Where the program adds,
  subtracts, multiplies or divides numbers that are not counters (the figures of the
  entry aggregator), every result is rounded to the nearest double with \<open>fl\<close>, as the
  machine does; the counters (attempts, guards, pages) are written with exact sums.
  The non-finite values are represented only where the code tests for them, the sign
  of zero is not represented, and a result of \<open>fl\<close> stands for a double as long as it
  is below \<open>2 ^ 1024\<close> in magnitude (beyond, the machine has \<open>Infinity\<close>). Strings are
  lists of 8-bit characters. An optional field (\<open>x?: T\<close>, possibly \<open>undefined\<close>) is a
  \<open>T option\<close>.
\<close>

text \<open>The binary exponent of a positive number: the \<open>e\<close> with \<open>2 ^ e \<le> x < 2 ^ (e + 1)\<close>.\<close>

function binaryExponent :: "real \<Rightarrow> int" where
  "binaryExponent x =
     (if x \<le> 0 then 0
      else if x < 1 then binaryExponent (2 * x) - 1
      else if 2 \<le> x then binaryExponent (x / 2) + 1
      else 0)"
  by pat_completeness auto
termination
proof (relation "measure (\<lambda>x. if 1 \<le> x then nat \<lfloor>x\<rfloor> else nat \<lceil>1 / x\<rceil>)")
  show "wf (measure (\<lambda>x::real. if 1 \<le> x then nat \<lfloor>x\<rfloor> else nat \<lceil>1 / x\<rceil>))"
    by simp
next
  fix x :: real
  assume pos: "\<not> x \<le> 0" and small: "x < 1"
  have big: "1 / x > 1" using pos small by simp
  then have two: "\<lceil>1 / x\<rceil> \<ge> 2" by linarith
  show "(2 * x, x) \<in> measure (\<lambda>x. if 1 \<le> x then nat \<lfloor>x\<rfloor> else nat \<lceil>1 / x\<rceil>)"
  proof (cases "1 \<le> 2 * x")
    case True
    then have "\<lfloor>2 * x\<rfloor> = 1" using small by linarith
    with True small two show ?thesis by simp
  next
    case False
    have "1 / (2 * x) = (1 / x) / 2" by simp
    then have "\<lceil>1 / (2 * x)\<rceil> < \<lceil>1 / x\<rceil>" using two by linarith
    moreover have "\<lceil>1 / (2 * x)\<rceil> > 0" using pos by (simp add: ceiling_less_iff)
    ultimately show ?thesis using False small by simp
  qed
next
  fix x :: real
  assume "\<not> x \<le> 0" "\<not> x < 1" and large: "2 \<le> x"
  have "\<lfloor>x / 2\<rfloor> < \<lfloor>x\<rfloor>" using large by linarith
  moreover have "\<lfloor>x / 2\<rfloor> \<ge> 1" using large by linarith
  ultimately show "(x / 2, x) \<in> measure (\<lambda>x. if 1 \<le> x then nat \<lfloor>x\<rfloor> else nat \<lceil>1 / x\<rceil>)"
    using large by simp
qed

text \<open>\<open>2 ^ e\<close> for an integer \<open>e\<close>.\<close>

definition pow2 :: "int \<Rightarrow> real" where
  "pow2 e = (if 0 \<le> e then 2 ^ nat e else 1 / 2 ^ nat (- e))"

text \<open>The distance between neighbouring doubles at \<open>x\<close>: a double has 53 significant
  bits, and below \<open>2 ^ -1022\<close> (the subnormal range) the distance stays \<open>2 ^ -1074\<close>.\<close>

definition quantum :: "real \<Rightarrow> real" where
  "quantum x = pow2 (max (binaryExponent \<bar>x\<bar> - 52) (- 1074))"

text \<open>The nearest integer, ties to the even one.\<close>

definition roundTiesToEven :: "real \<Rightarrow> int" where
  "roundTiesToEven x =
     (let n = \<lfloor>x\<rfloor>; r = x - of_int n
      in if r < 1 / 2 then n else if 1 / 2 < r then n + 1 else if even n then n else n + 1)"

text \<open>The double nearest to \<open>x\<close> (round to nearest, ties to even): the result of an
  arithmetic operation of the machine whose exact result is \<open>x\<close>. \<open>a + b\<close> of the program
  is \<open>fl (a + b)\<close>, and likewise for \<open>-\<close>, \<open>*\<close> and \<open>/\<close>.\<close>

definition fl :: "real \<Rightarrow> real" where
  "fl x = of_int (roundTiesToEven (x / quantum x)) * quantum x"

text \<open>\<open>Math.round\<close>: the nearest integer, ties towards plus infinity. It is computed
  exactly.\<close>

definition Math_round :: "real \<Rightarrow> real" where
  "Math_round x = of_int \<lfloor>x + 1 / 2\<rfloor>"

text \<open>The white space that \<open>String.prototype.trim\<close> strips, as far as it is representable
  in an 8-bit character: TAB, LF, VT, FF, CR, space and the no-break space.\<close>

definition isWhiteSpace :: "char \<Rightarrow> bool" where
  "isWhiteSpace c = (of_char c \<in> {9, 10, 11, 12, 13, 32, 160 :: nat})"

definition trim :: "string \<Rightarrow> string" where
  "trim s = rev (dropWhile isWhiteSpace (rev (dropWhile isWhiteSpace s)))"

text \<open>\<open>[...new Set(xs)]\<close>: the distinct elements of \<open>xs\<close> in the order of their first
  occurrence (\<open>remdups\<close> keeps the last occurrence, hence the two reversals).\<close>

definition newSet :: "'a list \<Rightarrow> 'a list" where
  "newSet xs = rev (remdups (rev xs))"

text \<open>Truthiness of an optional string: \<open>undefined\<close> and the empty string are falsy.\<close>

fun truthy :: "string option \<Rightarrow> bool" where
  "truthy None = False"
| "truthy (Some s) = (s \<noteq> [])"

text \<open>\<open>a ?? b\<close> on an optional value.\<close>

fun nullish :: "'a option \<Rightarrow> 'a \<Rightarrow> 'a" where
  "nullish None d = d"
| "nullish (Some x) d = x"

text \<open>Parsed JSON, as \<open>JSON.parse\<close> returns it. An object is an association list read
  with \<open>map_of\<close>.\<close>

datatype json =
    JNull
  | JBool bool
  | JNum real
  | JStr string
  | JArr "json list"
  | JObj "(string \<times> json) list"

text \<open>Property access \<open>v.k\<close> for the property names the program reads (none of them is
  a property of an array, a string, a number or a boolean). \<open>None\<close> is \<open>undefined\<close>.
  On \<open>null\<close> the access throws; the callers test for that case first.\<close>

fun field :: "json \<Rightarrow> string \<Rightarrow> json option" where
  "field (JObj kvs) k = map_of kvs k"
| "field _ k = None"

text \<open>\<open>x && typeof x === 'object'\<close>: an object or an array, not \<open>null\<close>.\<close>

fun isObject :: "json \<Rightarrow> bool" where
  "isObject (JObj _) = True"
| "isObject (JArr _) = True"
| "isObject _ = False"

section \<open>Shared types (src/shared/types.ts)\<close>

datatype AlertType = TypeFolder | TypeList | TypeCustom
datatype ScopeType = ScopeFolder | ScopeList
datatype TimeRangeMode = Monthly | CustomRange | NoRange
datatype AlertStatus = Green | Yellow | Red | Inactive | ErrorStatus

record TimeEntry =
  entry_id :: string
  entry_taskId :: "string option"
  entry_durationMs :: real
  entry_startMs :: "real option"
  entry_endMs :: "real option"
  entry_userId :: "string option"
  entry_raw :: json

record AlertSnapshot =
  snap_status :: AlertStatus
  snap_hoursUsed :: real
  snap_budgetHours :: real
  snap_remainingHours :: real
  snap_overByHours :: real
  snap_percentUsed :: real
  snap_entryCount :: nat
  snap_lastRefreshedAt :: string
  snap_scopeSummary :: string
  snap_warningMessage :: "string option"
  snap_errorMessage :: "string option"

record AlertConfig =
  alert_id :: string
  alert_order :: real
  alert_name :: string
  alert_description :: "string option"
  alert_type :: AlertType
  alert_teamId :: string
  alert_folderId :: "string option"
  alert_folderName :: "string option"
  alert_listId :: "string option"
  alert_listName :: "string option"
  alert_customScopeType :: "ScopeType option"
  alert_timeRangeMode :: TimeRangeMode
  alert_startDate :: "string option"
  alert_endDate :: "string option"
  alert_budgetHours :: real
  alert_warningThresholdPct :: real
  alert_criticalThresholdPct :: real
  alert_excludedTaskIds :: "string list"
  alert_includeOnlyTaskIds :: "string list option"
  alert_refreshFrequencyMinutes :: real
  alert_active :: bool
  alert_createdAt :: string
  alert_updatedAt :: string
  alert_lastRefreshedAt :: "string option"
  alert_lastSnapshot :: "AlertSnapshot option"

section \<open>The entry aggregator (alertEngine)\<close>

text \<open>\<open>Math.round(value * 100) / 100\<close>: the product and the quotient are rounded to
  doubles.\<close>

definition roundHours :: "real \<Rightarrow> real" where
  "roundHours v = fl (Math_round (fl (v * 100)) / 100)"

definition uniqIds :: "string list option \<Rightarrow> string list" where
  "uniqIds ids = newSet (filter (\<lambda>i. length i > 0) (map trim (nullish ids [])))"

definition resolveStatus :: "AlertConfig \<Rightarrow> real \<Rightarrow> AlertStatus" where
  "resolveStatus alert percentUsed =
     (if \<not> alert_active alert then Inactive
      else if percentUsed \<ge> alert_criticalThresholdPct alert then Red
      else if percentUsed \<ge> alert_warningThresholdPct alert then Yellow
      else Green)"

fun scopeTypeName :: "ScopeType \<Rightarrow> string" where
  "scopeTypeName ScopeFolder = ''folder''"
| "scopeTypeName ScopeList = ''list''"

definition resolveScopeSummary :: "AlertConfig \<Rightarrow> string" where
  "resolveScopeSummary alert =
     (let modeLabel =
            (if alert_timeRangeMode alert = Monthly then ''Current month''
             else if alert_timeRangeMode alert = CustomRange then
               ''Custom ('' @ nullish (alert_startDate alert) ''n/a'' @ '' to ''
                 @ nullish (alert_endDate alert) ''n/a'' @ '')''
             else ''Cumulative'')
      in if alert_type alert = TypeFolder then
           ''Folder: ''
             @ nullish (alert_folderName alert) (nullish (alert_folderId alert) ''Unknown'')
             @ '' | '' @ modeLabel
         else if alert_type alert = TypeList then
           ''List: ''
             @ nullish (alert_listName alert) (nullish (alert_listId alert) ''Unknown'')
             @ '' | '' @ modeLabel
         else
           (let scopeName =
                  (if alert_customScopeType alert = Some ScopeFolder then
                     nullish (alert_folderName alert)
                       (nullish (alert_folderId alert) ''Unknown folder'')
                   else
                     nullish (alert_listName alert)
                       (nullish (alert_listId alert) ''Unknown list''))
            in ''Custom '' @ nullish (map_option scopeTypeName (alert_customScopeType alert)) ''scope''
                 @ '': '' @ scopeName @ '' | '' @ modeLabel))"

text \<open>The two sets of \<open>applyEntryFilters\<close> are JavaScript \<open>Set\<close>s built from the
  normalised id lists: \<open>size\<close> is the number of distinct elements, \<open>has\<close> is membership.\<close>

definition applyEntryFilters :: "AlertConfig \<Rightarrow> TimeEntry list \<Rightarrow> TimeEntry list" where
  "applyEntryFilters alert entries =
     (let excluded = newSet (uniqIds (Some (alert_excludedTaskIds alert)));
          includeOnly = newSet (uniqIds (alert_includeOnlyTaskIds alert))
      in filter (\<lambda>entry.
           case entry_taskId entry of
             None \<Rightarrow> length includeOnly = 0
           | Some taskId \<Rightarrow>
               if taskId = [] then length includeOnly = 0
               else if taskId \<in> set excluded then False
               else if length includeOnly > 0 \<and> taskId \<notin> set includeOnly then False
               else True) entries)"

text \<open>\<open>buildSnapshot\<close> and \<open>buildErrorSnapshot\<close> read the clock
  (\<open>new Date().toISOString()\<close>); the string read is the last argument here. The
  \<open>reduce\<close> of \<open>buildSnapshot\<close> divides the duration of each entry and adds the
  quotient to the sum, both in doubles.\<close>

definition buildSnapshot ::
  "AlertConfig \<Rightarrow> TimeEntry list \<Rightarrow> string option \<Rightarrow> string \<Rightarrow> AlertSnapshot" where
  "buildSnapshot alert entries warningMessage nowIso =
     (let totalHours =
            roundHours
              (foldl (\<lambda>sum entry. fl (sum + fl (entry_durationMs entry / 3600000))) 0 entries);
          budget = alert_budgetHours alert;
          rawPercent = (if budget > 0 then fl (fl (totalHours / budget) * 100) else 0);
          percentUsed = roundHours rawPercent;
          remainingHours = roundHours (max 0 (fl (budget - totalHours)));
          overByHours = roundHours (max 0 (fl (totalHours - budget)))
      in \<lparr> snap_status = resolveStatus alert percentUsed,
           snap_hoursUsed = totalHours,
           snap_budgetHours = budget,
           snap_remainingHours = remainingHours,
           snap_overByHours = overByHours,
           snap_percentUsed = percentUsed,
           snap_entryCount = length entries,
           snap_lastRefreshedAt = nowIso,
           snap_scopeSummary = resolveScopeSummary alert,
           snap_warningMessage = warningMessage,
           snap_errorMessage = None \<rparr>)"

definition buildErrorSnapshot :: "AlertConfig \<Rightarrow> string \<Rightarrow> string \<Rightarrow> AlertSnapshot" where
  "buildErrorSnapshot alert errorMessage nowIso =
     \<lparr> snap_status = ErrorStatus,
       snap_hoursUsed = nullish (map_option snap_hoursUsed (alert_lastSnapshot alert)) 0,
       snap_budgetHours = alert_budgetHours alert,
       snap_remainingHours =
         nullish (map_option snap_remainingHours (alert_lastSnapshot alert)) (alert_budgetHours alert),
       snap_overByHours = nullish (map_option snap_overByHours (alert_lastSnapshot alert)) 0,
       snap_percentUsed = nullish (map_option snap_percentUsed (alert_lastSnapshot alert)) 0,
       snap_entryCount = nullish (map_option snap_entryCount (alert_lastSnapshot alert)) 0,
       snap_lastRefreshedAt = nowIso,
       snap_scopeSummary =
         nullish (map_option snap_scopeSummary (alert_lastSnapshot alert)) (resolveScopeSummary alert),
       snap_warningMessage = None,
       snap_errorMessage = Some errorMessage \<rparr>"

section \<open>The API client (clickupClient): one request with retries\<close>

text \<open>What the program throws: a \<open>ClickUpApiError\<close> (message, HTTP status, code), any
  other instance of \<open>Error\<close> (with its message), or a value that is not an \<open>Error\<close>.\<close>

datatype error =
    ClickUpApiError string "nat option" "string option"
  | OtherError string
  | NonError

definition MAX_ATTEMPTS :: nat where
  "MAX_ATTEMPTS = 4"

text \<open>The body of a response, as \<open>isJson ? await response.json() : null\<close> meets it: the
  content type is not JSON and the body is not read, or the body parses to a JSON
  value, or \<open>response.json()\<close> rejects (the body is not valid JSON, or the connection
  breaks during the read) with an error that is not a \<open>ClickUpApiError\<close>.\<close>

datatype body =
    NoJsonBody
  | JsonBody json
  | UnreadableBody string

text \<open>The outcome of one attempt's \<open>fetch\<close>: either it rejects (network failure, the
  abort after \<open>REQUEST_TIMEOUT_MS\<close>) with an error that is not a \<open>ClickUpApiError\<close>, or
  there is a response with a status and a body.\<close>

datatype fetch_outcome =
    FetchRejects string
  | Response nat body

text \<open>\<open>const payload = isJson ? await response.json() : null\<close>.\<close>

fun readBody :: "body \<Rightarrow> error + json" where
  "readBody NoJsonBody = Inr JNull"
| "readBody (JsonBody payload) = Inr payload"
| "readBody (UnreadableBody message) = Inl (OtherError message)"

text \<open>What a call of \<open>request\<close> does, in order: the fetches by attempt number and the
  sleeps by their length in milliseconds.\<close>

datatype io_event = Fetch nat | Sleep nat

definition response_ok :: "nat \<Rightarrow> bool" where
  "response_ok status = (200 \<le> status \<and> status \<le> 299)"

text \<open>\<open>String(n)\<close> for a natural number.\<close>

function showNat :: "nat \<Rightarrow> string" where
  "showNat n =
     (if n < 10 then [''0123456789'' ! n]
      else showNat (n div 10) @ [''0123456789'' ! (n mod 10)])"
  by pat_completeness auto
termination
  by (relation "measure (\<lambda>n. n)") auto

definition normalizeErrorMessage :: "json \<Rightarrow> string \<Rightarrow> string" where
  "normalizeErrorMessage payload fallback =
     (if \<not> isObject payload then fallback
      else case field payload ''err'' of
        Some (JStr err) \<Rightarrow> err
      | _ \<Rightarrow>
          (case field payload ''message'' of
             Some (JStr message) \<Rightarrow> message
           | _ \<Rightarrow> fallback))"

text \<open>One iteration of the retry loop either leaves \<open>request\<close> (returning the payload or
  throwing) or sleeps and continues with the next attempt.\<close>

datatype attempt_result =
    Finish "error + json"
  | Retry nat

datatype try_result =
    TryReturn json
  | TryRetry nat
  | TryThrow error

text \<open>The \<open>try\<close> block of the loop body: the body is read before the status is
  looked at.\<close>

fun tryBlock :: "nat \<Rightarrow> fetch_outcome \<Rightarrow> try_result" where
  "tryBlock attempt (FetchRejects message) = TryThrow (OtherError message)"
| "tryBlock attempt (Response status body) =
     (case readBody body of
        Inl err \<Rightarrow> TryThrow err
      | Inr payload \<Rightarrow>
          if response_ok status then TryReturn payload
          else if status = 401 then
            TryThrow (ClickUpApiError ''Invalid or revoked ClickUp token.'' (Some 401)
              (Some ''UNAUTHORIZED''))
          else if status = 403 then
            TryThrow (ClickUpApiError
              ''Token is valid but lacks required permissions for this scope.'' (Some 403)
              (Some ''FORBIDDEN''))
          else if (status = 429 \<or> status \<ge> 500) \<and> attempt < MAX_ATTEMPTS then
            TryRetry (250 * 2 ^ (attempt - 1))
          else
            TryThrow (ClickUpApiError
              (normalizeErrorMessage payload
                 (''ClickUp API request failed ('' @ showNat status @ '')''))
              (Some status) None))"

text \<open>The \<open>catch\<close> block of the loop body.\<close>

fun isRetriableError :: "error \<Rightarrow> bool" where
  "isRetriableError (ClickUpApiError message status code) =
     (status = Some 429 \<or> (case status of Some n \<Rightarrow> n \<ge> 500 | None \<Rightarrow> False))"
| "isRetriableError _ = True"

fun isClickUpApiError :: "error \<Rightarrow> bool" where
  "isClickUpApiError (ClickUpApiError message status code) = True"
| "isClickUpApiError _ = False"

definition catchBlock :: "nat \<Rightarrow> error \<Rightarrow> attempt_result" where
  "catchBlock attempt err =
     (if attempt < MAX_ATTEMPTS \<and> isRetriableError err then Retry (250 * 2 ^ (attempt - 1))
      else if isClickUpApiError err then Finish (Inl err)
      else Finish (Inl (ClickUpApiError ''Network error while contacting ClickUp API.'' None None)))"

definition loopBody :: "nat \<Rightarrow> fetch_outcome \<Rightarrow> attempt_result" where
  "loopBody attempt outcome =
     (case tryBlock attempt outcome of
        TryReturn payload \<Rightarrow> Finish (Inr payload)
      | TryRetry ms \<Rightarrow> Retry ms
      | TryThrow err \<Rightarrow> catchBlock attempt err)"

text \<open>The loop \<open>for (attempt = 1; attempt <= MAX_ATTEMPTS; attempt += 1)\<close> and the
  statement after it. \<open>fetch\<close> gives the outcome of each attempt.\<close>

function requestLoop ::
  "(nat \<Rightarrow> fetch_outcome) \<Rightarrow> nat \<Rightarrow> io_event list \<Rightarrow> (error + json) \<times> io_event list" where
  "requestLoop fetch attempt trace =
     (if attempt \<le> MAX_ATTEMPTS then
        (case loopBody attempt (fetch attempt) of
           Finish result \<Rightarrow> (result, trace @ [Fetch attempt])
         | Retry ms \<Rightarrow> requestLoop fetch (attempt + 1) (trace @ [Fetch attempt, Sleep ms]))
      else (Inl (ClickUpApiError ''Unexpected API error.'' None None), trace))"
  by pat_completeness auto
termination
  by (relation "measure (\<lambda>(fetch, attempt, trace). MAX_ATTEMPTS + 1 - attempt)") auto

definition request :: "(nat \<Rightarrow> fetch_outcome) \<Rightarrow> (error + json) \<times> io_event list" where
  "request fetch = requestLoop fetch 1 []"

section \<open>The API client (clickupClient): time entries\<close>

text \<open>Functions of the host language that the program calls and that are not part of
  the repository are parameters of the model: \<open>Number(s)\<close> for a string (\<open>None\<close> when
  the result is \<open>NaN\<close> or infinite, the only distinction the program makes),
  \<open>String(n)\<close> for a number, \<open>a.localeCompare(b)\<close>, \<open>toISOString\<close> of an instant, and
  the date-fns functions in the local time zone. An instant is its epoch time in
  milliseconds; \<open>startOfDay(new Date(s)).getTime()\<close> is \<open>NaN\<close> for a string that is not
  a date.\<close>

datatype number = Num real | NaN

record host =
  host_Number :: "string \<Rightarrow> real option"
  host_String :: "real \<Rightarrow> string"
  host_localeCompare :: "string \<Rightarrow> string \<Rightarrow> int"
  host_toISOString :: "real \<Rightarrow> string"
  host_startOfMonth :: "real \<Rightarrow> real"
  host_endOfMonth :: "real \<Rightarrow> real"
  host_startOfDay :: "string \<Rightarrow> number"
  host_endOfDay :: "string \<Rightarrow> number"

text \<open>The argument of the three parsers is a property of a raw entry that may be
  missing. A JSON number is finite.\<close>

fun parseDurationMs :: "host \<Rightarrow> json option \<Rightarrow> real" where
  "parseDurationMs h (Some (JNum duration)) = \<bar>duration\<bar>"
| "parseDurationMs h (Some (JStr duration)) =
     (case host_Number h duration of Some parsed \<Rightarrow> \<bar>parsed\<bar> | None \<Rightarrow> 0)"
| "parseDurationMs h _ = 0"

fun parseOptionalMs :: "host \<Rightarrow> json option \<Rightarrow> real option" where
  "parseOptionalMs h (Some (JNum v)) = Some v"
| "parseOptionalMs h (Some (JStr v)) = host_Number h v"
| "parseOptionalMs h _ = None"

definition extractTaskId :: "json \<Rightarrow> string option" where
  "extractTaskId raw =
     (case field raw ''task_id'' of
        Some (JStr task_id) \<Rightarrow> Some task_id
      | _ \<Rightarrow>
          (case field raw ''task'' of
             Some task \<Rightarrow>
               (if isObject task then
                  (case field task ''id'' of Some (JStr i) \<Rightarrow> Some i | _ \<Rightarrow> None)
                else None)
           | None \<Rightarrow> None))"

text \<open>The user id of a raw entry: the expression
  \<open>typeof raw.userid === 'string' ? raw.userid : typeof raw.userid === 'number' ?
  String(raw.userid) : undefined\<close>, which the source writes out twice.\<close>

definition rawUserId :: "host \<Rightarrow> json \<Rightarrow> string option" where
  "rawUserId h raw =
     (case field raw ''userid'' of
        Some (JStr userid) \<Rightarrow> Some userid
      | Some (JNum userid) \<Rightarrow> Some (host_String h userid)
      | _ \<Rightarrow> None)"

definition getStableFallbackEntryId :: "host \<Rightarrow> json \<Rightarrow> string" where
  "getStableFallbackEntryId h raw =
     (let taskId = nullish (extractTaskId raw) ''no-task'';
          start = nullish (parseOptionalMs h (field raw ''start'')) 0;
          end = nullish (parseOptionalMs h (field raw ''end'')) 0;
          duration = parseDurationMs h (field raw ''duration'');
          userId = nullish (rawUserId h raw) ''no-user''
      in taskId @ '':'' @ userId @ '':'' @ host_String h start @ '':'' @ host_String h end
           @ '':'' @ host_String h duration)"

definition ASSIGNEE_QUERY_UNASSIGNED :: string where
  "ASSIGNEE_QUERY_UNASSIGNED = ''__UNASSIGNED__''"

definition ASSIGNEE_QUERY_NONE :: string where
  "ASSIGNEE_QUERY_NONE = ''__NONE__''"

definition buildAssigneeQueryValues :: "string list option \<Rightarrow> string list" where
  "buildAssigneeQueryValues assigneeIds =
     (let normalized = newSet (filter (\<lambda>i. length i > 0) (map trim (nullish assigneeIds [])))
      in if length normalized = 0 then [ASSIGNEE_QUERY_NONE]
         else normalized @ [ASSIGNEE_QUERY_UNASSIGNED, ASSIGNEE_QUERY_NONE])"

record TimeEntriesParams =
  p_teamId :: string
  p_startMs :: "number option"
  p_endMs :: "number option"
  p_folderId :: "string option"
  p_listId :: "string option"
  p_assigneeIds :: "string list option"

text \<open>The query of one page request; a field that is \<open>None\<close> is left out of the URL.\<close>

record query =
  q_start_date :: "number option"
  q_end_date :: "number option"
  q_folder_id :: "string option"
  q_list_id :: "string option"
  q_assignee :: "string option"
  q_include_task_tags :: string
  q_cursor :: "string option"
  q_page :: "real option"

record api_request =
  req_path :: string
  req_query :: query

text \<open>The assignee value of a scan, from the value of \<open>buildAssigneeQueryValues\<close>.\<close>

definition assigneeValueOf :: "string \<Rightarrow> string option" where
  "assigneeValueOf assigneeQueryValue =
     (if assigneeQueryValue = ASSIGNEE_QUERY_UNASSIGNED then Some ''0''
      else if assigneeQueryValue = ASSIGNEE_QUERY_NONE then None
      else Some assigneeQueryValue)"

definition pageRequest ::
  "TimeEntriesParams \<Rightarrow> string option \<Rightarrow> real \<Rightarrow> string option \<Rightarrow> api_request" where
  "pageRequest params assigneeValue page cursor =
     \<lparr> req_path = ''/team/'' @ p_teamId params @ ''/time_entries'',
       req_query =
         \<lparr> q_start_date = p_startMs params,
           q_end_date = p_endMs params,
           q_folder_id = p_folderId params,
           q_list_id = p_listId params,
           q_assignee = assigneeValue,
           q_include_task_tags = ''true'',
           q_cursor = (if truthy cursor then cursor else None),
           q_page = (if truthy cursor then None else Some page) \<rparr> \<rparr>"

definition rawEntries :: "json \<Rightarrow> json list" where
  "rawEntries payload =
     (case field payload ''data'' of
        Some (JArr items) \<Rightarrow> items
      | _ \<Rightarrow>
          (case field payload ''time_entries'' of
             Some (JArr items) \<Rightarrow> items
           | _ \<Rightarrow> []))"

text \<open>The identity under which an entry is deduplicated: the provider's id when it is a
  string, the derived key otherwise.\<close>

definition entryIdentity :: "host \<Rightarrow> json \<Rightarrow> string" where
  "entryIdentity h raw =
     (case field raw ''id'' of
        Some (JStr i) \<Rightarrow> i
      | _ \<Rightarrow> getStableFallbackEntryId h raw)"

text \<open>The body of \<open>for (const item of rawEntries)\<close>, on the pair of \<open>entries\<close> and
  \<open>seenIds\<close> (a \<open>Set\<close> in insertion order).\<close>

definition addRawEntry ::
  "host \<Rightarrow> TimeEntry list \<times> string list \<Rightarrow> json \<Rightarrow> TimeEntry list \<times> string list" where
  "addRawEntry h acc item =
     (if \<not> isObject item then acc
      else
        (let i = entryIdentity h item
         in if i \<in> set (snd acc) then acc
            else
              (fst acc @
                 [\<lparr> entry_id = i,
                    entry_taskId = extractTaskId item,
                    entry_durationMs = parseDurationMs h (field item ''duration''),
                    entry_startMs = parseOptionalMs h (field item ''start''),
                    entry_endMs = parseOptionalMs h (field item ''end''),
                    entry_userId = rawUserId h item,
                    entry_raw = item \<rparr>],
               snd acc @ [i])))"

text \<open>What the end of the \<open>while\<close> body decides from the payload and the current page:
  set the cursor and continue, set the page and continue, or leave the loop.\<close>

datatype pagination =
    FollowCursor string
  | GoToPage real
  | StopScan

definition pageSignal :: "json \<Rightarrow> real \<Rightarrow> pagination" where
  "pageSignal payload page =
     (case field payload ''next_page'' of
        Some (JNum nextPage) \<Rightarrow> (if nextPage \<le> page then StopScan else GoToPage nextPage)
      | _ \<Rightarrow>
          (case field payload ''last_page'' of
             Some (JNum lastPage) \<Rightarrow> (if page < lastPage then GoToPage (page + 1) else StopScan)
           | _ \<Rightarrow> StopScan))"

definition nextPagination :: "json \<Rightarrow> real \<Rightarrow> pagination" where
  "nextPagination payload page =
     (case field payload ''next_cursor'' of
        Some (JStr nextCursor) \<Rightarrow>
          (if nextCursor \<noteq> [] then FollowCursor nextCursor else pageSignal payload page)
      | _ \<Rightarrow> pageSignal payload page)"

text \<open>A request and what \<open>this.request\<close> made of it: the payload, or the error thrown.\<close>

type_synonym exchange = "api_request \<times> (error + json)"

text \<open>The \<open>while (guard < 200)\<close> loop of one assignee value. \<open>respond n r\<close> is the outcome
  of \<open>this.request\<close> for the request \<open>r\<close> when \<open>n\<close> requests went before it in this call
  of \<open>getTimeEntries\<close>; \<open>offset\<close> is the number of requests of the earlier scans, and
  \<open>exchanges\<close> holds those of this scan. A \<open>null\<close> payload makes the read of
  \<open>payload.data\<close> throw a \<open>TypeError\<close>. The result is the error thrown or the updated
  \<open>entries\<close> and \<open>seenIds\<close>, and the exchanges of the scan.\<close>

function scanPages ::
  "host \<Rightarrow> (nat \<Rightarrow> api_request \<Rightarrow> error + json) \<Rightarrow> TimeEntriesParams \<Rightarrow> string option \<Rightarrow> nat \<Rightarrow>
   nat \<Rightarrow> real \<Rightarrow> string option \<Rightarrow> TimeEntry list \<times> string list \<Rightarrow> exchange list \<Rightarrow>
   (error + TimeEntry list \<times> string list) \<times> exchange list" where
  "scanPages h respond params assigneeValue offset guard page cursor acc exchanges =
     (if guard < 200 then
        (let req = pageRequest params assigneeValue page cursor;
             response = respond (offset + length exchanges) req
         in case response of
              Inl err \<Rightarrow> (Inl err, exchanges @ [(req, response)])
            | Inr payload \<Rightarrow>
                if payload = JNull then
                  (Inl (OtherError ''Cannot read properties of null (reading 'data')''),
                   exchanges @ [(req, response)])
                else
                  (let acc' = foldl (addRawEntry h) acc (rawEntries payload)
                   in case nextPagination payload page of
                        FollowCursor nextCursor \<Rightarrow>
                          scanPages h respond params assigneeValue offset (guard + 1) page
                            (Some nextCursor) acc' (exchanges @ [(req, response)])
                      | GoToPage nextPage \<Rightarrow>
                          scanPages h respond params assigneeValue offset (guard + 1) nextPage
                            cursor acc' (exchanges @ [(req, response)])
                      | StopScan \<Rightarrow> (Inr acc', exchanges @ [(req, response)])))
      else (Inr acc, exchanges))"
  by pat_completeness auto
termination
  by (relation "measure (\<lambda>(h, respond, params, assigneeValue, offset, guard, page, cursor, acc, exchanges).
        200 - guard)") auto

text \<open>The \<open>for\<close> loop over the assignee query values. \<open>scans\<close> lists the scans made so
  far, each with its assignee value and its exchanges.\<close>

type_synonym scan = "string option \<times> exchange list"

fun scanAll ::
  "host \<Rightarrow> (nat \<Rightarrow> api_request \<Rightarrow> error + json) \<Rightarrow> TimeEntriesParams \<Rightarrow> string list \<Rightarrow>
   TimeEntry list \<times> string list \<Rightarrow> scan list \<Rightarrow> (error + TimeEntry list) \<times> scan list" where
  "scanAll h respond params [] acc scans = (Inr (fst acc), scans)"
| "scanAll h respond params (assigneeQueryValue # rest) acc scans =
     (let assigneeValue = assigneeValueOf assigneeQueryValue;
          offset = length (concat (map snd scans))
      in case scanPages h respond params assigneeValue offset 0 0 None acc [] of
           (Inl err, exchanges) \<Rightarrow> (Inl err, scans @ [(assigneeValue, exchanges)])
         | (Inr acc', exchanges) \<Rightarrow>
             scanAll h respond params rest acc' (scans @ [(assigneeValue, exchanges)]))"

definition getTimeEntries ::
  "host \<Rightarrow> (nat \<Rightarrow> api_request \<Rightarrow> error + json) \<Rightarrow> TimeEntriesParams \<Rightarrow>
   (error + TimeEntry list) \<times> scan list" where
  "getTimeEntries h respond params =
     scanAll h respond params (buildAssigneeQueryValues (p_assigneeIds params)) ([], []) []"

section \<open>The alert refresh orchestrator (refreshAlerts) and the batch coordinator (main)\<close>

record ListInfo =
  list_id :: string
  list_name :: string
  list_folderId :: string
  list_teamId :: string

record ScopeTreeFolder =
  folder_id :: string
  folder_name :: string
  folder_teamId :: string
  folder_lists :: "ListInfo list"

record ScopeTreeTeam =
  team_id :: string
  team_name :: string
  team_folders :: "ScopeTreeFolder list"

record TimeRange =
  range_startMs :: "number option"
  range_endMs :: "number option"

record RefreshAlertResult =
  ra_alert :: AlertConfig
  ra_success :: bool
  ra_errorMessage :: "string option"

text \<open>\<open>computeTimeRange\<close> (alertEngine); \<open>now\<close> is the instant that the default argument
  \<open>new Date()\<close> reads.\<close>

definition computeTimeRange :: "host \<Rightarrow> AlertConfig \<Rightarrow> real \<Rightarrow> TimeRange" where
  "computeTimeRange h alert now =
     (if alert_timeRangeMode alert = NoRange then \<lparr> range_startMs = None, range_endMs = None \<rparr>
      else if alert_timeRangeMode alert = Monthly then
        \<lparr> range_startMs = Some (Num (host_startOfMonth h now)),
          range_endMs = Some (Num (host_endOfMonth h now)) \<rparr>
      else if \<not> truthy (alert_startDate alert) \<or> \<not> truthy (alert_endDate alert) then
        \<lparr> range_startMs = None, range_endMs = None \<rparr>
      else
        \<lparr> range_startMs = Some (host_startOfDay h (nullish (alert_startDate alert) [])),
          range_endMs = Some (host_endOfDay h (nullish (alert_endDate alert) [])) \<rparr>)"

text \<open>The two scope tests that the source writes out in \<open>getScopeWarning\<close> and again in the
  arguments of \<open>getTimeEntries\<close>.\<close>

definition usesFolder :: "AlertConfig \<Rightarrow> bool" where
  "usesFolder alert \<longleftrightarrow>
     alert_type alert = TypeFolder \<or>
     (alert_type alert = TypeCustom \<and> alert_customScopeType alert = Some ScopeFolder)"

definition usesList :: "AlertConfig \<Rightarrow> bool" where
  "usesList alert \<longleftrightarrow>
     alert_type alert = TypeList \<or>
     (alert_type alert = TypeCustom \<and> alert_customScopeType alert = Some ScopeList)"

definition getScopeWarning :: "AlertConfig \<Rightarrow> ScopeTreeTeam list \<Rightarrow> string option" where
  "getScopeWarning alert tree =
     (case find (\<lambda>item. team_id item = alert_teamId alert) tree of
        None \<Rightarrow> Some ''Selected workspace is no longer accessible.''
      | Some team \<Rightarrow>
          if usesFolder alert \<and>
             \<not> list_ex (\<lambda>folder. Some (folder_id folder) = alert_folderId alert) (team_folders team)
          then Some ''Selected folder is missing or inaccessible.''
          else if usesList alert \<and>
             \<not> list_ex (\<lambda>folder. list_ex (\<lambda>l. Some (list_id l) = alert_listId alert)
                  (folder_lists folder)) (team_folders team)
          then Some ''Selected list is missing or inaccessible.''
          else None)"

text \<open>The surroundings of the orchestrator. Every effect (a call of a client method, a
  read of the clock, a call of a store method) is numbered in the order in which it
  happens; the environment gives the outcome of the effect with a given number: what
  the client method returns or throws, the instant the clock shows, and whether the
  file access of a store method fails. The client's own work (the requests behind one
  method call) is the subject of the sections above.\<close>

record env =
  env_clock :: "nat \<Rightarrow> real"
  env_getScopeTree :: "nat \<Rightarrow> error + ScopeTreeTeam list"
  env_getTimeEntries :: "nat \<Rightarrow> TimeEntriesParams \<Rightarrow> error + TimeEntry list"
  env_getTeamMemberIds :: "nat \<Rightarrow> string \<Rightarrow> error + string list"
  env_storeFault :: "nat \<Rightarrow> error option"

datatype client_call =
    GetScopeTree
  | GetTimeEntries TimeEntriesParams
  | GetTeamMemberIds string

text \<open>The state that the effects change: the number of effects so far, the client calls
  made, and the content of the store (the alerts of the state file and the token, absent
  when there is none or it cannot be decrypted).\<close>

record world =
  w_tick :: nat
  w_calls :: "client_call list"
  w_alerts :: "AlertConfig list"
  w_token :: "string option"

definition readClock :: "host \<Rightarrow> env \<Rightarrow> world \<Rightarrow> string \<times> world" where
  "readClock h e w = (host_toISOString h (env_clock e (w_tick w)), w\<lparr>w_tick := w_tick w + 1\<rparr>)"

definition readInstant :: "env \<Rightarrow> world \<Rightarrow> real \<times> world" where
  "readInstant e w = (env_clock e (w_tick w), w\<lparr>w_tick := w_tick w + 1\<rparr>)"

definition client_getScopeTree :: "env \<Rightarrow> world \<Rightarrow> (error + ScopeTreeTeam list) \<times> world" where
  "client_getScopeTree e w =
     (env_getScopeTree e (w_tick w),
      w\<lparr>w_tick := w_tick w + 1, w_calls := w_calls w @ [GetScopeTree]\<rparr>)"

definition client_getTimeEntries ::
  "env \<Rightarrow> TimeEntriesParams \<Rightarrow> world \<Rightarrow> (error + TimeEntry list) \<times> world" where
  "client_getTimeEntries e params w =
     (env_getTimeEntries e (w_tick w) params,
      w\<lparr>w_tick := w_tick w + 1, w_calls := w_calls w @ [GetTimeEntries params]\<rparr>)"

definition client_getTeamMemberIds ::
  "env \<Rightarrow> string \<Rightarrow> world \<Rightarrow> (error + string list) \<times> world" where
  "client_getTeamMemberIds e teamId w =
     (env_getTeamMemberIds e (w_tick w) teamId,
      w\<lparr>w_tick := w_tick w + 1, w_calls := w_calls w @ [GetTeamMemberIds teamId]\<rparr>)"

text \<open>\<open>sortAlerts\<close> (main) and \<open>sortByOrder\<close> (storage) are the same function:
  \<open>[...alerts].sort((a, b) => a.order - b.order || a.createdAt.localeCompare(b.createdAt))\<close>.
  \<open>Array.prototype.sort\<close> is stable; it is modelled as the stable insertion sort, which
  is its result for every comparator that is a consistent ordering.\<close>

definition compareAlerts :: "host \<Rightarrow> AlertConfig \<Rightarrow> AlertConfig \<Rightarrow> real" where
  "compareAlerts h a b =
     (if alert_order a - alert_order b \<noteq> 0 then alert_order a - alert_order b
      else of_int (host_localeCompare h (alert_createdAt a) (alert_createdAt b)))"

fun insertAlert :: "host \<Rightarrow> AlertConfig \<Rightarrow> AlertConfig list \<Rightarrow> AlertConfig list" where
  "insertAlert h a [] = [a]"
| "insertAlert h a (b # bs) =
     (if compareAlerts h a b < 0 then a # b # bs else b # insertAlert h a bs)"

definition sortAlerts :: "host \<Rightarrow> AlertConfig list \<Rightarrow> AlertConfig list" where
  "sortAlerts h alerts = foldl (\<lambda>sorted a. insertAlert h a sorted) [] alerts"

definition sortByOrder :: "host \<Rightarrow> AlertConfig list \<Rightarrow> AlertConfig list" where
  "sortByOrder h alerts = sortAlerts h alerts"

text \<open>The store (storage). Each method reads the state file first, and \<open>setAlerts\<close> writes
  it; a failing file access makes the method throw. \<open>normalizeState\<close> sorts the alerts
  on every read and on every write.\<close>

definition store_getAlerts :: "host \<Rightarrow> env \<Rightarrow> world \<Rightarrow> (error + AlertConfig list) \<times> world" where
  "store_getAlerts h e w =
     (case env_storeFault e (w_tick w) of
        Some err \<Rightarrow> (Inl err, w\<lparr>w_tick := w_tick w + 1\<rparr>)
      | None \<Rightarrow> (Inr (sortByOrder h (w_alerts w)), w\<lparr>w_tick := w_tick w + 1\<rparr>))"

definition store_setAlerts ::
  "host \<Rightarrow> env \<Rightarrow> AlertConfig list \<Rightarrow> world \<Rightarrow> (error + AlertConfig list) \<times> world" where
  "store_setAlerts h e alerts w =
     (case env_storeFault e (w_tick w) of
        Some err \<Rightarrow> (Inl err, w\<lparr>w_tick := w_tick w + 1\<rparr>)
      | None \<Rightarrow>
          (let nextAlerts = sortByOrder h alerts
           in (Inr nextAlerts,
               w\<lparr>w_tick := w_tick w + 1, w_alerts := sortByOrder h nextAlerts\<rparr>)))"

definition store_getToken :: "env \<Rightarrow> world \<Rightarrow> (error + string option) \<times> world" where
  "store_getToken e w =
     (case env_storeFault e (w_tick w) of
        Some err \<Rightarrow> (Inl err, w\<lparr>w_tick := w_tick w + 1\<rparr>)
      | None \<Rightarrow>
          (Inr (if truthy (w_token w) then w_token w else None), w\<lparr>w_tick := w_tick w + 1\<rparr>))"

text \<open>\<open>{ ...alert, lastRefreshedAt: snapshot.lastRefreshedAt, lastSnapshot: snapshot,
  updatedAt: ... }\<close>, the alert record of three of the four results of
  \<open>refreshSingleAlert\<close>.\<close>

definition withSnapshot :: "AlertConfig \<Rightarrow> AlertSnapshot \<Rightarrow> string \<Rightarrow> AlertConfig" where
  "withSnapshot alert snapshot updatedAt =
     alert\<lparr> alert_lastRefreshedAt := Some (snap_lastRefreshedAt snapshot),
            alert_lastSnapshot := Some snapshot,
            alert_updatedAt := updatedAt \<rparr>"

text \<open>The arguments of the \<open>getTimeEntries\<close> call of \<open>refreshSingleAlert\<close>: the object
  literal has no \<open>assigneeIds\<close> property.\<close>

definition timeEntriesParams :: "AlertConfig \<Rightarrow> TimeRange \<Rightarrow> TimeEntriesParams" where
  "timeEntriesParams alert timeRange =
     \<lparr> p_teamId = alert_teamId alert,
       p_startMs = range_startMs timeRange,
       p_endMs = range_endMs timeRange,
       p_folderId = (if usesFolder alert then alert_folderId alert else None),
       p_listId = (if usesList alert then alert_listId alert else None),
       p_assigneeIds = None \<rparr>"

text \<open>The \<open>try\<close> block of \<open>refreshSingleAlert\<close>: the result it returns, or the error
  thrown in it.\<close>

definition refreshTry ::
  "host \<Rightarrow> env \<Rightarrow> AlertConfig \<Rightarrow> ScopeTreeTeam list option \<Rightarrow> world \<Rightarrow>
   (error + RefreshAlertResult) \<times> world" where
  "refreshTry h e alert scopeTreeOverride w =
     (case (case scopeTreeOverride of
              Some tree \<Rightarrow> (Inr tree, w)
            | None \<Rightarrow> client_getScopeTree e w) of
        (Inl err, w1) \<Rightarrow> (Inl err, w1)
      | (Inr scopeTree, w1) \<Rightarrow>
          (case getScopeWarning alert scopeTree of
             Some warning \<Rightarrow>
               (case readClock h e w1 of (t1, w2) \<Rightarrow>
                case readClock h e w2 of (t2, w3) \<Rightarrow>
                  (Inr \<lparr> ra_alert = withSnapshot alert (buildErrorSnapshot alert warning t1) t2,
                         ra_success = False,
                         ra_errorMessage = Some warning \<rparr>, w3))
           | None \<Rightarrow>
               (case readInstant e w1 of (now, w2) \<Rightarrow>
                case client_getTimeEntries e
                       (timeEntriesParams alert (computeTimeRange h alert now)) w2 of
                  (Inl err, w3) \<Rightarrow> (Inl err, w3)
                | (Inr entries, w3) \<Rightarrow>
                    (case readClock h e w3 of (t1, w4) \<Rightarrow>
                     case readClock h e w4 of (t2, w5) \<Rightarrow>
                       (Inr \<lparr> ra_alert =
                                (withSnapshot alert
                                   (buildSnapshot alert (applyEntryFilters alert entries) None t1) t2)
                                  \<lparr> alert_excludedTaskIds := newSet (alert_excludedTaskIds alert),
                                    alert_includeOnlyTaskIds :=
                                      Some (case alert_includeOnlyTaskIds alert of
                                              Some ids \<Rightarrow> newSet ids
                                            | None \<Rightarrow> []) \<rparr>,
                              ra_success = True,
                              ra_errorMessage = None \<rparr>, w5)))))"

text \<open>\<open>refreshSingleAlert(client, alert, scopeTreeOverride?)\<close>: the function has three
  parameters. The client is represented by the environment. A scope warning is never the
  empty string, so \<open>if (warning)\<close> tests for \<open>undefined\<close>.\<close>

definition refreshSingleAlert ::
  "host \<Rightarrow> env \<Rightarrow> AlertConfig \<Rightarrow> ScopeTreeTeam list option \<Rightarrow> world \<Rightarrow>
   RefreshAlertResult \<times> world" where
  "refreshSingleAlert h e alert scopeTreeOverride w =
     (if \<not> alert_active alert then
        (case readClock h e w of (t1, w1) \<Rightarrow>
         case readClock h e w1 of (t2, w2) \<Rightarrow>
           (\<lparr> ra_alert =
                withSnapshot alert ((buildSnapshot alert [] None t1)\<lparr>snap_status := Inactive\<rparr>) t2,
              ra_success = True,
              ra_errorMessage = None \<rparr>, w2))
      else
        (case refreshTry h e alert scopeTreeOverride w of
           (Inr result, w1) \<Rightarrow> (result, w1)
         | (Inl err, w1) \<Rightarrow>
             (let message =
                    (case err of
                       ClickUpApiError m status code \<Rightarrow> m
                     | _ \<Rightarrow> ''Failed to refresh alert due to an unexpected error.'')
              in case readClock h e w1 of (t1, w2) \<Rightarrow>
                 case readClock h e w2 of (t2, w3) \<Rightarrow>
                   (\<lparr> ra_alert = withSnapshot alert (buildErrorSnapshot alert message t1) t2,
                      ra_success = False,
                      ra_errorMessage = Some message \<rparr>, w3))))"

text \<open>The call expression \<open>refreshSingleAlert(client, alert, undefined, teamMemberIds)\<close> of
  the two callers in main: the fourth argument meets no parameter and is dropped.\<close>

definition refreshSingleAlert_call ::
  "host \<Rightarrow> env \<Rightarrow> AlertConfig \<Rightarrow> ScopeTreeTeam list option \<Rightarrow> string list \<Rightarrow> world \<Rightarrow>
   RefreshAlertResult \<times> world" where
  "refreshSingleAlert_call h e alert scopeTreeOverride teamMemberIds w =
     refreshSingleAlert h e alert scopeTreeOverride w"

text \<open>\<open>withClient\<close> (main): the token is read from the store; without a token it throws.\<close>

definition withClient ::
  "env \<Rightarrow> (world \<Rightarrow> (error + 'a) \<times> world) \<Rightarrow> world \<Rightarrow> (error + 'a) \<times> world" where
  "withClient e fn w =
     (case store_getToken e w of
        (Inl err, w1) \<Rightarrow> (Inl err, w1)
      | (Inr token, w1) \<Rightarrow>
          if \<not> truthy token then
            (Inl (OtherError ''No ClickUp token configured. Add a token in settings first.''), w1)
          else fn w1)"

text \<open>The loop of \<open>refreshAllInternal\<close> over the sorted alerts, with \<open>results\<close> and
  \<open>teamMemberCache\<close>. A failing lookup of the team members gives the empty list.\<close>

fun refreshLoop ::
  "host \<Rightarrow> env \<Rightarrow> AlertConfig list \<Rightarrow> RefreshAlertResult list \<Rightarrow> (string \<rightharpoonup> string list) \<Rightarrow> world \<Rightarrow>
   RefreshAlertResult list \<times> world" where
  "refreshLoop h e [] results teamMemberCache w = (results, w)"
| "refreshLoop h e (alert # rest) results teamMemberCache w =
     (case (case teamMemberCache (alert_teamId alert) of
              Some ids \<Rightarrow> (ids, teamMemberCache, w)
            | None \<Rightarrow>
                (case client_getTeamMemberIds e (alert_teamId alert) w of
                   (Inr ids, w1) \<Rightarrow> (ids, teamMemberCache(alert_teamId alert \<mapsto> ids), w1)
                 | (Inl err, w1) \<Rightarrow> ([], teamMemberCache(alert_teamId alert \<mapsto> []), w1))) of
        (teamMemberIds, cache1, w1) \<Rightarrow>
          (case refreshSingleAlert_call h e alert None teamMemberIds w1 of
             (refreshed, w2) \<Rightarrow> refreshLoop h e rest (results @ [refreshed]) cache1 w2))"

text \<open>\<open>new Map(results.map((item) => [item.alert.id, item.alert]))\<close>: for an id that occurs
  twice the later alert stands.\<close>

definition nextAlertsById :: "RefreshAlertResult list \<Rightarrow> (string \<rightharpoonup> AlertConfig)" where
  "nextAlertsById results = map_of (rev (map (\<lambda>item. (alert_id (ra_alert item), ra_alert item)) results))"

definition refreshAllInternal ::
  "host \<Rightarrow> env \<Rightarrow> AlertConfig list \<Rightarrow> world \<Rightarrow> (error + RefreshAlertResult list) \<times> world" where
  "refreshAllInternal h e alerts w =
     withClient e (\<lambda>w1.
       case refreshLoop h e (sortAlerts h alerts) [] Map.empty w1 of
         (results, w2) \<Rightarrow>
           (let nextAlerts =
                  sortAlerts h
                    (map (\<lambda>alert. nullish (nextAlertsById results (alert_id alert)) alert) alerts)
            in case store_setAlerts h e nextAlerts w2 of
                 (Inl err, w3) \<Rightarrow> (Inl err, w3)
               | (Inr stored, w3) \<Rightarrow> (Inr results, w3))) w"

text \<open>The \<open>catch\<close> block of the \<open>alerts:refresh-all\<close> handler builds one failed result per
  alert; each \<open>buildErrorSnapshot\<close> reads the clock.\<close>

fun failedResults ::
  "host \<Rightarrow> env \<Rightarrow> string \<Rightarrow> string \<Rightarrow> AlertConfig list \<Rightarrow> world \<Rightarrow> RefreshAlertResult list \<times> world" where
  "failedResults h e message nowIso [] w = ([], w)"
| "failedResults h e message nowIso (alert # rest) w =
     (case readClock h e w of (t, w1) \<Rightarrow>
      case failedResults h e message nowIso rest w1 of (results, w2) \<Rightarrow>
        (\<lparr> ra_alert =
             alert\<lparr> alert_lastRefreshedAt := Some nowIso,
                    alert_updatedAt := nowIso,
                    alert_lastSnapshot := Some (buildErrorSnapshot alert message t) \<rparr>,
           ra_success = False,
           ra_errorMessage = Some message \<rparr> # results, w2))"

text \<open>The handler of \<open>alerts:refresh-all\<close>. \<open>Inl\<close> is an error that leaves the handler.\<close>

definition refreshAllHandler ::
  "host \<Rightarrow> env \<Rightarrow> world \<Rightarrow> (error + RefreshAlertResult list) \<times> world" where
  "refreshAllHandler h e w =
     (case store_getAlerts h e w of
        (Inl err, w1) \<Rightarrow> (Inl err, w1)
      | (Inr alerts, w1) \<Rightarrow>
          if length alerts = 0 then (Inr [], w1)
          else
            (case refreshAllInternal h e alerts w1 of
               (Inr results, w2) \<Rightarrow> (Inr results, w2)
             | (Inl err, w2) \<Rightarrow>
                 (let message =
                        (case err of
                           ClickUpApiError m status code \<Rightarrow> m
                         | OtherError m \<Rightarrow> m
                         | NonError \<Rightarrow> ''Failed to refresh alerts.'')
                  in case readClock h e w2 of (nowIso, w3) \<Rightarrow>
                     case failedResults h e message nowIso alerts w3 of (failed, w4) \<Rightarrow>
                     case store_setAlerts h e (map ra_alert failed) w4 of
                       (Inl err2, w5) \<Rightarrow> (Inl err2, w5)
                     | (Inr stored, w5) \<Rightarrow> (Inr failed, w5))))"

section \<open>Predicates used to state the properties\<close>

text \<open>The outcomes after which the loop retries: a rejected fetch, a response of any
  status whose JSON body cannot be read, and HTTP 429 or any status from 500 up (the
  5xx range) when the body is not JSON or was read.\<close>

fun retriable :: "fetch_outcome \<Rightarrow> bool" where
  "retriable (FetchRejects message) = True"
| "retriable (Response status (UnreadableBody message)) = True"
| "retriable (Response status body) = (status = 429 \<or> status \<ge> 500)"

text \<open>The fetches among the events of a call.\<close>

fun isFetch :: "io_event \<Rightarrow> bool" where
  "isFetch (Fetch attempt) = True"
| "isFetch (Sleep ms) = False"

text \<open>The inputs of \<open>buildSnapshot\<close> for which no result of its arithmetic leaves the
  range of the finite doubles, so that every \<open>fl\<close> in it is the rounding of the
  machine: an array has fewer than \<open>2 ^ 32\<close> elements, and durations up to \<open>2 ^ 500\<close>
  in magnitude with a budget of at most \<open>2 ^ 400\<close> in magnitude that is at least
  \<open>2 ^ -400\<close> when it is positive (a budget that is not positive is not divided by)
  keep every sum, product and quotient below \<open>2 ^ 1024\<close>, as
  \<open>buildSnapshot_in_range\<close> shows.\<close>

definition inRange :: "AlertConfig \<Rightarrow> TimeEntry list \<Rightarrow> bool" where
  "inRange alert entries \<longleftrightarrow>
     length entries < 2 ^ 32 \<and>
     (\<forall>e \<in> set entries. \<bar>entry_durationMs e\<bar> \<le> 2 ^ 500) \<and>
     \<bar>alert_budgetHours alert\<bar> \<le> 2 ^ 400 \<and>
     (alert_budgetHours alert \<le> 0 \<or> 1 / 2 ^ 400 \<le> alert_budgetHours alert)"

text \<open>The response carries a cursor that the scan follows: a non-empty string.\<close>

definition hasCursor :: "json \<Rightarrow> bool" where
  "hasCursor payload =
     (case field payload ''next_cursor'' of Some (JStr c) \<Rightarrow> c \<noteq> [] | _ \<Rightarrow> False)"

text \<open>An entry was built from its raw payload by the code of \<open>getTimeEntries\<close>.\<close>

definition entryFrom :: "host \<Rightarrow> TimeEntry \<Rightarrow> bool" where
  "entryFrom h e \<longleftrightarrow>
     isObject (entry_raw e) \<and>
     entry_id e = entryIdentity h (entry_raw e) \<and>
     entry_durationMs e = parseDurationMs h (field (entry_raw e) ''duration'')"

text \<open>\<open>seenIds\<close> lists the ids of \<open>entries\<close>, without repetition.\<close>

definition collected_ok :: "host \<Rightarrow> TimeEntry list \<times> string list \<Rightarrow> bool" where
  "collected_ok h acc \<longleftrightarrow>
     snd acc = map entry_id (fst acc) \<and> distinct (snd acc) \<and>
     (\<forall>e \<in> set (fst acc). entryFrom h e)"

text \<open>Every raw entry (object) of every payload received in the exchanges has its
  identity among \<open>seen\<close>.\<close>

definition covered :: "host \<Rightarrow> string list \<Rightarrow> exchange list \<Rightarrow> bool" where
  "covered h seen xs \<longleftrightarrow>
     (\<forall>(req, resp) \<in> set xs. \<forall>payload. resp = Inr payload \<longrightarrow>
        (\<forall>item \<in> set (rawEntries payload).
           isObject item \<longrightarrow> entryIdentity h item \<in> set seen))"

text \<open>A scan made at least one and at most 200 requests, all with the scan's assignee
  value.\<close>

definition scan_ok :: "scan \<Rightarrow> bool" where
  "scan_ok s \<longleftrightarrow>
     snd s \<noteq> [] \<and> length (snd s) \<le> 200 \<and>
     (\<forall>(req, resp) \<in> set (snd s). q_assignee (req_query req) = fst s)"

text \<open>A failed result with a given message: \<open>success = false\<close>, the message, and an error
  snapshot that carries it.\<close>

definition isFailedWith :: "string \<Rightarrow> RefreshAlertResult \<Rightarrow> bool" where
  "isFailedWith message r \<longleftrightarrow>
     \<not> ra_success r \<and> ra_errorMessage r = Some message \<and>
     (case alert_lastSnapshot (ra_alert r) of
        Some snapshot \<Rightarrow>
          snap_status snapshot = ErrorStatus \<and> snap_errorMessage snapshot = Some message
      | None \<Rightarrow> False)"

text \<open>The message that the \<open>alerts:refresh-all\<close> handler takes from a caught error.\<close>

definition errorMessageOf :: "error \<Rightarrow> string" where
  "errorMessageOf err =
     (case err of
        ClickUpApiError m status code \<Rightarrow> m
      | OtherError m \<Rightarrow> m
      | NonError \<Rightarrow> ''Failed to refresh alerts.'')"

section \<open>Example data\<close>

text \<open>An active folder alert with a budget of 50 hours, warning at 80 percent and critical
  at 100 percent, never refreshed; and the variations of it that the theorems below
  evaluate.\<close>

definition alert_50h :: AlertConfig where
  "alert_50h =
     \<lparr> alert_id = ''a1'', alert_order = 0, alert_name = ''Design'',
       alert_description = None, alert_type = TypeFolder, alert_teamId = ''t1'',
       alert_folderId = Some ''f1'', alert_folderName = Some ''Design'',
       alert_listId = None, alert_listName = None, alert_customScopeType = None,
       alert_timeRangeMode = NoRange, alert_startDate = None, alert_endDate = None,
       alert_budgetHours = 50, alert_warningThresholdPct = 80,
       alert_criticalThresholdPct = 100, alert_excludedTaskIds = [],
       alert_includeOnlyTaskIds = None, alert_refreshFrequencyMinutes = 0,
       alert_active = True, alert_createdAt = ''2024-01-01T00:00:00.000Z'',
       alert_updatedAt = ''2024-01-01T00:00:00.000Z'', alert_lastRefreshedAt = None,
       alert_lastSnapshot = None \<rparr>"

definition entry_of :: "string \<Rightarrow> string option \<Rightarrow> real \<Rightarrow> TimeEntry" where
  "entry_of i t d =
     \<lparr> entry_id = i, entry_taskId = t, entry_durationMs = d, entry_startMs = None,
       entry_endMs = None, entry_userId = None, entry_raw = JObj [] \<rparr>"

definition alert_50h_inactive :: AlertConfig where
  "alert_50h_inactive = alert_50h\<lparr>alert_active := False\<rparr>"

definition snapshot_prev :: AlertSnapshot where
  "snapshot_prev =
     \<lparr> snap_status = Yellow, snap_hoursUsed = 4167 / 100, snap_budgetHours = 50,
       snap_remainingHours = 833 / 100, snap_overByHours = 0, snap_percentUsed = 8334 / 100,
       snap_entryCount = 1, snap_lastRefreshedAt = ''2024-02-01T00:00:00.000Z'',
       snap_scopeSummary = ''Folder: Design | Cumulative'', snap_warningMessage = None,
       snap_errorMessage = None \<rparr>"

text \<open>The alert after an evaluation at a budget of 50 hours and an edit that raised the
  budget to 60 hours (an edit keeps the last snapshot).\<close>

definition alert_edited :: AlertConfig where
  "alert_edited =
     alert_50h\<lparr>alert_budgetHours := 60, alert_lastSnapshot := Some snapshot_prev\<rparr>"

definition alert_include_only :: AlertConfig where
  "alert_include_only =
     alert_50h\<lparr>alert_excludedTaskIds := [''t9''], alert_includeOnlyTaskIds := Some [''t1'']\<rparr>"

text \<open>The alert as the state file can hold it after a hand edit: an include-only list
  whose single id is one space.\<close>

definition alert_blank_include :: AlertConfig where
  "alert_blank_include = alert_50h\<lparr>alert_includeOnlyTaskIds := Some ['' '']\<rparr>"

text \<open>A provider that answers 429 three times and then 200 with an empty object, and
  one that always answers 500 without a JSON body.\<close>

definition fetch_429_then_200 :: "nat \<Rightarrow> fetch_outcome" where
  "fetch_429_then_200 attempt =
     (if attempt < 4 then Response 429 NoJsonBody else Response 200 (JsonBody (JObj [])))"

definition fetch_always_500 :: "nat \<Rightarrow> fetch_outcome" where
  "fetch_always_500 attempt = Response 500 NoJsonBody"

text \<open>A provider that refuses the token, one that cannot be reached at first and then
  denies the permission, and one that cannot be reached at all.\<close>

definition fetch_unauthorized :: "nat \<Rightarrow> fetch_outcome" where
  "fetch_unauthorized attempt =
     Response 401 (JsonBody (JObj [(''err'', JStr ''Token invalid''), (''ECODE'', JStr ''OAUTH_025'')]))"

definition fetch_forbidden_second :: "nat \<Rightarrow> fetch_outcome" where
  "fetch_forbidden_second attempt =
     (if attempt = 1 then FetchRejects ''fetch failed'' else Response 403 NoJsonBody)"

definition fetch_offline :: "nat \<Rightarrow> fetch_outcome" where
  "fetch_offline attempt = FetchRejects ''fetch failed''"

text \<open>A provider that always answers 429 with its message in the field \<open>err\<close>, one that
  always answers 503 with its message in the field \<open>message\<close>, and one that always
  answers 401 with a JSON content type and a body that is cut off.\<close>

definition fetch_rate_limited :: "nat \<Rightarrow> fetch_outcome" where
  "fetch_rate_limited attempt =
     Response 429 (JsonBody (JObj [(''err'', JStr ''Rate limit reached''), (''ECODE'', JStr ''APP_002'')]))"

definition fetch_unavailable :: "nat \<Rightarrow> fetch_outcome" where
  "fetch_unavailable attempt =
     Response 503 (JsonBody (JObj [(''message'', JStr ''Service unavailable'')]))"

definition fetch_401_cut_off :: "nat \<Rightarrow> fetch_outcome" where
  "fetch_401_cut_off attempt = Response 401 (UnreadableBody ''Unexpected end of JSON input'')"

text \<open>A host whose \<open>String\<close> prints the integer part of the magnitude and whose \<open>Number\<close>
  reads two strings; the other functions are of no account in the examples.\<close>

definition host_example :: host where
  "host_example =
     \<lparr> host_Number =
         (\<lambda>s. if s = ''-1800000'' then Some (- 1800000)
              else if s = ''1700000000000'' then Some 1700000000000
              else None),
       host_String = (\<lambda>r. showNat (nat \<lfloor>\<bar>r\<bar>\<rfloor>)),
       host_localeCompare = (\<lambda>a b. if a = b then 0 else 1),
       host_toISOString = (\<lambda>t. showNat (nat \<lfloor>\<bar>t\<bar>\<rfloor>)),
       host_startOfMonth = (\<lambda>t. t),
       host_endOfMonth = (\<lambda>t. t),
       host_startOfDay = (\<lambda>s. NaN),
       host_endOfDay = (\<lambda>s. NaN) \<rparr>"

text \<open>Two raw entries: one with a provider id, one without an id, with a negative
  duration given as a string (a running timer).\<close>

definition raw_e1 :: json where
  "raw_e1 =
     JObj [(''id'', JStr ''e1''), (''task'', JObj [(''id'', JStr ''t1'')]),
       (''userid'', JNum 7), (''duration'', JNum 3600000)]"

definition raw_e2 :: json where
  "raw_e2 = JObj [(''task_id'', JStr ''t2''), (''userid'', JNum 7), (''duration'', JStr ''-1800000'')]"

text \<open>The second entry as another endpoint shape gives it: the task nested, the user id
  a string, the duration a positive number.\<close>

definition raw_e2_again :: json where
  "raw_e2_again = JObj [(''duration'', JNum 1800000), (''userid'', JStr ''7''),
     (''task'', JObj [(''id'', JStr ''t2'')])]"

text \<open>An entry whose provider id is a number, with start and end times.\<close>

definition raw_e3 :: json where
  "raw_e3 = JObj [(''id'', JNum 3), (''task'', JObj [(''id'', JStr ''t3'')]),
     (''userid'', JStr ''9''), (''start'', JStr ''1700000000000''),
     (''end'', JNum 1700000360000), (''duration'', JNum 360000)]"

text \<open>Two entries of one minute by the same user on the same task, neither with a start
  or an end time, whose provider ids are the numbers 12 and 13; a provider that returns
  both in a single page; and a call without assignee filter.\<close>

definition raw_n12 :: json where
  "raw_n12 = JObj [(''id'', JNum 12), (''task_id'', JStr ''t1''), (''userid'', JNum 7),
     (''duration'', JNum 60000)]"

definition raw_n13 :: json where
  "raw_n13 = JObj [(''id'', JNum 13), (''task_id'', JStr ''t1''), (''userid'', JNum 7),
     (''duration'', JNum 60000)]"

definition respond_numeric_ids :: "nat \<Rightarrow> api_request \<Rightarrow> error + json" where
  "respond_numeric_ids n req = Inr (JObj [(''data'', JArr [raw_n12, raw_n13])])"

text \<open>A provider that returns \<open>raw_e1\<close> for assignee 7, nothing for the unassigned query
  and both entries for the query without assignee, each in a single page.\<close>

definition respond_example :: "nat \<Rightarrow> api_request \<Rightarrow> error + json" where
  "respond_example n req =
     (if q_assignee (req_query req) = Some ''7'' then Inr (JObj [(''data'', JArr [raw_e1])])
      else if q_assignee (req_query req) = Some ''0'' then Inr (JObj [(''data'', JArr [])])
      else Inr (JObj [(''time_entries'', JArr [raw_e1, raw_e2])]))"

definition params_example :: TimeEntriesParams where
  "params_example =
     \<lparr> p_teamId = ''t1'', p_startMs = None, p_endMs = None, p_folderId = Some ''f1'',
       p_listId = None, p_assigneeIds = Some [''7''] \<rparr>"

text \<open>The same call without assignee filter, and with a filter that holds an id with
  a leading space, the same id again, a blank id and the id \<open>__UNASSIGNED__\<close>.\<close>

definition params_unfiltered :: TimeEntriesParams where
  "params_unfiltered = params_example\<lparr> p_assigneeIds := None \<rparr>"

definition params_untidy :: TimeEntriesParams where
  "params_untidy =
     params_example\<lparr> p_assigneeIds := Some ['' 7'', ''7'', '''', ''__UNASSIGNED__''] \<rparr>"

text \<open>What \<open>getTimeEntries\<close> returns for this provider with the filter \<open>['7']\<close>: the
  two entries, and the three scans of one exchange each.\<close>

definition entries_example :: "TimeEntry list" where
  "entries_example =
     [\<lparr> entry_id = ''e1'', entry_taskId = Some ''t1'', entry_durationMs = 3600000,
         entry_startMs = None, entry_endMs = None, entry_userId = Some ''7'',
         entry_raw = raw_e1 \<rparr>,
      \<lparr> entry_id = ''t2:7:0:0:1800000'', entry_taskId = Some ''t2'', entry_durationMs = 1800000,
         entry_startMs = None, entry_endMs = None, entry_userId = Some ''7'',
         entry_raw = raw_e2 \<rparr>]"

definition scans_example :: "scan list" where
  "scans_example =
     [(Some ''7'', [(pageRequest params_example (Some ''7'') 0 None,
         Inr (JObj [(''data'', JArr [raw_e1])]))]),
      (Some ''0'', [(pageRequest params_example (Some ''0'') 0 None,
         Inr (JObj [(''data'', JArr [])]))]),
      (None, [(pageRequest params_example None 0 None,
         Inr (JObj [(''time_entries'', JArr [raw_e1, raw_e2])]))])]"

text \<open>A provider whose every page carries a cursor, and one whose every page names
  page 0 as the next page.\<close>

definition respond_cursor_forever :: "nat \<Rightarrow> api_request \<Rightarrow> error + json" where
  "respond_cursor_forever n req = Inr (JObj [(''data'', JArr []), (''next_cursor'', JStr ''c'')])"

definition respond_same_page :: "nat \<Rightarrow> api_request \<Rightarrow> error + json" where
  "respond_same_page n req = Inr (JObj [(''data'', JArr []), (''next_page'', JNum 0)])"

text \<open>Surroundings for the batch refresh: a workspace with the folder of \<open>alert_50h\<close>, a
  client whose calls succeed, a store without faults or one whose file accesses fail from
  the third effect on, and a store content with or without token.\<close>

definition tree_example :: "ScopeTreeTeam list" where
  "tree_example =
     [\<lparr> team_id = ''t1'', team_name = ''Studio'',
        team_folders =
          [\<lparr> folder_id = ''f1'', folder_name = ''Design'', folder_teamId = ''t1'',
             folder_lists = [] \<rparr>] \<rparr>]"

definition env_example :: env where
  "env_example =
     \<lparr> env_clock = (\<lambda>n. of_nat n),
       env_getScopeTree = (\<lambda>n. Inr tree_example),
       env_getTimeEntries = (\<lambda>n params. Inr [entry_of ''e1'' (Some ''t1'') 150000000]),
       env_getTeamMemberIds = (\<lambda>n teamId. Inr [''42'', ''43'']),
       env_storeFault = (\<lambda>n. None) \<rparr>"

definition env_disk_full :: env where
  "env_disk_full =
     env_example\<lparr> env_storeFault :=
       (\<lambda>n. if n \<ge> 2 then Some (OtherError ''ENOSPC: no space left on device, write'')
            else None) \<rparr>"

definition world_no_token :: world where
  "world_no_token = \<lparr> w_tick = 0, w_calls = [], w_alerts = [alert_50h], w_token = None \<rparr>"

definition world_with_token :: world where
  "world_with_token = world_no_token\<lparr> w_token := Some ''pk_1'' \<rparr>"

section \<open>Properties of the host-language helpers\<close>

lemma set_newSet: "set (newSet xs) = set xs"
  by (simp add: newSet_def)

lemma distinct_newSet: "distinct (newSet xs)"
  by (simp add: newSet_def)

lemma newSet_Nil_iff: "newSet xs = [] \<longleftrightarrow> xs = []"
  by (metis set_newSet set_empty)

declare binaryExponent.simps [simp del]

text \<open>The equations that evaluate \<open>fl\<close> at a given number.\<close>

lemmas fl_eval = fl_def quantum_def binaryExponent.simps pow2_def roundTiesToEven_def Let_def

lemma pow2_powi: "pow2 e = 2 powi e"
  by (simp add: pow2_def power_int_def inverse_eq_divide power_one_over [symmetric] del: power_one_over)

lemma pow2_pos: "0 < pow2 e"
  by (simp add: pow2_powi)

lemma pow2_Suc: "pow2 (e + 1) = 2 * pow2 e"
  by (simp add: pow2_powi power_int_add)

lemma pow2_pred: "pow2 (e - 1) = pow2 e / 2"
  by (simp add: pow2_powi power_int_diff)

lemma pow2_diff: "pow2 (e - 52) = pow2 e / 2 ^ 52"
  by (simp add: pow2_powi power_int_diff)

text \<open>\<open>binaryExponent\<close> is the binary exponent.\<close>

lemma binaryExponent_bracket:
  "0 < x \<Longrightarrow> pow2 (binaryExponent x) \<le> x \<and> x < 2 * pow2 (binaryExponent x)"
proof (induction x rule: binaryExponent.induct)
  case (1 x)
  show ?case
  proof (cases "x < 1")
    case True
    have eq: "binaryExponent x = binaryExponent (2 * x) - 1"
      using True "1.prems" by (subst binaryExponent.simps) simp
    have "pow2 (binaryExponent (2 * x)) \<le> 2 * x \<and> 2 * x < 2 * pow2 (binaryExponent (2 * x))"
      using "1.IH"(1) True "1.prems" by simp
    then show ?thesis unfolding eq pow2_pred by simp
  next
    case False
    show ?thesis
    proof (cases "2 \<le> x")
      case True
      have eq: "binaryExponent x = binaryExponent (x / 2) + 1"
        using True by (subst binaryExponent.simps) simp
      have "pow2 (binaryExponent (x / 2)) \<le> x / 2 \<and> x / 2 < 2 * pow2 (binaryExponent (x / 2))"
        using "1.IH"(2) True False "1.prems" by simp
      then show ?thesis unfolding eq pow2_Suc by simp
    next
      case small: False
      have "binaryExponent x = 0"
        using False small "1.prems" by (subst binaryExponent.simps) simp
      then show ?thesis using False small by (simp add: pow2_def)
    qed
  qed
qed

lemma roundTiesToEven_error: "\<bar>of_int (roundTiesToEven y) - y\<bar> \<le> 1 / 2"
  unfolding roundTiesToEven_def Let_def by (auto; linarith)

lemma roundTiesToEven_nonpos: "y \<le> 0 \<Longrightarrow> roundTiesToEven y \<le> 0"
  unfolding roundTiesToEven_def Let_def by (auto; linarith)

lemma quantum_pos: "0 < quantum x"
  by (simp add: quantum_def pow2_pos)

lemma fl_zero: "fl 0 = 0"
  by (simp add: fl_def roundTiesToEven_def)

lemma fl_nonpos: "x \<le> 0 \<Longrightarrow> fl x \<le> 0"
proof -
  assume "x \<le> 0"
  then have "x / quantum x \<le> 0" using quantum_pos [of x] by (simp add: divide_nonpos_pos)
  then have "roundTiesToEven (x / quantum x) \<le> 0" by (rule roundTiesToEven_nonpos)
  then show ?thesis unfolding fl_def using quantum_pos [of x]
    by (simp add: mult_nonpos_nonneg)
qed

text \<open>The rounding error of \<open>fl\<close> is at most half the distance between neighbouring
  doubles, hence at most \<open>2 ^ -53\<close> relative to the magnitude (in the subnormal range
  at most \<open>2 ^ -1075\<close>).\<close>

lemma fl_error: "\<bar>fl x - x\<bar> \<le> quantum x / 2"
proof -
  let ?q = "quantum x"
  have q: "0 < ?q" by (rule quantum_pos)
  have "fl x - x = (of_int (roundTiesToEven (x / ?q)) - x / ?q) * ?q"
    using q by (simp add: fl_def algebra_simps)
  then have "\<bar>fl x - x\<bar> = \<bar>of_int (roundTiesToEven (x / ?q)) - x / ?q\<bar> * ?q"
    using q by (simp add: abs_mult)
  also have "\<dots> \<le> 1 / 2 * ?q"
    using roundTiesToEven_error [of "x / ?q"] q by (intro mult_right_mono) simp_all
  finally show ?thesis by simp
qed

lemma quantum_le: "x \<noteq> 0 \<Longrightarrow> quantum x \<le> max (pow2 (- 1074)) (\<bar>x\<bar> / 2 ^ 52)"
proof -
  assume "x \<noteq> 0"
  then have "pow2 (binaryExponent \<bar>x\<bar>) \<le> \<bar>x\<bar>"
    using binaryExponent_bracket [of "\<bar>x\<bar>"] by simp
  then have "pow2 (binaryExponent \<bar>x\<bar> - 52) \<le> \<bar>x\<bar> / 2 ^ 52"
    unfolding pow2_diff by (simp add: divide_right_mono)
  then show ?thesis unfolding quantum_def
    by (cases "binaryExponent \<bar>x\<bar> - 52 \<le> - 1074") (simp_all add: max_def)
qed

lemma fl_bound: "\<bar>fl x - x\<bar> \<le> (\<bar>x\<bar> + 1) / 2 ^ 53"
proof (cases "x = 0")
  case True
  then show ?thesis by (simp add: fl_zero)
next
  case False
  have tiny: "pow2 (- 1074) \<le> 1 / 2 ^ 52"
    by (simp add: pow2_def power_increasing divide_left_mono frac_le)
  have "quantum x \<le> max (pow2 (- 1074)) (\<bar>x\<bar> / 2 ^ 52)" using False by (rule quantum_le)
  also have "\<dots> \<le> (\<bar>x\<bar> + 1) / 2 ^ 52"
  proof -
    have "\<bar>x\<bar> / 2 ^ 52 \<le> (\<bar>x\<bar> + 1) / 2 ^ 52" by (simp add: divide_right_mono)
    moreover have "1 / 2 ^ 52 \<le> (\<bar>x\<bar> + 1) / (2 ^ 52 :: real)" by (simp add: divide_right_mono)
    ultimately have "pow2 (- 1074) \<le> (\<bar>x\<bar> + 1) / 2 ^ 52"
      and "\<bar>x\<bar> / 2 ^ 52 \<le> (\<bar>x\<bar> + 1) / 2 ^ 52"
      using tiny by linarith+
    then show ?thesis by (rule max.boundedI)
  qed
  finally have "quantum x / 2 \<le> (\<bar>x\<bar> + 1) / 2 ^ 53" by simp
  with fl_error [of x] show ?thesis by linarith
qed

section \<open>Properties of the retry loop\<close>

declare requestLoop.simps [simp del]
declare showNat.simps [simp del]

lemma loopBody_retriable:
  "retriable outcome \<Longrightarrow> attempt < MAX_ATTEMPTS \<Longrightarrow>
     loopBody attempt outcome = Retry (250 * 2 ^ (attempt - 1))"
  by (induction outcome rule: retriable.induct)
    (auto simp: loopBody_def catchBlock_def response_ok_def)

lemma retriable_status:
  "status = 429 \<or> status \<ge> 500 \<Longrightarrow> retriable (Response status body)"
  by (cases body) simp_all

lemma loopBody_ok:
  "response_ok status \<Longrightarrow> readBody body = Inr payload \<Longrightarrow>
     loopBody attempt (Response status body) = Finish (Inr payload)"
  by (simp add: loopBody_def)

lemma loopBody_401:
  "readBody body = Inr payload \<Longrightarrow>
   loopBody attempt (Response 401 body) =
     Finish (Inl (ClickUpApiError ''Invalid or revoked ClickUp token.'' (Some 401)
       (Some ''UNAUTHORIZED'')))"
  by (simp add: loopBody_def response_ok_def catchBlock_def)

lemma loopBody_403:
  "readBody body = Inr payload \<Longrightarrow>
   loopBody attempt (Response 403 body) =
     Finish (Inl (ClickUpApiError
       ''Token is valid but lacks required permissions for this scope.'' (Some 403)
       (Some ''FORBIDDEN'')))"
  by (simp add: loopBody_def response_ok_def catchBlock_def)

lemma loopBody_Retry_less:
  "loopBody attempt outcome = Retry ms \<Longrightarrow> attempt < MAX_ATTEMPTS"
  by (cases outcome)
    (auto simp: loopBody_def catchBlock_def split: if_splits sum.splits)

lemma loopBody_last_rejects:
  "loopBody MAX_ATTEMPTS (FetchRejects message) =
     Finish (Inl (ClickUpApiError ''Network error while contacting ClickUp API.'' None None))"
  by (simp add: loopBody_def catchBlock_def)

lemma loopBody_last_unreadable:
  "loopBody MAX_ATTEMPTS (Response status (UnreadableBody message)) =
     Finish (Inl (ClickUpApiError ''Network error while contacting ClickUp API.'' None None))"
  by (simp add: loopBody_def catchBlock_def)

lemma normalizeErrorMessage_fields:
  "normalizeErrorMessage payload fallback =
     (case field payload ''err'' of
        Some (JStr err) \<Rightarrow> err
      | _ \<Rightarrow> (case field payload ''message'' of Some (JStr message) \<Rightarrow> message | _ \<Rightarrow> fallback))"
  by (cases payload) (auto simp: normalizeErrorMessage_def split: option.splits json.splits)

lemma loopBody_last_response:
  "readBody body = Inr payload \<Longrightarrow>
   loopBody MAX_ATTEMPTS (Response status body) =
     Finish
       (if response_ok status then Inr payload
        else if status = 401 then
          Inl (ClickUpApiError ''Invalid or revoked ClickUp token.'' (Some 401)
            (Some ''UNAUTHORIZED''))
        else if status = 403 then
          Inl (ClickUpApiError
            ''Token is valid but lacks required permissions for this scope.'' (Some 403)
            (Some ''FORBIDDEN''))
        else
          Inl (ClickUpApiError
            (case field payload ''err'' of
               Some (JStr err) \<Rightarrow> err
             | _ \<Rightarrow>
                 (case field payload ''message'' of
                    Some (JStr message) \<Rightarrow> message
                  | _ \<Rightarrow> ''ClickUp API request failed ('' @ showNat status @ '')''))
            (Some status) None))"
  by (auto simp: loopBody_def catchBlock_def normalizeErrorMessage_fields
      split: option.splits json.splits)

lemma requestLoop_retry:
  "attempt < MAX_ATTEMPTS \<Longrightarrow> retriable (fetch attempt) \<Longrightarrow>
     requestLoop fetch attempt trace =
       requestLoop fetch (attempt + 1) (trace @ [Fetch attempt, Sleep (250 * 2 ^ (attempt - 1))])"
  by (subst requestLoop.simps) (simp add: loopBody_retriable)

lemma requestLoop_retry_step:
  "attempt < MAX_ATTEMPTS \<Longrightarrow> retriable (fetch attempt) \<Longrightarrow> next = attempt + 1 \<Longrightarrow>
     trace' = trace @ [Fetch attempt, Sleep (250 * 2 ^ (attempt - 1))] \<Longrightarrow>
     requestLoop fetch attempt trace = requestLoop fetch next trace'"
  by (simp add: requestLoop_retry)

lemma requestLoop_finish:
  "attempt \<le> MAX_ATTEMPTS \<Longrightarrow> loopBody attempt (fetch attempt) = Finish r \<Longrightarrow>
     requestLoop fetch attempt trace = (r, trace @ [Fetch attempt])"
  by (subst requestLoop.simps) simp

lemma request_three_retries:
  assumes r: "retriable (fetch 1)" "retriable (fetch 2)" "retriable (fetch 3)"
  shows "request fetch =
    requestLoop fetch 4 [Fetch 1, Sleep 250, Fetch 2, Sleep 500, Fetch 3, Sleep 1000]"
proof -
  have "request fetch = requestLoop fetch 2 [Fetch 1, Sleep 250]"
    unfolding request_def
    by (rule requestLoop_retry_step) (insert r, simp_all add: MAX_ATTEMPTS_def)
  also have "\<dots> = requestLoop fetch 3 [Fetch 1, Sleep 250, Fetch 2, Sleep 500]"
    by (rule requestLoop_retry_step) (insert r, simp_all add: MAX_ATTEMPTS_def)
  also have "\<dots> =
      requestLoop fetch 4 [Fetch 1, Sleep 250, Fetch 2, Sleep 500, Fetch 3, Sleep 1000]"
    by (rule requestLoop_retry_step) (insert r, simp_all add: MAX_ATTEMPTS_def)
  finally show ?thesis .
qed

lemma request_fourth:
  assumes r: "retriable (fetch 1)" "retriable (fetch 2)" "retriable (fetch 3)"
    and last: "loopBody 4 (fetch 4) = Finish result"
  shows "request fetch =
    (result, [Fetch 1, Sleep 250, Fetch 2, Sleep 500, Fetch 3, Sleep 1000, Fetch 4])"
  using request_three_retries [OF r] requestLoop_finish [of 4 fetch result] last
  by (simp add: MAX_ATTEMPTS_def)

lemma request_429_scenario:
  assumes "fetch 1 = Response 429 b1" "fetch 2 = Response 429 b2" "fetch 3 = Response 429 b3"
    "fetch 4 = Response 200 b" "readBody b = Inr p"
  shows "request fetch =
    (Inr p, [Fetch 1, Sleep 250, Fetch 2, Sleep 500, Fetch 3, Sleep 1000, Fetch 4])"
proof -
  have r: "retriable (fetch 1)" "retriable (fetch 2)" "retriable (fetch 3)"
    using assms by (simp_all add: retriable_status)
  have "loopBody 4 (fetch 4) = Finish (Inr p)"
    using assms(4,5) by (simp add: loopBody_ok response_ok_def)
  with r show ?thesis by (rule request_fourth)
qed

lemma requestLoop_fetch_count:
  "length (filter isFetch (snd (requestLoop fetch attempt trace))) \<le>
     length (filter isFetch trace) + (MAX_ATTEMPTS + 1 - attempt)"
proof (induction fetch attempt trace rule: requestLoop.induct)
  case (1 fetch attempt trace)
  show ?case
  proof (cases "attempt \<le> MAX_ATTEMPTS")
    case False
    then show ?thesis by (subst requestLoop.simps) simp
  next
    case True
    show ?thesis
    proof (cases "loopBody attempt (fetch attempt)")
      case (Finish r)
      then show ?thesis using True by (subst requestLoop.simps) simp
    next
      case (Retry ms)
      then show ?thesis using True "1.IH" [OF True Retry]
        by (subst requestLoop.simps) simp
    qed
  qed
qed

lemma readBody_error: "readBody body \<noteq> Inl (ClickUpApiError message status code)"
  by (cases body) simp_all

lemma loopBody_not_unexpected:
  "loopBody attempt outcome \<noteq>
     Finish (Inl (ClickUpApiError ''Unexpected API error.'' None None))"
  by (cases outcome)
    (auto simp: loopBody_def catchBlock_def readBody_error split: if_splits sum.splits)

lemma requestLoop_not_unexpected:
  "attempt \<le> MAX_ATTEMPTS \<Longrightarrow>
     fst (requestLoop fetch attempt trace) \<noteq>
       Inl (ClickUpApiError ''Unexpected API error.'' None None)"
proof (induction fetch attempt trace rule: requestLoop.induct)
  case (1 fetch attempt trace)
  show ?case
  proof (cases "loopBody attempt (fetch attempt)")
    case (Finish r)
    then show ?thesis
      using "1.prems" loopBody_not_unexpected [of attempt "fetch attempt"]
      by (subst requestLoop.simps) auto
  next
    case (Retry ms)
    then show ?thesis
      using "1.IH" [OF "1.prems" Retry] "1.prems" loopBody_Retry_less [OF Retry]
      by (subst requestLoop.simps) simp
  qed
qed

lemma requestLoop_last_attempt:
  "attempt \<le> MAX_ATTEMPTS \<Longrightarrow> Fetch MAX_ATTEMPTS \<notin> set trace \<Longrightarrow>
     Fetch MAX_ATTEMPTS \<in> set (snd (requestLoop fetch attempt trace)) \<Longrightarrow>
     loopBody MAX_ATTEMPTS (fetch MAX_ATTEMPTS) = Finish (fst (requestLoop fetch attempt trace))"
proof (induction fetch attempt trace rule: requestLoop.induct)
  case (1 fetch attempt trace)
  show ?case
  proof (cases "loopBody attempt (fetch attempt)")
    case (Finish r)
    have run: "requestLoop fetch attempt trace = (r, trace @ [Fetch attempt])"
      using "1.prems"(1) Finish by (rule requestLoop_finish)
    with "1.prems" have "attempt = MAX_ATTEMPTS" by auto
    with Finish run show ?thesis by simp
  next
    case (Retry ms)
    have less: "attempt < MAX_ATTEMPTS" using Retry by (rule loopBody_Retry_less)
    have run: "requestLoop fetch attempt trace =
        requestLoop fetch (attempt + 1) (trace @ [Fetch attempt, Sleep ms])"
      using "1.prems"(1) Retry by (subst requestLoop.simps) simp
    have "loopBody MAX_ATTEMPTS (fetch MAX_ATTEMPTS) =
        Finish (fst (requestLoop fetch (attempt + 1) (trace @ [Fetch attempt, Sleep ms])))"
      using "1.IH" [OF "1.prems"(1) Retry] less "1.prems"(2,3) run by simp
    with run show ?thesis by simp
  qed
qed

lemma request_last_attempt:
  "Fetch MAX_ATTEMPTS \<in> set (snd (request fetch)) \<Longrightarrow>
     loopBody MAX_ATTEMPTS (fetch MAX_ATTEMPTS) = Finish (fst (request fetch))"
  unfolding request_def
  by (intro requestLoop_last_attempt) (simp_all add: MAX_ATTEMPTS_def)

text \<open>
  C4 (amended). In every iteration of the retry loop before the last, a rejected fetch
  (network error, timeout), a response of any status whose JSON body cannot be read,
  and an HTTP 429 or an HTTP status from 500 up make the client wait
  \<open>250 * 2 ^ (attempt - 1)\<close> ms and go on with the next attempt, and there are at most
  \<open>MAX_ATTEMPTS = 4\<close> fetches. An HTTP 401 whose body is not JSON or was read ends the
  call at once with the \<open>UNAUTHORIZED\<close> error, and such an HTTP 403 with the \<open>FORBIDDEN\<close>
  error: no wait and no fetch follows. A successful response whose body is not JSON or
  was read ends the call with its payload: no wait and no fetch follows. A run that
  meets 429 on attempts 1 to 3 and 200 on attempt 4 performs the fetches and the waits
  250, 500, 1000 in this order and returns the payload.
\<close>

theorem request_retry_policy:
  "(attempt < MAX_ATTEMPTS \<and>
      (fetch attempt = FetchRejects message \<or>
       fetch attempt = Response status (UnreadableBody message) \<or>
       fetch attempt = Response status body \<and> (status = 429 \<or> status \<ge> 500)) \<longrightarrow>
      requestLoop fetch attempt trace =
        requestLoop fetch (attempt + 1)
          (trace @ [Fetch attempt, Sleep (250 * 2 ^ (attempt - 1))])) \<and>
   (attempt \<le> MAX_ATTEMPTS \<and> fetch attempt = Response 401 body \<and> readBody body = Inr payload \<longrightarrow>
      requestLoop fetch attempt trace =
        (Inl (ClickUpApiError ''Invalid or revoked ClickUp token.'' (Some 401)
           (Some ''UNAUTHORIZED'')), trace @ [Fetch attempt])) \<and>
   (attempt \<le> MAX_ATTEMPTS \<and> fetch attempt = Response 403 body \<and> readBody body = Inr payload \<longrightarrow>
      requestLoop fetch attempt trace =
        (Inl (ClickUpApiError ''Token is valid but lacks required permissions for this scope.''
           (Some 403) (Some ''FORBIDDEN'')), trace @ [Fetch attempt])) \<and>
   (attempt \<le> MAX_ATTEMPTS \<and> fetch attempt = Response status body \<and>
      readBody body = Inr payload \<and> response_ok status \<longrightarrow>
      requestLoop fetch attempt trace = (Inr payload, trace @ [Fetch attempt])) \<and>
   (fetch 1 = Response 429 b1 \<and> fetch 2 = Response 429 b2 \<and> fetch 3 = Response 429 b3 \<and>
      fetch 4 = Response 200 b \<and> readBody b = Inr p \<longrightarrow>
      request fetch =
        (Inr p, [Fetch 1, Sleep 250, Fetch 2, Sleep 500, Fetch 3, Sleep 1000, Fetch 4])) \<and>
   length (filter isFetch (snd (request fetch))) \<le> MAX_ATTEMPTS \<and>
   MAX_ATTEMPTS = 4"
proof -
  have retry: "requestLoop fetch attempt trace =
        requestLoop fetch (attempt + 1)
          (trace @ [Fetch attempt, Sleep (250 * 2 ^ (attempt - 1))])"
    if "attempt < MAX_ATTEMPTS"
      "fetch attempt = FetchRejects message \<or>
       fetch attempt = Response status (UnreadableBody message) \<or>
       fetch attempt = Response status body \<and> (status = 429 \<or> status \<ge> 500)"
  proof -
    from that(2) have "retriable (fetch attempt)"
      using retriable_status [of status body] by auto
    with that(1) show ?thesis by (rule requestLoop_retry)
  qed
  have unauthorized: "attempt \<le> MAX_ATTEMPTS \<and> fetch attempt = Response 401 body \<and>
      readBody body = Inr payload \<longrightarrow>
      requestLoop fetch attempt trace =
        (Inl (ClickUpApiError ''Invalid or revoked ClickUp token.'' (Some 401)
           (Some ''UNAUTHORIZED'')), trace @ [Fetch attempt])"
    using requestLoop_finish [of attempt fetch _ trace] loopBody_401 [of body payload attempt]
    by simp
  have forbidden: "attempt \<le> MAX_ATTEMPTS \<and> fetch attempt = Response 403 body \<and>
      readBody body = Inr payload \<longrightarrow>
      requestLoop fetch attempt trace =
        (Inl (ClickUpApiError ''Token is valid but lacks required permissions for this scope.''
           (Some 403) (Some ''FORBIDDEN'')), trace @ [Fetch attempt])"
    using requestLoop_finish [of attempt fetch _ trace] loopBody_403 [of body payload attempt]
    by simp
  have success: "attempt \<le> MAX_ATTEMPTS \<and> fetch attempt = Response status body \<and>
      readBody body = Inr payload \<and> response_ok status \<longrightarrow>
      requestLoop fetch attempt trace = (Inr payload, trace @ [Fetch attempt])"
    using requestLoop_finish [of attempt fetch "Inr payload" trace]
      loopBody_ok [of status body payload attempt]
    by simp
  have scenario: "fetch 1 = Response 429 b1 \<and> fetch 2 = Response 429 b2 \<and>
      fetch 3 = Response 429 b3 \<and> fetch 4 = Response 200 b \<and> readBody b = Inr p \<longrightarrow>
      request fetch =
        (Inr p, [Fetch 1, Sleep 250, Fetch 2, Sleep 500, Fetch 3, Sleep 1000, Fetch 4])"
    using request_429_scenario by blast
  have bound: "length (filter isFetch (snd (request fetch))) \<le> MAX_ATTEMPTS"
    using requestLoop_fetch_count [of fetch 1 "[]"] by (simp add: request_def)
  show ?thesis
    apply (intro conjI)
    subgoal using retry by blast
    subgoal by (rule unauthorized)
    subgoal by (rule forbidden)
    subgoal by (rule success)
    subgoal by (rule scenario)
    subgoal by (rule bound)
    subgoal by (rule MAX_ATTEMPTS_def)
    done
qed

theorem request_retry_policy_witness:
  "fetch_429_then_200 1 = Response 429 NoJsonBody \<and>
   fetch_429_then_200 2 = Response 429 NoJsonBody \<and>
   fetch_429_then_200 3 = Response 429 NoJsonBody \<and>
   fetch_429_then_200 4 = Response 200 (JsonBody (JObj [])) \<and>
   request fetch_429_then_200 =
     (Inr (JObj []), [Fetch 1, Sleep 250, Fetch 2, Sleep 500, Fetch 3, Sleep 1000, Fetch 4]) \<and>
   fetch_unauthorized 1 =
     Response 401 (JsonBody (JObj [(''err'', JStr ''Token invalid''), (''ECODE'', JStr ''OAUTH_025'')])) \<and>
   request fetch_unauthorized =
     (Inl (ClickUpApiError ''Invalid or revoked ClickUp token.'' (Some 401)
        (Some ''UNAUTHORIZED'')), [Fetch 1]) \<and>
   fetch_forbidden_second 1 = FetchRejects ''fetch failed'' \<and>
   fetch_forbidden_second 2 = Response 403 NoJsonBody \<and>
   request fetch_forbidden_second =
     (Inl (ClickUpApiError ''Token is valid but lacks required permissions for this scope.''
        (Some 403) (Some ''FORBIDDEN'')), [Fetch 1, Sleep 250, Fetch 2]) \<and>
   fetch_401_cut_off 1 = Response 401 (UnreadableBody ''Unexpected end of JSON input'') \<and>
   requestLoop fetch_401_cut_off 1 [] = requestLoop fetch_401_cut_off 2 [Fetch 1, Sleep 250]"
proof -
  have outcomes: "fetch_429_then_200 1 = Response 429 NoJsonBody"
    "fetch_429_then_200 2 = Response 429 NoJsonBody"
    "fetch_429_then_200 3 = Response 429 NoJsonBody"
    "fetch_429_then_200 4 = Response 200 (JsonBody (JObj []))"
    "readBody (JsonBody (JObj [])) = Inr (JObj [])"
    by (simp_all add: fetch_429_then_200_def)
  from request_retry_policy [where fetch = fetch_429_then_200 and ?b1.0 = NoJsonBody
      and ?b2.0 = NoJsonBody and ?b3.0 = NoJsonBody and b = "JsonBody (JObj [])"
      and p = "JObj []"] outcomes
  have scenario: "request fetch_429_then_200 =
     (Inr (JObj []), [Fetch 1, Sleep 250, Fetch 2, Sleep 500, Fetch 3, Sleep 1000, Fetch 4])"
    by blast
  let ?refused = "JObj [(''err'', JStr ''Token invalid''), (''ECODE'', JStr ''OAUTH_025'')]"
  have first: "fetch_unauthorized 1 = Response 401 (JsonBody ?refused)"
    "readBody (JsonBody ?refused) = Inr ?refused" "(1::nat) \<le> MAX_ATTEMPTS"
    by (simp_all add: fetch_unauthorized_def MAX_ATTEMPTS_def)
  from request_retry_policy [where fetch = fetch_unauthorized and attempt = 1 and trace = "[]"
      and body = "JsonBody ?refused" and payload = ?refused] first
  have unauthorized: "request fetch_unauthorized =
     (Inl (ClickUpApiError ''Invalid or revoked ClickUp token.'' (Some 401)
        (Some ''UNAUTHORIZED'')), [Fetch 1])"
    by (simp add: request_def)
  have second: "fetch_forbidden_second 1 = FetchRejects ''fetch failed''"
    "fetch_forbidden_second 2 = Response 403 NoJsonBody" "readBody NoJsonBody = Inr JNull"
    "(1::nat) < MAX_ATTEMPTS" "(2::nat) \<le> MAX_ATTEMPTS"
    by (simp_all add: fetch_forbidden_second_def MAX_ATTEMPTS_def)
  from request_retry_policy [where fetch = fetch_forbidden_second and attempt = 1
      and trace = "[]" and message = "''fetch failed''"] second
  have step: "request fetch_forbidden_second =
      requestLoop fetch_forbidden_second 2 [Fetch 1, Sleep 250]"
    by (simp add: request_def numeral_2_eq_2)
  from request_retry_policy [where fetch = fetch_forbidden_second and attempt = 2
      and trace = "[Fetch 1, Sleep 250]" and body = NoJsonBody and payload = JNull] second
  have forbidden: "requestLoop fetch_forbidden_second 2 [Fetch 1, Sleep 250] =
     (Inl (ClickUpApiError ''Token is valid but lacks required permissions for this scope.''
        (Some 403) (Some ''FORBIDDEN'')), [Fetch 1, Sleep 250, Fetch 2])"
    by (simp add: numeral_2_eq_2)
  have cut: "fetch_401_cut_off 1 = Response 401 (UnreadableBody ''Unexpected end of JSON input'')"
    by (simp add: fetch_401_cut_off_def)
  from request_retry_policy [where fetch = fetch_401_cut_off and attempt = 1
      and trace = "[]" and status = 401 and message = "''Unexpected end of JSON input''"]
    cut second(4)
  have again: "requestLoop fetch_401_cut_off 1 [] =
      requestLoop fetch_401_cut_off 2 [Fetch 1, Sleep 250]"
    by (simp add: numeral_2_eq_2)
  from step forbidden outcomes scenario first unauthorized second cut again
  show ?thesis by simp
qed

text \<open>The unamended statement of C4 does not hold for an HTTP 401 whose JSON body cannot
  be read: the body is read before the status is tested, the failure of the read
  counts as a network error, and the client waits and retries three times before it
  fails with the network error, which has no \<open>UNAUTHORIZED\<close> code.\<close>

theorem request_401_cut_off_counterexample:
  "fetch_401_cut_off 1 = Response 401 (UnreadableBody ''Unexpected end of JSON input'') \<and>
   request fetch_401_cut_off =
     (Inl (ClickUpApiError ''Network error while contacting ClickUp API.'' None None),
      [Fetch 1, Sleep 250, Fetch 2, Sleep 500, Fetch 3, Sleep 1000, Fetch 4])"
  by (simp add: request_def requestLoop.simps loopBody_def catchBlock_def
      fetch_401_cut_off_def MAX_ATTEMPTS_def)

text \<open>
  C8 (amended). A call of \<open>request\<close> in which all 4 attempts complete without a
  successful response fails with the error of the fourth attempt. When the fourth fetch
  is rejected or the JSON body of the fourth response cannot be read, this is the
  \<open>Network error while contacting ClickUp API.\<close> error, without status. When the body
  of the fourth response is not JSON or was read, it is the \<open>UNAUTHORIZED\<close> or
  \<open>FORBIDDEN\<close> error on 401 or 403, and otherwise a \<open>ClickUpApiError\<close> with the HTTP
  status whose message is the field \<open>err\<close> of the payload when that is a string, else
  the field \<open>message\<close> when that is a string, else \<open>ClickUp API request failed (status)\<close>.
  No call ever fails with the error \<open>Unexpected API error.\<close>: the statement after the
  loop is not reached.
\<close>

theorem request_exhausted:
  "fst (request fetch) \<noteq> Inl (ClickUpApiError ''Unexpected API error.'' None None) \<and>
   (Fetch MAX_ATTEMPTS \<in> set (snd (request fetch)) \<longrightarrow>
      (\<forall>message. fetch MAX_ATTEMPTS = FetchRejects message \<longrightarrow>
         fst (request fetch) =
           Inl (ClickUpApiError ''Network error while contacting ClickUp API.'' None None)) \<and>
      (\<forall>status message. fetch MAX_ATTEMPTS = Response status (UnreadableBody message) \<longrightarrow>
         fst (request fetch) =
           Inl (ClickUpApiError ''Network error while contacting ClickUp API.'' None None)) \<and>
      (\<forall>status body payload.
         fetch MAX_ATTEMPTS = Response status body \<and>
         (body = NoJsonBody \<and> payload = JNull \<or> body = JsonBody payload) \<longrightarrow>
         fst (request fetch) =
           (if response_ok status then Inr payload
            else if status = 401 then
              Inl (ClickUpApiError ''Invalid or revoked ClickUp token.'' (Some 401)
                (Some ''UNAUTHORIZED''))
            else if status = 403 then
              Inl (ClickUpApiError
                ''Token is valid but lacks required permissions for this scope.'' (Some 403)
                (Some ''FORBIDDEN''))
            else
              Inl (ClickUpApiError
                (case field payload ''err'' of
                   Some (JStr err) \<Rightarrow> err
                 | _ \<Rightarrow>
                     (case field payload ''message'' of
                        Some (JStr message) \<Rightarrow> message
                      | _ \<Rightarrow> ''ClickUp API request failed ('' @ showNat status @ '')''))
                (Some status) None))))"
proof -
  have never: "fst (request fetch) \<noteq> Inl (ClickUpApiError ''Unexpected API error.'' None None)"
    unfolding request_def by (rule requestLoop_not_unexpected) (simp add: MAX_ATTEMPTS_def)
  show ?thesis
  proof (intro conjI impI allI)
    show "fst (request fetch) \<noteq> Inl (ClickUpApiError ''Unexpected API error.'' None None)"
      by (rule never)
  next
    fix message
    assume "Fetch MAX_ATTEMPTS \<in> set (snd (request fetch))"
      and "fetch MAX_ATTEMPTS = FetchRejects message"
    then have "Finish (fst (request fetch)) =
        Finish (Inl (ClickUpApiError ''Network error while contacting ClickUp API.'' None None))"
      using request_last_attempt [of fetch] loopBody_last_rejects [of message] by simp
    then show "fst (request fetch) =
        Inl (ClickUpApiError ''Network error while contacting ClickUp API.'' None None)"
      by (simp only: attempt_result.inject)
  next
    fix status message
    assume "Fetch MAX_ATTEMPTS \<in> set (snd (request fetch))"
      and "fetch MAX_ATTEMPTS = Response status (UnreadableBody message)"
    then have "Finish (fst (request fetch)) =
        Finish (Inl (ClickUpApiError ''Network error while contacting ClickUp API.'' None None))"
      using request_last_attempt [of fetch] loopBody_last_unreadable [of status message] by simp
    then show "fst (request fetch) =
        Inl (ClickUpApiError ''Network error while contacting ClickUp API.'' None None)"
      by (simp only: attempt_result.inject)
  next
    fix status body payload
    assume fourth: "Fetch MAX_ATTEMPTS \<in> set (snd (request fetch))"
      and "fetch MAX_ATTEMPTS = Response status body \<and>
         (body = NoJsonBody \<and> payload = JNull \<or> body = JsonBody payload)"
    then have response: "fetch MAX_ATTEMPTS = Response status body"
      and read: "readBody body = Inr payload"
      by auto
    from fourth response
    have "loopBody MAX_ATTEMPTS (Response status body) = Finish (fst (request fetch))"
      using request_last_attempt [of fetch] by simp
    then show "fst (request fetch) =
           (if response_ok status then Inr payload
            else if status = 401 then
              Inl (ClickUpApiError ''Invalid or revoked ClickUp token.'' (Some 401)
                (Some ''UNAUTHORIZED''))
            else if status = 403 then
              Inl (ClickUpApiError
                ''Token is valid but lacks required permissions for this scope.'' (Some 403)
                (Some ''FORBIDDEN''))
            else
              Inl (ClickUpApiError
                (case field payload ''err'' of
                   Some (JStr err) \<Rightarrow> err
                 | _ \<Rightarrow>
                     (case field payload ''message'' of
                        Some (JStr message) \<Rightarrow> message
                      | _ \<Rightarrow> ''ClickUp API request failed ('' @ showNat status @ '')''))
                (Some status) None))"
      unfolding loopBody_last_response [OF read] by (simp only: attempt_result.inject)
  qed
qed

lemma exhausted_trace:
  "retriable (fetch 1) \<Longrightarrow> retriable (fetch 2) \<Longrightarrow> retriable (fetch 3) \<Longrightarrow>
     Fetch MAX_ATTEMPTS \<in> set (snd (request fetch))"
proof -
  assume r: "retriable (fetch 1)" "retriable (fetch 2)" "retriable (fetch 3)"
  obtain result where "loopBody 4 (fetch 4) = Finish result"
    using loopBody_Retry_less [of 4 "fetch 4"]
    by (cases "loopBody 4 (fetch 4)") (auto simp: MAX_ATTEMPTS_def)
  with r have "request fetch =
      (result, [Fetch 1, Sleep 250, Fetch 2, Sleep 500, Fetch 3, Sleep 1000, Fetch 4])"
    by (rule request_fourth)
  then show ?thesis by (simp add: MAX_ATTEMPTS_def)
qed

theorem request_exhausted_witness:
  "Fetch MAX_ATTEMPTS \<in> set (snd (request fetch_always_500)) \<and>
   fetch_always_500 MAX_ATTEMPTS = Response 500 NoJsonBody \<and>
   fst (request fetch_always_500) =
     Inl (ClickUpApiError ''ClickUp API request failed (500)'' (Some 500) None) \<and>
   Fetch MAX_ATTEMPTS \<in> set (snd (request fetch_rate_limited)) \<and>
   fetch_rate_limited MAX_ATTEMPTS =
     Response 429 (JsonBody (JObj [(''err'', JStr ''Rate limit reached''), (''ECODE'', JStr ''APP_002'')])) \<and>
   fst (request fetch_rate_limited) =
     Inl (ClickUpApiError ''Rate limit reached'' (Some 429) None) \<and>
   Fetch MAX_ATTEMPTS \<in> set (snd (request fetch_unavailable)) \<and>
   fetch_unavailable MAX_ATTEMPTS =
     Response 503 (JsonBody (JObj [(''message'', JStr ''Service unavailable'')])) \<and>
   fst (request fetch_unavailable) =
     Inl (ClickUpApiError ''Service unavailable'' (Some 503) None) \<and>
   Fetch MAX_ATTEMPTS \<in> set (snd (request fetch_offline)) \<and>
   fetch_offline MAX_ATTEMPTS = FetchRejects ''fetch failed'' \<and>
   fst (request fetch_offline) =
     Inl (ClickUpApiError ''Network error while contacting ClickUp API.'' None None) \<and>
   Fetch MAX_ATTEMPTS \<in> set (snd (request fetch_401_cut_off)) \<and>
   fetch_401_cut_off MAX_ATTEMPTS = Response 401 (UnreadableBody ''Unexpected end of JSON input'') \<and>
   fst (request fetch_401_cut_off) =
     Inl (ClickUpApiError ''Network error while contacting ClickUp API.'' None None)"
proof -
  let ?limit = "JObj [(''err'', JStr ''Rate limit reached''), (''ECODE'', JStr ''APP_002'')]"
  let ?down = "JObj [(''message'', JStr ''Service unavailable'')]"
  have fourth: "Fetch MAX_ATTEMPTS \<in> set (snd (request fetch_always_500))"
    "Fetch MAX_ATTEMPTS \<in> set (snd (request fetch_rate_limited))"
    "Fetch MAX_ATTEMPTS \<in> set (snd (request fetch_unavailable))"
    "Fetch MAX_ATTEMPTS \<in> set (snd (request fetch_offline))"
    "Fetch MAX_ATTEMPTS \<in> set (snd (request fetch_401_cut_off))"
    by (rule exhausted_trace;
        simp add: fetch_always_500_def fetch_rate_limited_def fetch_unavailable_def
          fetch_offline_def fetch_401_cut_off_def)+
  have last: "fetch_always_500 MAX_ATTEMPTS = Response 500 NoJsonBody"
    "fetch_rate_limited MAX_ATTEMPTS = Response 429 (JsonBody ?limit)"
    "fetch_unavailable MAX_ATTEMPTS = Response 503 (JsonBody ?down)"
    "fetch_offline MAX_ATTEMPTS = FetchRejects ''fetch failed''"
    "fetch_401_cut_off MAX_ATTEMPTS = Response 401 (UnreadableBody ''Unexpected end of JSON input'')"
    by (simp_all add: fetch_always_500_def fetch_rate_limited_def fetch_unavailable_def
        fetch_offline_def fetch_401_cut_off_def)
  have printed: "showNat 500 = ''500''"
    by (simp add: showNat.simps)
  from request_exhausted [of fetch_always_500] fourth(1) last(1)
  have "fst (request fetch_always_500) =
      (if response_ok 500 then Inr JNull
       else if (500::nat) = 401 then
         Inl (ClickUpApiError ''Invalid or revoked ClickUp token.'' (Some 401)
           (Some ''UNAUTHORIZED''))
       else if (500::nat) = 403 then
         Inl (ClickUpApiError
           ''Token is valid but lacks required permissions for this scope.'' (Some 403)
           (Some ''FORBIDDEN''))
       else
         Inl (ClickUpApiError
           (case field JNull ''err'' of
              Some (JStr err) \<Rightarrow> err
            | _ \<Rightarrow>
                (case field JNull ''message'' of
                   Some (JStr message) \<Rightarrow> message
                 | _ \<Rightarrow> ''ClickUp API request failed ('' @ showNat 500 @ '')''))
           (Some 500) None))"
    by blast
  then have server: "fst (request fetch_always_500) =
     Inl (ClickUpApiError ''ClickUp API request failed (500)'' (Some 500) None)"
    by (simp add: response_ok_def printed)
  from request_exhausted [of fetch_rate_limited] fourth(2) last(2)
  have "fst (request fetch_rate_limited) =
      (if response_ok 429 then Inr ?limit
       else if (429::nat) = 401 then
         Inl (ClickUpApiError ''Invalid or revoked ClickUp token.'' (Some 401)
           (Some ''UNAUTHORIZED''))
       else if (429::nat) = 403 then
         Inl (ClickUpApiError
           ''Token is valid but lacks required permissions for this scope.'' (Some 403)
           (Some ''FORBIDDEN''))
       else
         Inl (ClickUpApiError
           (case field ?limit ''err'' of
              Some (JStr err) \<Rightarrow> err
            | _ \<Rightarrow>
                (case field ?limit ''message'' of
                   Some (JStr message) \<Rightarrow> message
                 | _ \<Rightarrow> ''ClickUp API request failed ('' @ showNat 429 @ '')''))
           (Some 429) None))"
    by blast
  then have limited: "fst (request fetch_rate_limited) =
     Inl (ClickUpApiError ''Rate limit reached'' (Some 429) None)"
    by (simp add: response_ok_def)
  from request_exhausted [of fetch_unavailable] fourth(3) last(3)
  have "fst (request fetch_unavailable) =
      (if response_ok 503 then Inr ?down
       else if (503::nat) = 401 then
         Inl (ClickUpApiError ''Invalid or revoked ClickUp token.'' (Some 401)
           (Some ''UNAUTHORIZED''))
       else if (503::nat) = 403 then
         Inl (ClickUpApiError
           ''Token is valid but lacks required permissions for this scope.'' (Some 403)
           (Some ''FORBIDDEN''))
       else
         Inl (ClickUpApiError
           (case field ?down ''err'' of
              Some (JStr err) \<Rightarrow> err
            | _ \<Rightarrow>
                (case field ?down ''message'' of
                   Some (JStr message) \<Rightarrow> message
                 | _ \<Rightarrow> ''ClickUp API request failed ('' @ showNat 503 @ '')''))
           (Some 503) None))"
    by blast
  then have down: "fst (request fetch_unavailable) =
     Inl (ClickUpApiError ''Service unavailable'' (Some 503) None)"
    by (simp add: response_ok_def)
  from request_exhausted [of fetch_offline] fourth(4) last(4)
  have offline: "fst (request fetch_offline) =
     Inl (ClickUpApiError ''Network error while contacting ClickUp API.'' None None)"
    by blast
  from request_exhausted [of fetch_401_cut_off] fourth(5) last(5)
  have cut: "fst (request fetch_401_cut_off) =
     Inl (ClickUpApiError ''Network error while contacting ClickUp API.'' None None)"
    by blast
  from fourth last server limited down offline cut show ?thesis by simp
qed

text \<open>The unamended statement of C8 does not hold: with HTTP 500 on all four attempts the
  call fails with the error built from the fourth response, which is not the
  \<open>Unexpected API error.\<close> error.\<close>

theorem request_exhausted_counterexample:
  "snd (request fetch_always_500) =
     [Fetch 1, Sleep 250, Fetch 2, Sleep 500, Fetch 3, Sleep 1000, Fetch 4] \<and>
   fst (request fetch_always_500) =
     Inl (ClickUpApiError ''ClickUp API request failed (500)'' (Some 500) None) \<and>
   ClickUpApiError ''ClickUp API request failed (500)'' (Some 500) None \<noteq>
     ClickUpApiError ''Unexpected API error.'' None None"
  by (simp add: request_def requestLoop.simps loopBody_def catchBlock_def
      fetch_always_500_def response_ok_def MAX_ATTEMPTS_def normalizeErrorMessage_def
      showNat.simps)

section \<open>Properties of the time-entry fetch\<close>

declare scanPages.simps [simp del]

lemma parseDurationMs_nonneg: "0 \<le> parseDurationMs h d"
  by (induction h d rule: parseDurationMs.induct) (auto split: option.splits)

lemma addRawEntry_ok: "collected_ok h acc \<Longrightarrow> collected_ok h (addRawEntry h acc item)"
  by (auto simp: collected_ok_def addRawEntry_def Let_def entryFrom_def)

lemma addRawEntry_mono: "set (snd acc) \<subseteq> set (snd (addRawEntry h acc item))"
  by (auto simp: addRawEntry_def Let_def)

lemma addRawEntry_seen:
  "isObject item \<Longrightarrow> entryIdentity h item \<in> set (snd (addRawEntry h acc item))"
  by (auto simp: addRawEntry_def Let_def)

lemma foldl_addRawEntry_ok:
  "collected_ok h acc \<Longrightarrow> collected_ok h (foldl (addRawEntry h) acc items)"
  by (induction items arbitrary: acc) (simp_all add: addRawEntry_ok)

lemma foldl_addRawEntry_mono:
  "set (snd acc) \<subseteq> set (snd (foldl (addRawEntry h) acc items))"
proof (induction items arbitrary: acc)
  case Nil
  show ?case by simp
next
  case (Cons item items)
  show ?case
    using addRawEntry_mono [of acc h item] Cons.IH [of "addRawEntry h acc item"] by auto
qed

lemma foldl_addRawEntry_seen:
  "item \<in> set items \<Longrightarrow> isObject item \<Longrightarrow>
     entryIdentity h item \<in> set (snd (foldl (addRawEntry h) acc items))"
proof (induction items arbitrary: acc)
  case Nil
  then show ?case by simp
next
  case (Cons x items)
  show ?case
  proof (cases "item = x")
    case True
    then show ?thesis
      using addRawEntry_seen [OF Cons.prems(2), of h acc]
        foldl_addRawEntry_mono [of "addRawEntry h acc x" h items]
      by auto
  next
    case False
    then show ?thesis using Cons by simp
  qed
qed

text \<open>One step of the scan loop, by the branch it takes.\<close>

lemma scanPages_done:
  "\<not> guard < 200 \<Longrightarrow>
     scanPages h respond params a offset guard page cursor acc xs = (Inr acc, xs)"
  by (subst scanPages.simps) simp

lemma scanPages_error:
  "guard < 200 \<Longrightarrow>
   respond (offset + length xs) (pageRequest params a page cursor) = Inl err \<Longrightarrow>
     scanPages h respond params a offset guard page cursor acc xs =
       (Inl err, xs @ [(pageRequest params a page cursor, Inl err)])"
  by (subst scanPages.simps) (simp add: Let_def)

lemma scanPages_null:
  "guard < 200 \<Longrightarrow>
   respond (offset + length xs) (pageRequest params a page cursor) = Inr JNull \<Longrightarrow>
     scanPages h respond params a offset guard page cursor acc xs =
       (Inl (OtherError ''Cannot read properties of null (reading 'data')''),
        xs @ [(pageRequest params a page cursor, Inr JNull)])"
  by (subst scanPages.simps) (simp add: Let_def)

lemma scanPages_cursor:
  "guard < 200 \<Longrightarrow>
   respond (offset + length xs) (pageRequest params a page cursor) = Inr payload \<Longrightarrow>
   payload \<noteq> JNull \<Longrightarrow> nextPagination payload page = FollowCursor c \<Longrightarrow>
     scanPages h respond params a offset guard page cursor acc xs =
       scanPages h respond params a offset (guard + 1) page (Some c)
         (foldl (addRawEntry h) acc (rawEntries payload))
         (xs @ [(pageRequest params a page cursor, Inr payload)])"
  by (subst scanPages.simps) (simp add: Let_def)

lemma scanPages_page:
  "guard < 200 \<Longrightarrow>
   respond (offset + length xs) (pageRequest params a page cursor) = Inr payload \<Longrightarrow>
   payload \<noteq> JNull \<Longrightarrow> nextPagination payload page = GoToPage p \<Longrightarrow>
     scanPages h respond params a offset guard page cursor acc xs =
       scanPages h respond params a offset (guard + 1) p cursor
         (foldl (addRawEntry h) acc (rawEntries payload))
         (xs @ [(pageRequest params a page cursor, Inr payload)])"
  by (subst scanPages.simps) (simp add: Let_def)

lemma scanPages_stop:
  "guard < 200 \<Longrightarrow>
   respond (offset + length xs) (pageRequest params a page cursor) = Inr payload \<Longrightarrow>
   payload \<noteq> JNull \<Longrightarrow> nextPagination payload page = StopScan \<Longrightarrow>
     scanPages h respond params a offset guard page cursor acc xs =
       (Inr (foldl (addRawEntry h) acc (rawEntries payload)),
        xs @ [(pageRequest params a page cursor, Inr payload)])"
  by (subst scanPages.simps) (simp add: Let_def)

text \<open>A property of \<open>entries\<close>, \<open>seenIds\<close> and the exchanges that every processed payload
  preserves holds when the scan ends normally.\<close>

lemma scanPages_invariant:
  assumes step: "\<And>acc xs page cursor payload.
      I acc xs \<Longrightarrow> payload \<noteq> JNull \<Longrightarrow>
      I (foldl (addRawEntry h) acc (rawEntries payload))
        (xs @ [(pageRequest params a page cursor, Inr payload)])"
  shows "I acc xs \<Longrightarrow>
    scanPages h respond params a offset guard page cursor acc xs = (Inr acc', xs') \<Longrightarrow>
    I acc' xs'"
proof (induction n \<equiv> "200 - guard" arbitrary: guard page cursor acc xs)
  case 0
  then have "\<not> guard < 200" by simp
  from scanPages_done [OF this] "0.prems" show ?case by simp
next
  case (Suc n)
  then have less: "guard < 200" and n: "n = 200 - (guard + 1)" by simp_all
  let ?req = "pageRequest params a page cursor"
  show ?case
  proof (cases "respond (offset + length xs) ?req")
    case (Inl err)
    from scanPages_error [where respond = respond and offset = offset and xs = xs, OF less Inl] Suc.prems(2) show ?thesis by simp
  next
    case (Inr payload)
    show ?thesis
    proof (cases "payload = JNull")
      case True
      with scanPages_null [where respond = respond and offset = offset and xs = xs, OF less] Inr Suc.prems(2) show ?thesis by simp
    next
      case False
      let ?acc = "foldl (addRawEntry h) acc (rawEntries payload)"
      let ?xs = "xs @ [(?req, Inr payload)]"
      have inv: "I ?acc ?xs" using step Suc.prems(1) False by blast
      show ?thesis
      proof (cases "nextPagination payload page")
        case (FollowCursor c)
        from scanPages_cursor [where respond = respond and offset = offset and xs = xs, OF less Inr False FollowCursor] Suc.prems(2)
        have "scanPages h respond params a offset (guard + 1) page (Some c) ?acc ?xs =
            (Inr acc', xs')" by simp
        from Suc.hyps(1) [OF n inv this] show ?thesis .
      next
        case (GoToPage p)
        from scanPages_page [where respond = respond and offset = offset and xs = xs, OF less Inr False GoToPage] Suc.prems(2)
        have "scanPages h respond params a offset (guard + 1) p cursor ?acc ?xs =
            (Inr acc', xs')" by simp
        from Suc.hyps(1) [OF n inv this] show ?thesis .
      next
        case StopScan
        from scanPages_stop [where respond = respond and offset = offset and xs = xs, OF less Inr False StopScan] Suc.prems(2) inv
        show ?thesis by simp
      qed
    qed
  qed
qed

text \<open>The number of exchanges of a scan: it never shrinks, and it grows by at most
  \<open>200 - guard\<close>.\<close>

lemma scanPages_length:
  "length (snd (scanPages h respond params a offset guard page cursor acc xs)) \<le>
     length xs + (200 - guard) \<and>
   length xs \<le> length (snd (scanPages h respond params a offset guard page cursor acc xs))"
proof (induction n \<equiv> "200 - guard" arbitrary: guard page cursor acc xs)
  case 0
  then have "\<not> guard < 200" by simp
  from scanPages_done [OF this] show ?case by simp
next
  case (Suc n)
  then have less: "guard < 200" and n: "n = 200 - (guard + 1)" by simp_all
  let ?req = "pageRequest params a page cursor"
  let ?acc = "\<lambda>payload. foldl (addRawEntry h) acc (rawEntries payload)"
  let ?xs = "\<lambda>payload. xs @ [(?req, Inr payload)]"
  show ?case
  proof (cases "respond (offset + length xs) ?req")
    case (Inl err)
    from scanPages_error [where respond = respond and offset = offset and xs = xs, OF less Inl] less
    show ?thesis by simp
  next
    case (Inr payload)
    show ?thesis
    proof (cases "payload = JNull")
      case True
      with scanPages_null [where respond = respond and offset = offset and xs = xs, OF less] Inr less
      show ?thesis by simp
    next
      case False
      show ?thesis
      proof (cases "nextPagination payload page")
        case (FollowCursor c)
        have eq: "scanPages h respond params a offset guard page cursor acc xs =
            scanPages h respond params a offset (guard + 1) page (Some c) (?acc payload)
              (?xs payload)"
          by (rule scanPages_cursor [where respond = respond and offset = offset and xs = xs, OF less Inr False FollowCursor])
        have "length (snd (scanPages h respond params a offset (guard + 1) page (Some c)
              (?acc payload) (?xs payload))) \<le> length (?xs payload) + (200 - (guard + 1)) \<and>
            length (?xs payload) \<le> length (snd (scanPages h respond params a offset (guard + 1)
              page (Some c) (?acc payload) (?xs payload)))"
          by (rule Suc.hyps(1) [OF n])
        then show ?thesis unfolding eq using less by (simp; arith)
      next
        case (GoToPage p)
        have eq: "scanPages h respond params a offset guard page cursor acc xs =
            scanPages h respond params a offset (guard + 1) p cursor (?acc payload)
              (?xs payload)"
          by (rule scanPages_page [where respond = respond and offset = offset and xs = xs, OF less Inr False GoToPage])
        have "length (snd (scanPages h respond params a offset (guard + 1) p cursor
              (?acc payload) (?xs payload))) \<le> length (?xs payload) + (200 - (guard + 1)) \<and>
            length (?xs payload) \<le> length (snd (scanPages h respond params a offset (guard + 1)
              p cursor (?acc payload) (?xs payload)))"
          by (rule Suc.hyps(1) [OF n])
        then show ?thesis unfolding eq using less by (simp; arith)
      next
        case StopScan
        from scanPages_stop [where respond = respond and offset = offset and xs = xs, OF less Inr False StopScan] less
        show ?thesis by simp
      qed
    qed
  qed
qed

lemma scanPages_first:
  "guard < 200 \<Longrightarrow>
     length xs < length (snd (scanPages h respond params a offset guard page cursor acc xs))"
proof -
  assume less: "guard < 200"
  let ?req = "pageRequest params a page cursor"
  let ?acc = "\<lambda>payload. foldl (addRawEntry h) acc (rawEntries payload)"
  let ?xs = "\<lambda>payload. xs @ [(?req, Inr payload)]"
  show ?thesis
  proof (cases "respond (offset + length xs) ?req")
    case (Inl err)
    from scanPages_error [where respond = respond and offset = offset and xs = xs, OF less Inl]
    show ?thesis by simp
  next
    case (Inr payload)
    show ?thesis
    proof (cases "payload = JNull")
      case True
      with scanPages_null [where respond = respond and offset = offset and xs = xs, OF less] Inr
      show ?thesis by simp
    next
      case False
      show ?thesis
      proof (cases "nextPagination payload page")
        case (FollowCursor c)
        have eq: "scanPages h respond params a offset guard page cursor acc xs =
            scanPages h respond params a offset (guard + 1) page (Some c) (?acc payload)
              (?xs payload)"
          by (rule scanPages_cursor [where respond = respond and offset = offset and xs = xs, OF less Inr False FollowCursor])
        show ?thesis unfolding eq
          using scanPages_length [where xs = "?xs payload" and guard = "guard + 1"
              and cursor = "Some c" and page = page and acc = "?acc payload" and h = h
              and respond = respond and params = params and a = a and offset = offset]
          by simp
      next
        case (GoToPage p)
        have eq: "scanPages h respond params a offset guard page cursor acc xs =
            scanPages h respond params a offset (guard + 1) p cursor (?acc payload)
              (?xs payload)"
          by (rule scanPages_page [where respond = respond and offset = offset and xs = xs, OF less Inr False GoToPage])
        show ?thesis unfolding eq
          using scanPages_length [where xs = "?xs payload" and guard = "guard + 1"
              and cursor = cursor and page = p and acc = "?acc payload" and h = h
              and respond = respond and params = params and a = a and offset = offset]
          by simp
      next
        case StopScan
        from scanPages_stop [where respond = respond and offset = offset and xs = xs, OF less Inr False StopScan]
        show ?thesis by simp
      qed
    qed
  qed
qed

lemma covered_mono: "set seen \<subseteq> set seen' \<Longrightarrow> covered h seen xs \<Longrightarrow> covered h seen' xs"
  unfolding covered_def by blast

lemma covered_Nil: "covered h seen []"
  by (simp add: covered_def)

lemma covered_snoc:
  "covered h seen (xs @ [(req, Inr payload)]) \<longleftrightarrow>
     covered h seen xs \<and>
     (\<forall>item \<in> set (rawEntries payload). isObject item \<longrightarrow> entryIdentity h item \<in> set seen)"
  unfolding covered_def by auto

lemma q_assignee_pageRequest: "q_assignee (req_query (pageRequest params a page cursor)) = a"
  by (simp add: pageRequest_def)

lemma scanPages_collects:
  assumes ok: "collected_ok h acc" and cov: "covered h (snd acc) xs"
    and asg: "\<forall>(req, resp) \<in> set xs. q_assignee (req_query req) = a"
    and run: "scanPages h respond params a offset guard page cursor acc xs = (Inr acc', xs')"
  shows "collected_ok h acc' \<and> set (snd acc) \<subseteq> set (snd acc') \<and> covered h (snd acc') xs' \<and>
    (\<forall>(req, resp) \<in> set xs'. q_assignee (req_query req) = a)"
proof -
  define I where "I = (\<lambda>c ys. collected_ok h c \<and> set (snd acc) \<subseteq> set (snd c) \<and>
      covered h (snd c) ys \<and> (\<forall>(req, resp) \<in> set ys. q_assignee (req_query req) = a))"
  have step: "I (foldl (addRawEntry h) c (rawEntries payload))
      (ys @ [(pageRequest params a pg cur, Inr payload)])"
    if "I c ys" "payload \<noteq> JNull" for c ys pg cur payload
  proof -
    let ?c = "foldl (addRawEntry h) c (rawEntries payload)"
    have mono: "set (snd c) \<subseteq> set (snd ?c)" by (rule foldl_addRawEntry_mono)
    have "collected_ok h ?c" using that(1) by (simp add: I_def foldl_addRawEntry_ok)
    moreover have "set (snd acc) \<subseteq> set (snd ?c)" using that(1) mono by (auto simp: I_def)
    moreover have "covered h (snd ?c) (ys @ [(pageRequest params a pg cur, Inr payload)])"
      unfolding covered_snoc
      using that(1) covered_mono [OF mono] foldl_addRawEntry_seen [of _ "rawEntries payload" h c]
      by (auto simp: I_def)
    moreover have "\<forall>(req, resp) \<in> set (ys @ [(pageRequest params a pg cur, Inr payload)]).
        q_assignee (req_query req) = a"
      using that(1) by (auto simp: I_def q_assignee_pageRequest)
    ultimately show ?thesis by (simp add: I_def)
  qed
  have "I acc xs" using ok cov asg by (simp add: I_def)
  from scanPages_invariant [of I h params a, OF step this run]
  show ?thesis by (simp add: I_def)
qed

lemma scanAll_collects:
  "collected_ok h acc \<Longrightarrow> \<forall>s \<in> set scans. covered h (snd acc) (snd s) \<and> scan_ok s \<Longrightarrow>
   scanAll h respond params vals acc scans = (Inr entries, scans') \<Longrightarrow>
     distinct (map entry_id entries) \<and> (\<forall>e \<in> set entries. entryFrom h e) \<and>
     (\<forall>s \<in> set scans'. covered h (map entry_id entries) (snd s) \<and> scan_ok s) \<and>
     map fst scans' = map fst scans @ map assigneeValueOf vals"
proof (induction vals arbitrary: acc scans)
  case Nil
  then show ?case by (auto simp: collected_ok_def)
next
  case (Cons v vals)
  let ?a = "assigneeValueOf v"
  let ?offset = "length (concat (map snd scans))"
  obtain r xs where scan: "scanPages h respond params ?a ?offset 0 0 None acc [] = (r, xs)"
    by (cases "scanPages h respond params ?a ?offset 0 0 None acc []") auto
  show ?case
  proof (cases r)
    case (Inl err)
    with scan Cons.prems(3) show ?thesis by (simp add: Let_def)
  next
    case (Inr acc')
    have run: "scanAll h respond params vals acc' (scans @ [(?a, xs)]) = (Inr entries, scans')"
      using scan Inr Cons.prems(3) by (simp add: Let_def)
    have facts: "collected_ok h acc' \<and> set (snd acc) \<subseteq> set (snd acc') \<and>
        covered h (snd acc') xs \<and> (\<forall>(req, resp) \<in> set xs. q_assignee (req_query req) = ?a)"
      using scanPages_collects [OF Cons.prems(1) covered_Nil _ scan [unfolded Inr]] by simp
    have len: "xs \<noteq> [] \<and> length xs \<le> 200"
      using scanPages_first [of 0 "[]" h respond params ?a ?offset 0 None acc]
        scanPages_length [of h respond params ?a ?offset 0 0 None acc "[]"] scan
      by auto
    have "\<forall>s \<in> set (scans @ [(?a, xs)]). covered h (snd acc') (snd s) \<and> scan_ok s"
      using Cons.prems(2) facts len covered_mono [of "snd acc" "snd acc'" h]
      by (auto simp: scan_ok_def)
    from Cons.IH [OF _ this run] facts show ?thesis by simp
  qed
qed

lemma scanAll_bound:
  "\<forall>s \<in> set scans. length (snd s) \<le> 200 \<Longrightarrow>
     (\<forall>s \<in> set (snd (scanAll h respond params vals acc scans)). length (snd s) \<le> 200) \<and>
     prefix (map fst (snd (scanAll h respond params vals acc scans)))
       (map fst scans @ map assigneeValueOf vals)"
proof (induction vals arbitrary: acc scans)
  case Nil
  then show ?case by simp
next
  case (Cons v vals)
  let ?a = "assigneeValueOf v"
  let ?offset = "length (concat (map snd scans))"
  obtain r xs where scan: "scanPages h respond params ?a ?offset 0 0 None acc [] = (r, xs)"
    by (cases "scanPages h respond params ?a ?offset 0 0 None acc []") auto
  have len: "length xs \<le> 200"
    using scanPages_length [of h respond params ?a ?offset 0 0 None acc "[]"] scan by auto
  show ?case
  proof (cases r)
    case (Inl err)
    with scan Cons.prems len show ?thesis by (auto simp: Let_def)
  next
    case (Inr acc')
    have "\<forall>s \<in> set (scans @ [(?a, xs)]). length (snd s) \<le> 200"
      using Cons.prems len by auto
    from Cons.IH [OF this, of acc'] scan Inr show ?thesis by (simp add: Let_def)
  qed
qed

text \<open>The example run.\<close>

lemma values_example:
  "buildAssigneeQueryValues (p_assigneeIds params_example) =
     [''7'', ASSIGNEE_QUERY_UNASSIGNED, ASSIGNEE_QUERY_NONE]"
  by (simp add: buildAssigneeQueryValues_def params_example_def newSet_def trim_def
      isWhiteSpace_def)

lemma assigneeValueOf_simps:
  "assigneeValueOf ''7'' = Some ''7''"
  "assigneeValueOf ASSIGNEE_QUERY_UNASSIGNED = Some ''0''"
  "assigneeValueOf ASSIGNEE_QUERY_NONE = None"
  by (simp_all add: assigneeValueOf_def ASSIGNEE_QUERY_UNASSIGNED_def ASSIGNEE_QUERY_NONE_def)

lemma showNat_digits: "showNat 7 = ''7''" "showNat 0 = ''0''" "showNat 1800000 = ''1800000''"
  by (simp_all add: showNat.simps)

lemma identity_e1: "entryIdentity host_example raw_e1 = ''e1''"
  by (simp add: entryIdentity_def raw_e1_def)

lemma identity_e2: "entryIdentity host_example raw_e2 = ''t2:7:0:0:1800000''"
  by (simp add: entryIdentity_def raw_e2_def getStableFallbackEntryId_def extractTaskId_def
      rawUserId_def host_example_def showNat_digits)

lemma entry_e1:
  "addRawEntry host_example ([], []) raw_e1 = ([entries_example ! 0], [''e1''])"
  by (simp add: addRawEntry_def identity_e1 entries_example_def Let_def)
     (simp add: raw_e1_def extractTaskId_def rawUserId_def host_example_def showNat_digits)

lemma entry_e1_again:
  "addRawEntry host_example ([entries_example ! 0], [''e1'']) raw_e1 =
     ([entries_example ! 0], [''e1''])"
  by (simp add: addRawEntry_def identity_e1)

lemma entry_e2:
  "addRawEntry host_example ([entries_example ! 0], [''e1'']) raw_e2 =
     (entries_example, [''e1'', ''t2:7:0:0:1800000''])"
  by (simp add: addRawEntry_def identity_e2 entries_example_def Let_def)
     (simp add: raw_e2_def extractTaskId_def rawUserId_def host_example_def showNat_digits)

lemma scan_7:
  "scanPages host_example respond_example params_example (Some ''7'') offset 0 0 None ([], []) [] =
     (Inr ([entries_example ! 0], [''e1'']), snd (scans_example ! 0))"
proof -
  have "scanPages host_example respond_example params_example (Some ''7'') offset 0 0 None ([], []) [] =
      (Inr (foldl (addRawEntry host_example) ([], []) (rawEntries (JObj [(''data'', JArr [raw_e1])]))),
       [] @ [(pageRequest params_example (Some ''7'') 0 None, Inr (JObj [(''data'', JArr [raw_e1])]))])"
    by (rule scanPages_stop)
       (simp_all add: respond_example_def pageRequest_def nextPagination_def pageSignal_def)
  then show ?thesis by (simp add: rawEntries_def entry_e1 scans_example_def)
qed

lemma scan_0:
  "scanPages host_example respond_example params_example (Some ''0'') offset 0 0 None
      ([entries_example ! 0], [''e1'']) [] =
     (Inr ([entries_example ! 0], [''e1'']), snd (scans_example ! 1))"
proof -
  have "scanPages host_example respond_example params_example (Some ''0'') offset 0 0 None
      ([entries_example ! 0], [''e1'']) [] =
      (Inr (foldl (addRawEntry host_example) ([entries_example ! 0], [''e1''])
         (rawEntries (JObj [(''data'', JArr [])]))),
       [] @ [(pageRequest params_example (Some ''0'') 0 None, Inr (JObj [(''data'', JArr [])]))])"
    by (rule scanPages_stop)
       (simp_all add: respond_example_def pageRequest_def nextPagination_def pageSignal_def)
  then show ?thesis by (simp add: rawEntries_def scans_example_def)
qed

lemma scan_none:
  "scanPages host_example respond_example params_example None offset 0 0 None
      ([entries_example ! 0], [''e1'']) [] =
     (Inr (entries_example, [''e1'', ''t2:7:0:0:1800000'']), snd (scans_example ! 2))"
proof -
  have "scanPages host_example respond_example params_example None offset 0 0 None
      ([entries_example ! 0], [''e1'']) [] =
      (Inr (foldl (addRawEntry host_example) ([entries_example ! 0], [''e1''])
         (rawEntries (JObj [(''time_entries'', JArr [raw_e1, raw_e2])]))),
       [] @ [(pageRequest params_example None 0 None,
          Inr (JObj [(''time_entries'', JArr [raw_e1, raw_e2])]))])"
    by (rule scanPages_stop)
       (simp_all add: respond_example_def pageRequest_def nextPagination_def pageSignal_def)
  then show ?thesis
    by (simp add: rawEntries_def entry_e1_again entry_e2 scans_example_def)
qed

lemma getTimeEntries_example:
  "getTimeEntries host_example respond_example params_example =
     (Inr entries_example, scans_example)"
  unfolding getTimeEntries_def values_example
  using scan_7 scan_0 scan_none
  by (simp add: assigneeValueOf_simps scans_example_def Let_def)


lemma distinct_map_filter_one:
  "distinct (map f xs) \<Longrightarrow> y \<in> f ` set xs \<Longrightarrow> length (filter (\<lambda>e. f e = y) xs) = 1"
proof (induction xs)
  case Nil
  then show ?case by simp
next
  case (Cons x xs)
  show ?case
  proof (cases "f x = y")
    case True
    have "f e \<noteq> y" if "e \<in> set xs" for e
      using that True Cons.prems(1) by (metis distinct.simps(2) imageI list.simps(9) set_map)
    then have "filter (\<lambda>e. f e = y) xs = []"
      by (simp add: filter_empty_conv)
    with True show ?thesis by simp
  next
    case False
    then show ?thesis using Cons by auto
  qed
qed

lemma newSet_distinct_id: "distinct xs \<Longrightarrow> newSet xs = xs"
  by (simp add: newSet_def distinct_remdups_id)

lemma assigneeValues_general:
  "map assigneeValueOf (buildAssigneeQueryValues ids) =
     (let normalized = newSet (filter (\<lambda>i. length i > 0) (map trim (nullish ids [])))
      in if normalized = [] then [None]
         else map assigneeValueOf normalized @ [Some ''0'', None])"
  by (simp add: buildAssigneeQueryValues_def Let_def assigneeValueOf_def
      ASSIGNEE_QUERY_UNASSIGNED_def ASSIGNEE_QUERY_NONE_def)

lemma assigneeValues_wellformed:
  assumes "ids \<noteq> []" "distinct ids"
    and "\<forall>i \<in> set ids. i \<noteq> [] \<and> trim i = i \<and> i \<noteq> ASSIGNEE_QUERY_UNASSIGNED \<and>
      i \<noteq> ASSIGNEE_QUERY_NONE"
  shows "map assigneeValueOf (buildAssigneeQueryValues (Some ids)) =
    map Some ids @ [Some ''0'', None]"
proof -
  have "map trim ids = ids" using assms(3) by (simp add: map_idI)
  moreover have "filter (\<lambda>i. length i > 0) ids = ids" using assms(3) by (simp add: filter_id_conv)
  ultimately have norm: "newSet (filter (\<lambda>i. length i > 0) (map trim (nullish (Some ids) []))) = ids"
    using assms(2) by (simp add: newSet_distinct_id)
  have "map assigneeValueOf ids = map Some ids"
    using assms(3) by (simp add: assigneeValueOf_def)
  with norm assms(1) show ?thesis
    unfolding assigneeValues_general by (simp add: Let_def)
qed

lemma assigneeValues_none:
  "ids = None \<or> ids = Some [] \<Longrightarrow> map assigneeValueOf (buildAssigneeQueryValues ids) = [None]"
  unfolding assigneeValues_general by (auto simp: newSet_def)

lemma getTimeEntries_success:
  assumes "getTimeEntries h respond params = (Inr entries, scans)"
  shows "distinct (map entry_id entries) \<and> (\<forall>e \<in> set entries. entryFrom h e) \<and>
     (\<forall>s \<in> set scans. covered h (map entry_id entries) (snd s) \<and> scan_ok s) \<and>
     map fst scans = map assigneeValueOf (buildAssigneeQueryValues (p_assigneeIds params))"
  using scanAll_collects [of h "([], [])" "[]" respond params
      "buildAssigneeQueryValues (p_assigneeIds params)" entries scans] assms
  by (simp add: getTimeEntries_def collected_ok_def)

lemma ms_explicit:
  "nullish (parseOptionalMs h v) 0 =
     (case v of
        Some (JNum n) \<Rightarrow> n
      | Some (JStr s) \<Rightarrow> (case host_Number h s of Some n \<Rightarrow> n | None \<Rightarrow> 0)
      | _ \<Rightarrow> 0)"
  by (cases "(h, v)" rule: parseOptionalMs.cases) (auto split: option.splits)

lemma duration_explicit:
  "parseDurationMs h v =
     \<bar>case v of
        Some (JNum n) \<Rightarrow> n
      | Some (JStr s) \<Rightarrow> (case host_Number h s of Some n \<Rightarrow> n | None \<Rightarrow> 0)
      | _ \<Rightarrow> 0\<bar>"
  by (cases "(h, v)" rule: parseDurationMs.cases) (auto split: option.splits)

lemma taskId_explicit:
  "nullish (extractTaskId item) ''no-task'' =
     (case field item ''task_id'' of
        Some (JStr t) \<Rightarrow> t
      | _ \<Rightarrow>
          (case field item ''task'' of
             Some task \<Rightarrow> (case field task ''id'' of Some (JStr t) \<Rightarrow> t | _ \<Rightarrow> ''no-task'')
           | None \<Rightarrow> ''no-task''))"
proof -
  have nested: "nullish (if isObject task
        then (case field task ''id'' of Some (JStr i) \<Rightarrow> Some i | _ \<Rightarrow> None) else None) ''no-task'' =
      (case field task ''id'' of Some (JStr t) \<Rightarrow> t | _ \<Rightarrow> ''no-task'')" for task
    by (cases task) (auto split: option.splits json.splits)
  have outer: "nullish (case field item ''task'' of
        Some task \<Rightarrow>
          (if isObject task
           then (case field task ''id'' of Some (JStr i) \<Rightarrow> Some i | _ \<Rightarrow> None) else None)
      | None \<Rightarrow> None) ''no-task'' =
      (case field item ''task'' of
         Some task \<Rightarrow> (case field task ''id'' of Some (JStr t) \<Rightarrow> t | _ \<Rightarrow> ''no-task'')
       | None \<Rightarrow> ''no-task'')"
    using nested by (cases "field item ''task''") simp_all
  show ?thesis
    unfolding extractTaskId_def
    by (cases "field item ''task_id''"; (simp add: outer)?)
       (rename_tac v, case_tac v; simp add: outer)
qed

lemma userId_explicit:
  "nullish (rawUserId h item) ''no-user'' =
     (case field item ''userid'' of
        Some (JStr u) \<Rightarrow> u
      | Some (JNum u) \<Rightarrow> host_String h u
      | _ \<Rightarrow> ''no-user'')"
  by (simp add: rawUserId_def split: option.splits json.splits)

lemma fallback_explicit:
  "getStableFallbackEntryId h item =
     (case field item ''task_id'' of
        Some (JStr t) \<Rightarrow> t
      | _ \<Rightarrow>
          (case field item ''task'' of
             Some task \<Rightarrow> (case field task ''id'' of Some (JStr t) \<Rightarrow> t | _ \<Rightarrow> ''no-task'')
           | None \<Rightarrow> ''no-task'')) @ '':'' @
     (case field item ''userid'' of
        Some (JStr u) \<Rightarrow> u
      | Some (JNum u) \<Rightarrow> host_String h u
      | _ \<Rightarrow> ''no-user'') @ '':'' @
     host_String h
       (case field item ''start'' of
          Some (JNum n) \<Rightarrow> n
        | Some (JStr s) \<Rightarrow> (case host_Number h s of Some n \<Rightarrow> n | None \<Rightarrow> 0)
        | _ \<Rightarrow> 0) @ '':'' @
     host_String h
       (case field item ''end'' of
          Some (JNum n) \<Rightarrow> n
        | Some (JStr s) \<Rightarrow> (case host_Number h s of Some n \<Rightarrow> n | None \<Rightarrow> 0)
        | _ \<Rightarrow> 0) @ '':'' @
     host_String h
       \<bar>case field item ''duration'' of
          Some (JNum n) \<Rightarrow> n
        | Some (JStr s) \<Rightarrow> (case host_Number h s of Some n \<Rightarrow> n | None \<Rightarrow> 0)
        | _ \<Rightarrow> 0\<bar>"
  unfolding getStableFallbackEntryId_def Let_def
  by (simp only: ms_explicit taskId_explicit userId_explicit duration_explicit [symmetric])

lemma assigneeValueOf_explicit:
  "assigneeValueOf i =
     (if i = ''__UNASSIGNED__'' then Some ''0'' else if i = ''__NONE__'' then None else Some i)"
  by (simp add: assigneeValueOf_def ASSIGNEE_QUERY_UNASSIGNED_def ASSIGNEE_QUERY_NONE_def)

text \<open>
  C1 (amended). A call of \<open>getTimeEntries\<close> scans the assignee values one after the other:
  one scan per distinct assignee id of the filter (ids are compared after trimming,
  blank ids are left out, and the ids \<open>__UNASSIGNED__\<close> and \<open>__NONE__\<close> stand for the
  assignee value \<open>0\<close> and for no assignee), then one with assignee value \<open>0\<close>, then one
  without assignee; when the filter is absent or holds no id that is not blank there is
  only the scan without assignee. The scans made are always a prefix of this list, and
  the whole list when the call returns. In the result no two entries have the same id,
  the id of an entry is its identity, and every raw entry of every page received, in
  whatever scans it was returned, has exactly one entry with its identity in the
  result. The identity of a raw entry is its field \<open>id\<close> when that is a string;
  otherwise (no id, or an id that is not a string) it is the key
  \<open>task:user:start:end:duration\<close> made of the task id (\<open>task_id\<close>, else \<open>task.id\<close>, else
  \<open>no-task\<close>), the user id (\<open>userid\<close>, else \<open>no-user\<close>), the start and the end time
  (0 when missing or not a number) and the magnitude of the duration.
\<close>

theorem getTimeEntries_scans_and_dedup:
  assumes run: "getTimeEntries h respond params = (result, scans)"
  shows "prefix (map fst scans)
      (map assigneeValueOf (buildAssigneeQueryValues (p_assigneeIds params))) \<and>
    (\<forall>entries. result = Inr entries \<longrightarrow>
       map fst scans = map assigneeValueOf (buildAssigneeQueryValues (p_assigneeIds params)) \<and>
       (\<forall>s \<in> set scans. scan_ok s) \<and>
       distinct (map entry_id entries) \<and>
       (\<forall>e \<in> set entries. entry_id e = entryIdentity h (entry_raw e)) \<and>
       (\<forall>s \<in> set scans. \<forall>(req, resp) \<in> set (snd s). \<forall>payload. resp = Inr payload \<longrightarrow>
          (\<forall>item \<in> set (rawEntries payload). isObject item \<longrightarrow>
             length (filter (\<lambda>e. entry_id e = entryIdentity h item) entries) = 1))) \<and>
    map assigneeValueOf (buildAssigneeQueryValues (p_assigneeIds params)) =
      (let normalized =
             newSet (filter (\<lambda>i. length i > 0) (map trim (nullish (p_assigneeIds params) [])))
       in if normalized = [] then [None]
          else map (\<lambda>i. if i = ''__UNASSIGNED__'' then Some ''0''
                        else if i = ''__NONE__'' then None else Some i) normalized @
               [Some ''0'', None]) \<and>
    distinct (newSet (filter (\<lambda>i. length i > 0) (map trim (nullish (p_assigneeIds params) [])))) \<and>
    (\<forall>ids. p_assigneeIds params = Some ids \<and> ids \<noteq> [] \<and> distinct ids \<and>
       (\<forall>i \<in> set ids. i \<noteq> [] \<and> trim i = i \<and> i \<noteq> ''__UNASSIGNED__'' \<and> i \<noteq> ''__NONE__'') \<longrightarrow>
       map assigneeValueOf (buildAssigneeQueryValues (p_assigneeIds params)) =
         map Some ids @ [Some ''0'', None]) \<and>
    (p_assigneeIds params = None \<or> p_assigneeIds params = Some [] \<longrightarrow>
       map assigneeValueOf (buildAssigneeQueryValues (p_assigneeIds params)) = [None]) \<and>
    (\<forall>item. entryIdentity h item =
       (case field item ''id'' of
          Some (JStr i) \<Rightarrow> i
        | _ \<Rightarrow>
            (case field item ''task_id'' of
               Some (JStr t) \<Rightarrow> t
             | _ \<Rightarrow>
                 (case field item ''task'' of
                    Some task \<Rightarrow>
                      (case field task ''id'' of Some (JStr t) \<Rightarrow> t | _ \<Rightarrow> ''no-task'')
                  | None \<Rightarrow> ''no-task'')) @ '':'' @
            (case field item ''userid'' of
               Some (JStr u) \<Rightarrow> u
             | Some (JNum u) \<Rightarrow> host_String h u
             | _ \<Rightarrow> ''no-user'') @ '':'' @
            host_String h
              (case field item ''start'' of
                 Some (JNum n) \<Rightarrow> n
               | Some (JStr s) \<Rightarrow> (case host_Number h s of Some n \<Rightarrow> n | None \<Rightarrow> 0)
               | _ \<Rightarrow> 0) @ '':'' @
            host_String h
              (case field item ''end'' of
                 Some (JNum n) \<Rightarrow> n
               | Some (JStr s) \<Rightarrow> (case host_Number h s of Some n \<Rightarrow> n | None \<Rightarrow> 0)
               | _ \<Rightarrow> 0) @ '':'' @
            host_String h
              \<bar>case field item ''duration'' of
                 Some (JNum n) \<Rightarrow> n
               | Some (JStr s) \<Rightarrow> (case host_Number h s of Some n \<Rightarrow> n | None \<Rightarrow> 0)
               | _ \<Rightarrow> 0\<bar>))"
proof -
  let ?vals = "buildAssigneeQueryValues (p_assigneeIds params)"
  have issued: "prefix (map fst scans) (map assigneeValueOf ?vals)"
    using scanAll_bound [of "[]" h respond params ?vals "([], [])"] run
    by (simp add: getTimeEntries_def)
  have success: "map fst scans = map assigneeValueOf ?vals \<and>
       (\<forall>s \<in> set scans. scan_ok s) \<and>
       distinct (map entry_id entries) \<and>
       (\<forall>e \<in> set entries. entry_id e = entryIdentity h (entry_raw e)) \<and>
       (\<forall>s \<in> set scans. \<forall>(req, resp) \<in> set (snd s). \<forall>payload. resp = Inr payload \<longrightarrow>
          (\<forall>item \<in> set (rawEntries payload). isObject item \<longrightarrow>
             length (filter (\<lambda>e. entry_id e = entryIdentity h item) entries) = 1))"
    if "result = Inr entries" for entries
  proof -
    note facts = getTimeEntries_success [OF run [unfolded that]]
    have once: "length (filter (\<lambda>e. entry_id e = entryIdentity h item) entries) = 1"
      if "s \<in> set scans" "(req, Inr payload) \<in> set (snd s)" "item \<in> set (rawEntries payload)"
        "isObject item" for s req payload item
    proof -
      have "covered h (map entry_id entries) (snd s)" using facts that(1) by blast
      then have "entryIdentity h item \<in> set (map entry_id entries)"
        using that(2,3,4) unfolding covered_def by blast
      then show ?thesis using facts distinct_map_filter_one [of entry_id entries] by simp
    qed
    from facts once show ?thesis by (auto simp: entryFrom_def)
  qed
  have general: "map assigneeValueOf ?vals =
      (let normalized =
             newSet (filter (\<lambda>i. length i > 0) (map trim (nullish (p_assigneeIds params) [])))
       in if normalized = [] then [None]
          else map (\<lambda>i. if i = ''__UNASSIGNED__'' then Some ''0''
                        else if i = ''__NONE__'' then None else Some i) normalized @
               [Some ''0'', None])"
    unfolding assigneeValues_general Let_def
    by (simp add: assigneeValueOf_explicit cong: map_cong)
  have wellformed: "map assigneeValueOf ?vals = map Some ids @ [Some ''0'', None]"
    if "p_assigneeIds params = Some ids" "ids \<noteq> []" "distinct ids"
      "\<forall>i \<in> set ids. i \<noteq> [] \<and> trim i = i \<and> i \<noteq> ''__UNASSIGNED__'' \<and> i \<noteq> ''__NONE__''" for ids
    using assigneeValues_wellformed [OF that(2,3)] that(1,4)
    by (simp add: ASSIGNEE_QUERY_UNASSIGNED_def ASSIGNEE_QUERY_NONE_def)
  have identity: "entryIdentity h item =
       (case field item ''id'' of
          Some (JStr i) \<Rightarrow> i
        | _ \<Rightarrow>
            (case field item ''task_id'' of
               Some (JStr t) \<Rightarrow> t
             | _ \<Rightarrow>
                 (case field item ''task'' of
                    Some task \<Rightarrow>
                      (case field task ''id'' of Some (JStr t) \<Rightarrow> t | _ \<Rightarrow> ''no-task'')
                  | None \<Rightarrow> ''no-task'')) @ '':'' @
            (case field item ''userid'' of
               Some (JStr u) \<Rightarrow> u
             | Some (JNum u) \<Rightarrow> host_String h u
             | _ \<Rightarrow> ''no-user'') @ '':'' @
            host_String h
              (case field item ''start'' of
                 Some (JNum n) \<Rightarrow> n
               | Some (JStr s) \<Rightarrow> (case host_Number h s of Some n \<Rightarrow> n | None \<Rightarrow> 0)
               | _ \<Rightarrow> 0) @ '':'' @
            host_String h
              (case field item ''end'' of
                 Some (JNum n) \<Rightarrow> n
               | Some (JStr s) \<Rightarrow> (case host_Number h s of Some n \<Rightarrow> n | None \<Rightarrow> 0)
               | _ \<Rightarrow> 0) @ '':'' @
            host_String h
              \<bar>case field item ''duration'' of
                 Some (JNum n) \<Rightarrow> n
               | Some (JStr s) \<Rightarrow> (case host_Number h s of Some n \<Rightarrow> n | None \<Rightarrow> 0)
               | _ \<Rightarrow> 0\<bar>)" for item
    unfolding entryIdentity_def by (simp only: fallback_explicit)
  show ?thesis
    apply (intro conjI)
    subgoal by (rule issued)
    subgoal using success by blast
    subgoal by (rule general)
    subgoal by (rule distinct_newSet)
    subgoal using wellformed by blast
    subgoal using assigneeValues_none [of "p_assigneeIds params"] by blast
    subgoal using identity by blast
    done
qed


theorem getTimeEntries_scans_and_dedup_witness:
  "getTimeEntries host_example respond_example params_example =
     (Inr entries_example, scans_example) \<and>
   p_assigneeIds params_example = Some [''7''] \<and>
   map assigneeValueOf (buildAssigneeQueryValues (p_assigneeIds params_example)) =
     [Some ''7'', Some ''0'', None] \<and>
   map fst scans_example = [Some ''7'', Some ''0'', None] \<and>
   distinct (map entry_id entries_example) \<and>
   map entry_id entries_example = [''e1'', ''t2:7:0:0:1800000''] \<and>
   map assigneeValueOf (buildAssigneeQueryValues (p_assigneeIds params_unfiltered)) = [None] \<and>
   p_assigneeIds params_untidy = Some ['' 7'', ''7'', '''', ''__UNASSIGNED__''] \<and>
   map assigneeValueOf (buildAssigneeQueryValues (p_assigneeIds params_untidy)) =
     [Some ''7'', Some ''0'', Some ''0'', None] \<and>
   entryIdentity host_example raw_e1 = ''e1'' \<and>
   entryIdentity host_example raw_e2 = ''t2:7:0:0:1800000'' \<and>
   entryIdentity host_example raw_e2_again = ''t2:7:0:0:1800000'' \<and>
   entryIdentity host_example raw_e3 = ''t3:9:1700000000000:1700000360000:360000''"
proof -
  note run = getTimeEntries_example
  have ids: "map entry_id entries_example = [''e1'', ''t2:7:0:0:1800000'']"
    by (simp add: entries_example_def)
  have scans: "map fst scans_example = [Some ''7'', Some ''0'', None]"
    by (simp add: scans_example_def)
  have filter: "p_assigneeIds params_example = Some [''7'']" "[''7''] \<noteq> []" "distinct [''7'']"
    "\<forall>i \<in> set [''7'']. i \<noteq> [] \<and> trim i = i \<and> i \<noteq> ''__UNASSIGNED__'' \<and> i \<noteq> ''__NONE__''"
    by (simp_all add: params_example_def trim_def isWhiteSpace_def)
  note facts = getTimeEntries_scans_and_dedup [OF run]
  from facts have unique: "distinct (map entry_id entries_example)"
    by blast
  from facts filter
  have "map assigneeValueOf (buildAssigneeQueryValues (p_assigneeIds params_example)) =
      map Some [''7''] @ [Some ''0'', None]"
    by blast
  then have issued: "map assigneeValueOf (buildAssigneeQueryValues (p_assigneeIds params_example)) =
      [Some ''7'', Some ''0'', None]"
    by simp
  have unfiltered: "getTimeEntries host_example respond_example params_unfiltered =
      (fst (getTimeEntries host_example respond_example params_unfiltered),
       snd (getTimeEntries host_example respond_example params_unfiltered))"
    by simp
  have absent: "p_assigneeIds params_unfiltered = None"
    by (simp add: params_unfiltered_def)
  from getTimeEntries_scans_and_dedup [OF unfiltered] absent
  have none: "map assigneeValueOf (buildAssigneeQueryValues (p_assigneeIds params_unfiltered)) = [None]"
    by blast
  have untidy: "getTimeEntries host_example respond_example params_untidy =
      (fst (getTimeEntries host_example respond_example params_untidy),
       snd (getTimeEntries host_example respond_example params_untidy))"
    by simp
  have given: "p_assigneeIds params_untidy = Some ['' 7'', ''7'', '''', ''__UNASSIGNED__'']"
    by (simp add: params_untidy_def)
  have normalized: "newSet (filter (\<lambda>i. length i > 0)
      (map trim (nullish (p_assigneeIds params_untidy) []))) = [''7'', ''__UNASSIGNED__'']"
    by (simp add: given newSet_def trim_def isWhiteSpace_def)
  from getTimeEntries_scans_and_dedup [OF untidy]
  have "map assigneeValueOf (buildAssigneeQueryValues (p_assigneeIds params_untidy)) =
      (let normalized =
             newSet (filter (\<lambda>i. length i > 0) (map trim (nullish (p_assigneeIds params_untidy) [])))
       in if normalized = [] then [None]
          else map (\<lambda>i. if i = ''__UNASSIGNED__'' then Some ''0''
                        else if i = ''__NONE__'' then None else Some i) normalized @
               [Some ''0'', None])"
    by blast
  then have mixed: "map assigneeValueOf (buildAssigneeQueryValues (p_assigneeIds params_untidy)) =
      [Some ''7'', Some ''0'', Some ''0'', None]"
    unfolding normalized by simp
  have printed: "showNat 7 = ''7''" "showNat 0 = ''0''" "showNat 1800000 = ''1800000''"
    "showNat 1700000000000 = ''1700000000000''" "showNat 1700000360000 = ''1700000360000''"
    "showNat 360000 = ''360000''"
    by (simp_all add: showNat.simps)
  from facts have key: "entryIdentity host_example item =
       (case field item ''id'' of
          Some (JStr i) \<Rightarrow> i
        | _ \<Rightarrow>
            (case field item ''task_id'' of
               Some (JStr t) \<Rightarrow> t
             | _ \<Rightarrow>
                 (case field item ''task'' of
                    Some task \<Rightarrow>
                      (case field task ''id'' of Some (JStr t) \<Rightarrow> t | _ \<Rightarrow> ''no-task'')
                  | None \<Rightarrow> ''no-task'')) @ '':'' @
            (case field item ''userid'' of
               Some (JStr u) \<Rightarrow> u
             | Some (JNum u) \<Rightarrow> host_String host_example u
             | _ \<Rightarrow> ''no-user'') @ '':'' @
            host_String host_example
              (case field item ''start'' of
                 Some (JNum n) \<Rightarrow> n
               | Some (JStr s) \<Rightarrow> (case host_Number host_example s of Some n \<Rightarrow> n | None \<Rightarrow> 0)
               | _ \<Rightarrow> 0) @ '':'' @
            host_String host_example
              (case field item ''end'' of
                 Some (JNum n) \<Rightarrow> n
               | Some (JStr s) \<Rightarrow> (case host_Number host_example s of Some n \<Rightarrow> n | None \<Rightarrow> 0)
               | _ \<Rightarrow> 0) @ '':'' @
            host_String host_example
              \<bar>case field item ''duration'' of
                 Some (JNum n) \<Rightarrow> n
               | Some (JStr s) \<Rightarrow> (case host_Number host_example s of Some n \<Rightarrow> n | None \<Rightarrow> 0)
               | _ \<Rightarrow> 0\<bar>)" for item
    by blast
  have e1: "entryIdentity host_example raw_e1 = ''e1''"
    unfolding key by (simp add: raw_e1_def)
  have e2: "entryIdentity host_example raw_e2 = ''t2:7:0:0:1800000''"
    unfolding key by (simp add: raw_e2_def host_example_def printed)
  have e2_again: "entryIdentity host_example raw_e2_again = ''t2:7:0:0:1800000''"
    unfolding key by (simp add: raw_e2_again_def host_example_def printed)
  have e3: "entryIdentity host_example raw_e3 = ''t3:9:1700000000000:1700000360000:360000''"
    unfolding key by (simp add: raw_e3_def host_example_def printed)
  from run ids scans filter(1) unique issued none given mixed e1 e2 e2_again e3
  show ?thesis by simp
qed

text \<open>The unamended statement of C1 does not hold when the provider's ids are not
  strings: two raw entries with the ids 12 and 13 that agree in task, user, times and
  duration are taken for one entry, and the second is missing from the result.\<close>

theorem getTimeEntries_numeric_ids_counterexample:
  "field raw_n12 ''id'' = Some (JNum 12) \<and> field raw_n13 ''id'' = Some (JNum 13) \<and>
   respond_numeric_ids 0 (pageRequest params_unfiltered None 0 None) =
     Inr (JObj [(''data'', JArr [raw_n12, raw_n13])]) \<and>
   getTimeEntries host_example respond_numeric_ids params_unfiltered =
     (Inr [\<lparr> entry_id = ''t1:7:0:0:60000'', entry_taskId = Some ''t1'',
              entry_durationMs = 60000, entry_startMs = None, entry_endMs = None,
              entry_userId = Some ''7'', entry_raw = raw_n12 \<rparr>],
      [(None, [(pageRequest params_unfiltered None 0 None,
          Inr (JObj [(''data'', JArr [raw_n12, raw_n13])]))])])"
proof -
  let ?payload = "JObj [(''data'', JArr [raw_n12, raw_n13])]"
  let ?entry = "\<lparr> entry_id = ''t1:7:0:0:60000'', entry_taskId = Some ''t1'',
      entry_durationMs = 60000, entry_startMs = None, entry_endMs = None,
      entry_userId = Some ''7'', entry_raw = raw_n12 \<rparr>"
  have printed: "showNat 7 = ''7''" "showNat 0 = ''0''" "showNat 60000 = ''60000''"
    by (simp_all add: showNat.simps)
  have identity: "entryIdentity host_example raw_n12 = ''t1:7:0:0:60000''"
    "entryIdentity host_example raw_n13 = ''t1:7:0:0:60000''"
    by (simp_all add: entryIdentity_def raw_n12_def raw_n13_def getStableFallbackEntryId_def
        extractTaskId_def rawUserId_def host_example_def printed)
  have first: "addRawEntry host_example ([], []) raw_n12 = ([?entry], [''t1:7:0:0:60000''])"
    by (simp add: addRawEntry_def identity Let_def)
       (simp add: raw_n12_def extractTaskId_def rawUserId_def host_example_def printed)
  have second: "addRawEntry host_example ([?entry], [''t1:7:0:0:60000'']) raw_n13 =
      ([?entry], [''t1:7:0:0:60000''])"
    by (simp add: addRawEntry_def identity Let_def)
  have response: "respond_numeric_ids 0 (pageRequest params_unfiltered None 0 None) = Inr ?payload"
    by (simp add: respond_numeric_ids_def)
  have "scanPages host_example respond_numeric_ids params_unfiltered None 0 0 0 None ([], []) [] =
      (Inr (foldl (addRawEntry host_example) ([], []) (rawEntries ?payload)),
       [] @ [(pageRequest params_unfiltered None 0 None, Inr ?payload)])"
    by (rule scanPages_stop)
       (simp_all add: respond_numeric_ids_def nextPagination_def pageSignal_def)
  then have scan: "scanPages host_example respond_numeric_ids params_unfiltered None 0 0 0 None
      ([], []) [] =
      (Inr ([?entry], [''t1:7:0:0:60000'']),
       [(pageRequest params_unfiltered None 0 None, Inr ?payload)])"
    by (simp add: rawEntries_def first second)
  have "buildAssigneeQueryValues (p_assigneeIds params_unfiltered) = [ASSIGNEE_QUERY_NONE]"
    by (simp add: buildAssigneeQueryValues_def params_unfiltered_def newSet_def)
  then have "getTimeEntries host_example respond_numeric_ids params_unfiltered =
     (Inr [?entry], [(None, [(pageRequest params_unfiltered None 0 None, Inr ?payload)])])"
    unfolding getTimeEntries_def using scan
    by (simp add: assigneeValueOf_simps Let_def)
  with response show ?thesis by (simp add: raw_n12_def raw_n13_def)
qed

text \<open>
  C10. Every entry that \<open>getTimeEntries\<close> returns has \<open>durationMs \<ge> 0\<close>: its duration is
  \<open>parseDurationMs\<close> of the raw duration, which is the absolute value of a number, the
  absolute value of \<open>Number(s)\<close> for a string \<open>s\<close> when that is finite, and 0 for
  anything else (a missing duration, a string that is not a finite number, \<open>null\<close>, a
  boolean, an array, an object). A negative duration contributes its magnitude.
\<close>

theorem getTimeEntries_durations_nonneg:
  "(\<forall>entries. fst (getTimeEntries h respond params) = Inr entries \<longrightarrow>
      (\<forall>e \<in> set entries.
         0 \<le> entry_durationMs e \<and>
         entry_durationMs e = parseDurationMs h (field (entry_raw e) ''duration''))) \<and>
   parseDurationMs h (Some (JNum d)) = \<bar>d\<bar> \<and>
   parseDurationMs h (Some (JStr s)) =
     (case host_Number h s of Some parsed \<Rightarrow> \<bar>parsed\<bar> | None \<Rightarrow> 0) \<and>
   parseDurationMs h None = 0 \<and>
   parseDurationMs h (Some JNull) = 0 \<and>
   parseDurationMs h (Some (JBool b)) = 0 \<and>
   parseDurationMs h (Some (JArr items)) = 0 \<and>
   parseDurationMs h (Some (JObj kvs)) = 0 \<and>
   0 \<le> parseDurationMs h v"
proof -
  have entries: "0 \<le> entry_durationMs e \<and>
      entry_durationMs e = parseDurationMs h (field (entry_raw e) ''duration'')"
    if "fst (getTimeEntries h respond params) = Inr entries" "e \<in> set entries" for entries e
  proof -
    have "getTimeEntries h respond params =
        (Inr entries, snd (getTimeEntries h respond params))"
      using that(1) by (simp add: prod_eq_iff)
    from getTimeEntries_success [OF this] that(2) have "entryFrom h e" by blast
    then show ?thesis using parseDurationMs_nonneg [of h] by (simp add: entryFrom_def)
  qed
  show ?thesis
    apply (intro conjI)
    subgoal using entries by blast
    subgoal by simp
    subgoal by simp
    subgoal by simp
    subgoal by simp
    subgoal by simp
    subgoal by simp
    subgoal by simp
    subgoal by (rule parseDurationMs_nonneg)
    done
qed

theorem getTimeEntries_durations_nonneg_witness:
  "fst (getTimeEntries host_example respond_example params_example) = Inr entries_example \<and>
   entries_example ! 1 \<in> set entries_example \<and>
   field (entry_raw (entries_example ! 1)) ''duration'' = Some (JStr ''-1800000'') \<and>
   entry_durationMs (entries_example ! 1) = 1800000 \<and>
   0 \<le> entry_durationMs (entries_example ! 1)"
proof -
  have run: "fst (getTimeEntries host_example respond_example params_example) = Inr entries_example"
    by (simp add: getTimeEntries_example)
  have mem: "entries_example ! 1 \<in> set entries_example"
    by (simp add: entries_example_def)
  have raw: "field (entry_raw (entries_example ! 1)) ''duration'' = Some (JStr ''-1800000'')"
    by (simp add: entries_example_def raw_e2_def)
  have parsed: "parseDurationMs host_example (Some (JStr ''-1800000'')) = 1800000"
    by (simp add: host_example_def)
  from getTimeEntries_durations_nonneg [of host_example respond_example params_example] run mem
  have "0 \<le> entry_durationMs (entries_example ! 1) \<and>
      entry_durationMs (entries_example ! 1) =
        parseDurationMs host_example (field (entry_raw (entries_example ! 1)) ''duration'')"
    by blast
  with run mem raw parsed show ?thesis by simp
qed

lemma nextPagination_no_cursor:
  "\<not> hasCursor payload \<Longrightarrow> nextPagination payload page = pageSignal payload page"
  by (auto simp: hasCursor_def nextPagination_def split: option.splits json.splits)

lemma scan_cursor_forever:
  "length (snd (scanPages h respond_cursor_forever params a offset guard page cursor acc xs)) =
     length xs + (200 - guard)"
proof (induction n \<equiv> "200 - guard" arbitrary: guard cursor acc xs)
  case 0
  then have "\<not> guard < 200" by simp
  from scanPages_done [OF this] 0 show ?case by simp
next
  case (Suc n)
  then have less: "guard < 200" and n: "n = 200 - (guard + 1)" by simp_all
  let ?payload = "JObj [(''data'', JArr []), (''next_cursor'', JStr ''c'')]"
  let ?acc = "foldl (addRawEntry h) acc (rawEntries ?payload)"
  let ?xs = "xs @ [(pageRequest params a page cursor, Inr ?payload)]"
  have eq: "scanPages h respond_cursor_forever params a offset guard page cursor acc xs =
      scanPages h respond_cursor_forever params a offset (guard + 1) page (Some ''c'') ?acc ?xs"
    by (rule scanPages_cursor [where respond = respond_cursor_forever and offset = offset
          and xs = xs, OF less])
       (simp_all add: respond_cursor_forever_def nextPagination_def)
  have "length (snd (scanPages h respond_cursor_forever params a offset (guard + 1) page
      (Some ''c'') ?acc ?xs)) = length ?xs + (200 - (guard + 1))"
    by (rule Suc.hyps(1) [OF n])
  then show ?case unfolding eq using less by (simp; arith)
qed

text \<open>
  C7. Whatever the provider answers, every scan of \<open>getTimeEntries\<close> makes at most 200
  page requests. When a response carries no cursor and a numeric \<open>next_page\<close> that does
  not exceed the current page, the scan ends with that response; a larger \<open>next_page\<close>
  becomes the next page. Without cursor and without numeric \<open>next_page\<close>, the scan goes on
  to the following page exactly when \<open>last_page\<close> is a number above the current page.
\<close>

theorem scan_stops_within_200_requests:
  "(\<forall>s \<in> set (snd (getTimeEntries h respond params)). length (snd s) \<le> 200) \<and>
   length (snd (scanPages h respond params a offset 0 0 None acc [])) \<le> 200 \<and>
   (guard < 200 \<and>
    respond (offset + length xs) (pageRequest params a page cursor) = Inr payload \<and>
    payload \<noteq> JNull \<and> \<not> hasCursor payload \<and>
    field payload ''next_page'' = Some (JNum nextPage) \<and> nextPage \<le> page \<longrightarrow>
      scanPages h respond params a offset guard page cursor acc xs =
        (Inr (foldl (addRawEntry h) acc (rawEntries payload)),
         xs @ [(pageRequest params a page cursor, Inr payload)])) \<and>
   (\<not> hasCursor payload \<and> field payload ''next_page'' = Some (JNum nextPage) \<longrightarrow>
      nextPagination payload page = (if nextPage \<le> page then StopScan else GoToPage nextPage)) \<and>
   (\<not> hasCursor payload \<and> (\<forall>n. field payload ''next_page'' \<noteq> Some (JNum n)) \<longrightarrow>
      nextPagination payload page =
        (case field payload ''last_page'' of
           Some (JNum lastPage) \<Rightarrow> if page < lastPage then GoToPage (page + 1) else StopScan
         | _ \<Rightarrow> StopScan))"
proof -
  have all: "\<forall>s \<in> set (snd (getTimeEntries h respond params)). length (snd s) \<le> 200"
    using scanAll_bound [of "[]" h respond params
        "buildAssigneeQueryValues (p_assigneeIds params)" "([], [])"]
    by (simp add: getTimeEntries_def)
  have one: "length (snd (scanPages h respond params a offset 0 0 None acc [])) \<le> 200"
    using scanPages_length [of h respond params a offset 0 0 None acc "[]"] by simp
  have numeric: "nextPagination payload page =
      (if nextPage \<le> page then StopScan else GoToPage nextPage)"
    if "\<not> hasCursor payload" "field payload ''next_page'' = Some (JNum nextPage)"
    using that by (simp add: nextPagination_no_cursor pageSignal_def)
  have stop: "scanPages h respond params a offset guard page cursor acc xs =
        (Inr (foldl (addRawEntry h) acc (rawEntries payload)),
         xs @ [(pageRequest params a page cursor, Inr payload)])"
    if "guard < 200" "respond (offset + length xs) (pageRequest params a page cursor) = Inr payload"
      "payload \<noteq> JNull" "\<not> hasCursor payload"
      "field payload ''next_page'' = Some (JNum nextPage)" "nextPage \<le> page"
    using scanPages_stop [where respond = respond and offset = offset and xs = xs,
        OF that(1,2,3)] numeric [OF that(4,5)] that(6)
    by simp
  have fallback: "nextPagination payload page =
        (case field payload ''last_page'' of
           Some (JNum lastPage) \<Rightarrow> if page < lastPage then GoToPage (page + 1) else StopScan
         | _ \<Rightarrow> StopScan)"
    if "\<not> hasCursor payload" "\<forall>n. field payload ''next_page'' \<noteq> Some (JNum n)"
    using that by (auto simp: nextPagination_no_cursor pageSignal_def
        split: option.splits json.splits)
  show ?thesis
    apply (intro conjI)
    subgoal by (rule all)
    subgoal by (rule one)
    subgoal using stop by blast
    subgoal using numeric by blast
    subgoal using fallback by blast
    done
qed

theorem scan_stops_within_200_requests_witness:
  "respond_same_page 0 (pageRequest params_example None 0 None) =
     Inr (JObj [(''data'', JArr []), (''next_page'', JNum 0)]) \<and>
   \<not> hasCursor (JObj [(''data'', JArr []), (''next_page'', JNum 0)]) \<and>
   scanPages host_example respond_same_page params_example None 0 0 0 None ([], []) [] =
     (Inr ([], []),
      [(pageRequest params_example None 0 None,
        Inr (JObj [(''data'', JArr []), (''next_page'', JNum 0)]))]) \<and>
   length (snd (scanPages host_example respond_cursor_forever params_example None 0 0 0 None
     ([], []) [])) = 200 \<and>
   nextPagination (JObj [(''data'', JArr []), (''next_page'', JNum 0)]) 0 = StopScan \<and>
   nextPagination (JObj [(''data'', JArr []), (''next_page'', JNum 1)]) 0 = GoToPage 1 \<and>
   nextPagination (JObj [(''data'', JArr []), (''last_page'', JNum 3)]) 1 = GoToPage 2 \<and>
   nextPagination (JObj [(''data'', JArr []), (''last_page'', JNum 3)]) 3 = StopScan \<and>
   nextPagination (JObj [(''data'', JArr [])]) 0 = StopScan"
proof -
  let ?payload = "JObj [(''data'', JArr []), (''next_page'', JNum 0)]"
  let ?next = "JObj [(''data'', JArr []), (''next_page'', JNum 1)]"
  let ?last = "JObj [(''data'', JArr []), (''last_page'', JNum 3)]"
  let ?bare = "JObj [(''data'', JArr [])]"
  have response: "respond_same_page (0 + length []) (pageRequest params_example None 0 None) =
      Inr ?payload"
    by (simp add: respond_same_page_def)
  have facts: "?payload \<noteq> JNull" "\<not> hasCursor ?payload"
    "field ?payload ''next_page'' = Some (JNum 0)" "(0::nat) < 200" "(0::real) \<le> 0"
    by (simp_all add: hasCursor_def)
  have entries: "foldl (addRawEntry host_example) ([], []) (rawEntries ?payload) = ([], [])"
    by (simp add: rawEntries_def)
  note stop = scan_stops_within_200_requests [where respond = respond_same_page and offset = 0
      and xs = "[]" and guard = 0 and payload = ?payload and nextPage = 0 and page = 0
      and cursor = None and params = params_example and a = None and h = host_example
      and acc = "([], [])"]
  from stop response facts
  have scan: "scanPages host_example respond_same_page params_example None 0 0 0 None ([], []) [] =
      (Inr (foldl (addRawEntry host_example) ([], []) (rawEntries ?payload)),
       [] @ [(pageRequest params_example None 0 None, Inr ?payload)])"
    by blast
  from stop facts have same: "nextPagination ?payload 0 = StopScan"
    by simp
  have larger: "\<not> hasCursor ?next" "field ?next ''next_page'' = Some (JNum 1)"
    by (simp_all add: hasCursor_def)
  from scan_stops_within_200_requests [where payload = ?next and nextPage = 1 and page = 0]
    larger
  have advance: "nextPagination ?next 0 = GoToPage 1"
    by simp
  have absent: "\<not> hasCursor ?last" "\<forall>n. field ?last ''next_page'' \<noteq> Some (JNum n)"
    "field ?last ''last_page'' = Some (JNum 3)"
    "\<not> hasCursor ?bare" "\<forall>n. field ?bare ''next_page'' \<noteq> Some (JNum n)"
    "field ?bare ''last_page'' = None"
    by (simp_all add: hasCursor_def)
  from scan_stops_within_200_requests [where payload = ?last and page = 1] absent
  have before: "nextPagination ?last 1 = GoToPage 2"
    by simp
  from scan_stops_within_200_requests [where payload = ?last and page = 3] absent
  have at_last: "nextPagination ?last 3 = StopScan"
    by simp
  from scan_stops_within_200_requests [where payload = ?bare and page = 0] absent
  have bare: "nextPagination ?bare 0 = StopScan"
    by simp
  from scan entries response facts same advance before at_last bare
    scan_cursor_forever [of host_example params_example None 0 0 0 None "([], [])" "[]"]
  show ?thesis by simp
qed

section \<open>Properties of the orchestrator and the batch coordinator\<close>

lemma mset_insertAlert: "mset (insertAlert h a bs) = add_mset a (mset bs)"
  by (induction bs) simp_all

lemma mset_foldl_insertAlert:
  "mset (foldl (\<lambda>sorted a. insertAlert h a sorted) acc as) = mset acc + mset as"
  by (induction as arbitrary: acc) (simp_all add: mset_insertAlert)

lemma mset_sortAlerts: "mset (sortAlerts h alerts) = mset alerts"
  by (simp add: sortAlerts_def mset_foldl_insertAlert)

lemma mset_sortByOrder: "mset (sortByOrder h alerts) = mset alerts"
  by (simp add: sortByOrder_def mset_sortAlerts)

lemma sortByOrder_Nil_iff: "sortByOrder h alerts = [] \<longleftrightarrow> alerts = []"
  by (metis mset_sortByOrder mset_zero_iff)

lemma refreshTry_id:
  "refreshTry h e alert override w = (Inr result, w') \<Longrightarrow> alert_id (ra_alert result) = alert_id alert"
  by (auto simp: refreshTry_def withSnapshot_def readClock_def readInstant_def
      client_getScopeTree_def client_getTimeEntries_def
      split: option.splits sum.splits prod.splits)

lemma refreshSingleAlert_id:
  "alert_id (ra_alert (fst (refreshSingleAlert h e alert override w))) = alert_id alert"
proof (cases "alert_active alert")
  case False
  then show ?thesis
    by (simp add: refreshSingleAlert_def withSnapshot_def readClock_def)
next
  case True
  obtain r w1 where run: "refreshTry h e alert override w = (r, w1)"
    by (cases "refreshTry h e alert override w") auto
  show ?thesis
  proof (cases r)
    case (Inl err)
    with True run show ?thesis
      by (simp add: refreshSingleAlert_def withSnapshot_def readClock_def Let_def)
  next
    case (Inr result)
    with True run refreshTry_id [of h e alert override w result w1] show ?thesis
      by (simp add: refreshSingleAlert_def)
  qed
qed

lemma refreshLoop_ids:
  "map (\<lambda>r. alert_id (ra_alert r)) (fst (refreshLoop h e alerts results cache w)) =
     map (\<lambda>r. alert_id (ra_alert r)) results @ map alert_id alerts"
proof (induction alerts arbitrary: results cache w)
  case Nil
  show ?case by simp
next
  case (Cons alert rest)
  show ?case
    using refreshSingleAlert_id [of h e alert None]
    by (simp add: Cons.IH refreshSingleAlert_call_def split: option.splits sum.splits prod.splits)
       (metis fst_conv)
qed


lemma refreshAllInternal_ids:
  "refreshAllInternal h e alerts w = (Inr results, w') \<Longrightarrow>
     map (\<lambda>r. alert_id (ra_alert r)) results = map alert_id (sortAlerts h alerts)"
proof -
  assume run: "refreshAllInternal h e alerts w = (Inr results, w')"
  then obtain w1 where "results = fst (refreshLoop h e (sortAlerts h alerts) [] Map.empty w1)"
    by (auto simp: refreshAllInternal_def withClient_def Let_def
        split: prod.splits sum.splits if_splits) (metis fst_conv)
  then show ?thesis
    using refreshLoop_ids [of h e "sortAlerts h alerts" "[]" Map.empty w1] by simp
qed

lemma refreshAllInternal_error_is_fault_or_setup:
  "refreshAllInternal h e alerts w = (Inl err, w') \<Longrightarrow>
     (\<exists>n. env_storeFault e n = Some err) \<or>
     (err = OtherError ''No ClickUp token configured. Add a token in settings first.'' \<and>
      w_calls w' = w_calls w \<and> w_alerts w' = w_alerts w \<and> w_tick w' = w_tick w + 1)"
  by (auto simp: refreshAllInternal_def withClient_def Let_def store_getToken_def
      store_setAlerts_def split: prod.splits sum.splits if_splits option.splits)

lemma refreshAllInternal_no_token:
  "env_storeFault e (w_tick w) = None \<Longrightarrow> \<not> truthy (w_token w) \<Longrightarrow>
     refreshAllInternal h e alerts w =
       (Inl (OtherError ''No ClickUp token configured. Add a token in settings first.''),
        w\<lparr>w_tick := w_tick w + 1\<rparr>)"
  by (simp add: refreshAllInternal_def withClient_def store_getToken_def)

lemma failedResults_facts:
  "map (\<lambda>r. alert_id (ra_alert r)) (fst (failedResults h e message nowIso alerts w)) =
     map alert_id alerts \<and>
   (\<forall>r \<in> set (fst (failedResults h e message nowIso alerts w)). isFailedWith message r) \<and>
   w_tick (snd (failedResults h e message nowIso alerts w)) = w_tick w + length alerts \<and>
   w_calls (snd (failedResults h e message nowIso alerts w)) = w_calls w \<and>
   w_alerts (snd (failedResults h e message nowIso alerts w)) = w_alerts w \<and>
   w_token (snd (failedResults h e message nowIso alerts w)) = w_token w"
proof (induction alerts arbitrary: w)
  case Nil
  show ?case by simp
next
  case (Cons alert rest)
  let ?w1 = "w\<lparr>w_tick := Suc (w_tick w)\<rparr>"
  obtain results w2 where rest: "failedResults h e message nowIso rest ?w1 = (results, w2)"
    by (cases "failedResults h e message nowIso rest ?w1") auto
  have head: "isFailedWith message
      \<lparr> ra_alert =
          alert\<lparr> alert_lastRefreshedAt := Some nowIso, alert_updatedAt := nowIso,
                 alert_lastSnapshot := Some (buildErrorSnapshot alert message t) \<rparr>,
        ra_success = False, ra_errorMessage = Some message \<rparr>" for t
    by (simp add: isFailedWith_def buildErrorSnapshot_def)
  show ?case
    using Cons.IH [of ?w1, unfolded rest] head
    by (simp add: readClock_def rest)
qed

lemma handler_catch:
  assumes alerts: "store_getAlerts h e w = (Inr alerts, w1)" "alerts \<noteq> []"
    and fails: "refreshAllInternal h e alerts w1 = (Inl err, w2)"
    and wok: "env_storeFault e (w_tick w2 + 1 + length alerts) = None"
  shows "\<exists>results w'. refreshAllHandler h e w = (Inr results, w') \<and>
    map (\<lambda>r. alert_id (ra_alert r)) results = map alert_id alerts \<and>
    (\<forall>r \<in> set results. isFailedWith (errorMessageOf err) r) \<and>
    w_alerts w' = sortByOrder h (sortByOrder h (map ra_alert results)) \<and>
    w_calls w' = w_calls w2"
proof -
  let ?msg = "errorMessageOf err"
  let ?w3 = "w2\<lparr>w_tick := w_tick w2 + 1\<rparr>"
  let ?now = "host_toISOString h (env_clock e (w_tick w2))"
  obtain failed w4 where f: "failedResults h e ?msg ?now alerts ?w3 = (failed, w4)"
    by (cases "failedResults h e ?msg ?now alerts ?w3") auto
  note facts = failedResults_facts [of h e ?msg ?now alerts ?w3, unfolded f, simplified]
  have tick: "w_tick w4 = w_tick w2 + 1 + length alerts" using facts by simp
  have "refreshAllHandler h e w =
      (Inr failed, w4\<lparr>w_tick := w_tick w4 + 1,
         w_alerts := sortByOrder h (sortByOrder h (map ra_alert failed))\<rparr>)"
    using alerts fails f wok tick
    by (simp add: refreshAllHandler_def Let_def readClock_def store_setAlerts_def
        errorMessageOf_def)
  with facts show ?thesis by simp
qed

text \<open>
  C3 (amended). The only errors that leave the batch refresh call are failures of the
  store itself (the read of the alerts before the \<open>try\<close>, the write of the error set in
  the \<open>catch\<close> block); every error of batch setup or of the refresh is absorbed.
  Whenever the call returns, it returns exactly one result per stored alert. When
  \<open>refreshAllInternal\<close> throws (for instance because no token is configured, before any
  per-alert refresh begins) and the store write succeeds, every alert of the input gets
  a failed result (\<open>success = false\<close>, the failure message, an error snapshot carrying
  the message), and that full set is what is persisted and returned; without a token no
  client call is made.
\<close>

theorem refreshAllHandler_total_unless_store_fails:
  "(\<forall>err. fst (refreshAllHandler h e w) = Inl err \<longrightarrow> (\<exists>n. env_storeFault e n = Some err)) \<and>
   (\<forall>results. fst (refreshAllHandler h e w) = Inr results \<longrightarrow>
      mset (map (\<lambda>r. alert_id (ra_alert r)) results) = mset (map alert_id (w_alerts w))) \<and>
   (\<forall>alerts w1 err w2.
      store_getAlerts h e w = (Inr alerts, w1) \<and> alerts \<noteq> [] \<and>
      refreshAllInternal h e alerts w1 = (Inl err, w2) \<and>
      env_storeFault e (w_tick w2 + 1 + length alerts) = None \<longrightarrow>
      (\<exists>results w'. refreshAllHandler h e w = (Inr results, w') \<and>
         map (\<lambda>r. alert_id (ra_alert r)) results = map alert_id alerts \<and>
         (\<forall>r \<in> set results. isFailedWith (errorMessageOf err) r) \<and>
         w_alerts w' = sortByOrder h (sortByOrder h (map ra_alert results)) \<and>
         w_calls w' = w_calls w2)) \<and>
   ((\<forall>n. env_storeFault e n = None) \<and> w_alerts w \<noteq> [] \<and> \<not> truthy (w_token w) \<longrightarrow>
      (\<exists>results w'. refreshAllHandler h e w = (Inr results, w') \<and>
         map (\<lambda>r. alert_id (ra_alert r)) results = map alert_id (sortByOrder h (w_alerts w)) \<and>
         (\<forall>r \<in> set results.
            isFailedWith ''No ClickUp token configured. Add a token in settings first.'' r) \<and>
         w_alerts w' = sortByOrder h (sortByOrder h (map ra_alert results)) \<and>
         w_calls w' = w_calls w))"
proof -
  let ?alerts = "sortByOrder h (w_alerts w)"
  let ?w1 = "w\<lparr>w_tick := w_tick w + 1\<rparr>"
  have escape: "\<exists>n. env_storeFault e n = Some err" if "fst (refreshAllHandler h e w) = Inl err" for err
    using that
    by (auto simp: refreshAllHandler_def store_getAlerts_def store_setAlerts_def Let_def
        split: prod.splits sum.splits if_splits option.splits)
  have count: "mset (map (\<lambda>r. alert_id (ra_alert r)) results) = mset (map alert_id (w_alerts w))"
    if ok: "fst (refreshAllHandler h e w) = Inr results" for results
  proof (cases "env_storeFault e (w_tick w)")
    case (Some err)
    with ok show ?thesis by (simp add: refreshAllHandler_def store_getAlerts_def)
  next
    case None
    then have get: "store_getAlerts h e w = (Inr ?alerts, ?w1)"
      by (simp add: store_getAlerts_def)
    have ids: "mset (map alert_id ?alerts) = mset (map alert_id (w_alerts w))"
      by (metis mset_map mset_sortByOrder)
    show ?thesis
    proof (cases "?alerts = []")
      case True
      with ok get ids show ?thesis by (simp add: refreshAllHandler_def)
    next
      case False
      obtain r w2 where run: "refreshAllInternal h e ?alerts ?w1 = (r, w2)"
        by (cases "refreshAllInternal h e ?alerts ?w1") auto
      show ?thesis
      proof (cases r)
        case (Inr rs)
        with ok get False run have "results = rs" by (simp add: refreshAllHandler_def)
        with refreshAllInternal_ids [OF run [unfolded Inr]]
        have "mset (map (\<lambda>r. alert_id (ra_alert r)) results) =
            mset (map alert_id (sortAlerts h ?alerts))" by simp
        also have "\<dots> = mset (map alert_id ?alerts)" by (metis mset_map mset_sortAlerts)
        finally show ?thesis using ids by simp
      next
        case (Inl err)
        let ?msg = "errorMessageOf err"
        let ?w3 = "w2\<lparr>w_tick := w_tick w2 + 1\<rparr>"
        let ?now = "host_toISOString h (env_clock e (w_tick w2))"
        obtain failed w4 where f: "failedResults h e ?msg ?now ?alerts ?w3 = (failed, w4)"
          by (cases "failedResults h e ?msg ?now ?alerts ?w3") auto
        note facts = failedResults_facts [of h e ?msg ?now ?alerts ?w3, unfolded f, simplified]
        have "results = failed"
          using ok get False run Inl f
          by (auto simp: refreshAllHandler_def Let_def readClock_def errorMessageOf_def
              split: prod.splits sum.splits)
        with facts ids show ?thesis by simp
      qed
    qed
  qed
  have no_token: "\<exists>results w'. refreshAllHandler h e w = (Inr results, w') \<and>
         map (\<lambda>r. alert_id (ra_alert r)) results = map alert_id (sortByOrder h (w_alerts w)) \<and>
         (\<forall>r \<in> set results.
            isFailedWith ''No ClickUp token configured. Add a token in settings first.'' r) \<and>
         w_alerts w' = sortByOrder h (sortByOrder h (map ra_alert results)) \<and>
         w_calls w' = w_calls w"
    if "\<forall>n. env_storeFault e n = None" "w_alerts w \<noteq> []" "\<not> truthy (w_token w)"
  proof -
    have get: "store_getAlerts h e w = (Inr ?alerts, ?w1)"
      using that(1) by (simp add: store_getAlerts_def)
    have nonempty: "?alerts \<noteq> []" using that(2) by (simp add: sortByOrder_Nil_iff)
    have fails: "refreshAllInternal h e ?alerts ?w1 =
        (Inl (OtherError ''No ClickUp token configured. Add a token in settings first.''),
         ?w1\<lparr>w_tick := w_tick ?w1 + 1\<rparr>)"
      using that(1,3) by (intro refreshAllInternal_no_token) simp_all
    from handler_catch [OF get nonempty fails] that(1)
    show ?thesis by (simp add: errorMessageOf_def)
  qed
  show ?thesis
    apply (intro conjI)
    subgoal using escape by blast
    subgoal using count by blast
    subgoal using handler_catch by blast
    subgoal using no_token by blast
    done
qed


lemma sort_one: "sortAlerts h [a] = [a]" "sortByOrder h [a] = [a]"
  by (simp_all add: sortByOrder_def sortAlerts_def)

theorem refreshAllHandler_total_unless_store_fails_witness:
  "(\<forall>n. env_storeFault env_example n = None) \<and> w_alerts world_no_token \<noteq> [] \<and>
   \<not> truthy (w_token world_no_token) \<and>
   (\<exists>results w'. refreshAllHandler host_example env_example world_no_token = (Inr results, w') \<and>
      map (\<lambda>r. alert_id (ra_alert r)) results = [''a1''] \<and>
      list_all (isFailedWith ''No ClickUp token configured. Add a token in settings first.'')
        results \<and>
      w_alerts w' = map ra_alert results \<and> w_calls w' = []) \<and>
   fst (refreshAllHandler host_example env_disk_full world_no_token) =
     Inl (OtherError ''ENOSPC: no space left on device, write'') \<and>
   (\<exists>n. env_storeFault env_disk_full n = Some (OtherError ''ENOSPC: no space left on device, write''))"
proof -
  have hyps: "\<forall>n. env_storeFault env_example n = None" "w_alerts world_no_token \<noteq> []"
    "\<not> truthy (w_token world_no_token)"
    by (simp_all add: env_example_def world_no_token_def)
  have ids: "map alert_id (sortByOrder host_example (w_alerts world_no_token)) = [''a1'']"
    by (simp add: world_no_token_def sort_one alert_50h_def)
  have calls: "w_calls world_no_token = []"
    by (simp add: world_no_token_def)
  have single: "sortByOrder host_example (sortByOrder host_example (map ra_alert results)) =
      map ra_alert results" if "map (\<lambda>r. alert_id (ra_alert r)) results = [''a1'']" for results
  proof -
    from that obtain r where "results = [r]" by (cases results) auto
    then show ?thesis by (simp add: sort_one)
  qed
  have full: "fst (refreshAllHandler host_example env_disk_full world_no_token) =
      Inl (OtherError ''ENOSPC: no space left on device, write'')"
    by (simp add: refreshAllHandler_def refreshAllInternal_def withClient_def store_getAlerts_def
        store_getToken_def store_setAlerts_def readClock_def env_disk_full_def env_example_def
        world_no_token_def sort_one Let_def)
  from refreshAllHandler_total_unless_store_fails [of host_example env_disk_full world_no_token]
    full
  have fault: "\<exists>n. env_storeFault env_disk_full n =
      Some (OtherError ''ENOSPC: no space left on device, write'')"
    by blast
  from refreshAllHandler_total_unless_store_fails [of host_example env_example world_no_token]
    hyps
  obtain results w' where
    "refreshAllHandler host_example env_example world_no_token = (Inr results, w')"
    "map (\<lambda>r. alert_id (ra_alert r)) results =
       map alert_id (sortByOrder host_example (w_alerts world_no_token))"
    "\<forall>r \<in> set results.
       isFailedWith ''No ClickUp token configured. Add a token in settings first.'' r"
    "w_alerts w' = sortByOrder host_example (sortByOrder host_example (map ra_alert results))"
    "w_calls w' = w_calls world_no_token"
    by blast
  with ids calls single hyps full fault show ?thesis
    by (auto simp: list_all_iff sort_one)
qed

text \<open>The unamended statement of C3 does not hold when the store cannot be written:
  without a token and with a full disk the handler throws the error of the write.\<close>

theorem refreshAllHandler_store_failure_counterexample:
  "w_alerts world_no_token = [alert_50h] \<and>
   fst (refreshAllHandler host_example env_disk_full world_no_token) =
     Inl (OtherError ''ENOSPC: no space left on device, write'')"
  by (simp add: refreshAllHandler_def refreshAllInternal_def withClient_def store_getAlerts_def
      store_getToken_def store_setAlerts_def readClock_def env_disk_full_def env_example_def
      world_no_token_def sort_one Let_def)

text \<open>
  C5. The batch coordinator looks up the team members (here the ids 42 and 43) and
  passes them as fourth argument, but \<open>refreshSingleAlert\<close> has no fourth parameter: for
  an active alert whose team and folder exist, \<open>getTimeEntries\<close> is called without
  \<open>assigneeIds\<close>.
\<close>

theorem refreshSingleAlert_drops_teamMemberIds:
  "env_getTeamMemberIds env_example 2 ''t1'' = Inr [''42'', ''43''] \<and>
   w_calls (snd (refreshAllHandler host_example env_example world_with_token)) =
     [GetTeamMemberIds ''t1'', GetScopeTree,
      GetTimeEntries
        \<lparr> p_teamId = ''t1'', p_startMs = None, p_endMs = None, p_folderId = Some ''f1'',
          p_listId = None, p_assigneeIds = None \<rparr>]"
  by (simp add: refreshAllHandler_def refreshAllInternal_def withClient_def store_getAlerts_def
      store_getToken_def store_setAlerts_def readClock_def readInstant_def env_example_def
      world_with_token_def world_no_token_def sort_one Let_def refreshSingleAlert_call_def
      refreshSingleAlert_def refreshTry_def client_getTeamMemberIds_def client_getScopeTree_def
      client_getTimeEntries_def getScopeWarning_def tree_example_def usesFolder_def usesList_def
      timeEntriesParams_def computeTimeRange_def alert_50h_def)

section \<open>Properties of the entry aggregator\<close>

lemma uniqIds_Nil_iff:
  "uniqIds ids = [] \<longleftrightarrow> (\<forall>i \<in> set (nullish ids []). trim i = [])"
  by (auto simp: uniqIds_def newSet_Nil_iff filter_empty_conv)

lemma applyEntryFilters_None_iff:
  assumes "entry_taskId e = None"
  shows "e \<in> set (applyEntryFilters alert entries) \<longleftrightarrow>
           e \<in> set entries \<and> uniqIds (alert_includeOnlyTaskIds alert) = []"
  using assms by (auto simp: applyEntryFilters_def Let_def newSet_Nil_iff)

text \<open>
  C9 (amended). An entry whose task id is absent survives \<open>applyEntryFilters\<close> if and
  only if the include-only set that the function builds from \<open>includeOnlyTaskIds\<close> (ids
  trimmed, blank ids left out) is empty, that is, if and only if every id of
  \<open>includeOnlyTaskIds\<close> is blank: whenever the field holds an id that is not blank the
  entry is dropped. The list of excluded task ids has no influence on such an entry.
\<close>

theorem applyEntryFilters_absent_taskId:
  "entry_taskId e = None \<Longrightarrow>
     (e \<in> set (applyEntryFilters alert entries) \<longleftrightarrow>
        e \<in> set entries \<and> uniqIds (alert_includeOnlyTaskIds alert) = []) \<and>
     (uniqIds (alert_includeOnlyTaskIds alert) = [] \<longleftrightarrow>
        (\<forall>i \<in> set (nullish (alert_includeOnlyTaskIds alert) []). trim i = [])) \<and>
     ((\<exists>i \<in> set (nullish (alert_includeOnlyTaskIds alert) []). trim i \<noteq> []) \<longrightarrow>
        e \<notin> set (applyEntryFilters alert entries)) \<and>
     (e \<in> set (applyEntryFilters (alert\<lparr>alert_excludedTaskIds := xs\<rparr>) entries) \<longleftrightarrow>
        e \<in> set (applyEntryFilters alert entries))"
proof -
  assume absent: "entry_taskId e = None"
  have blank: "uniqIds (alert_includeOnlyTaskIds alert) = [] \<longleftrightarrow>
      (\<forall>i \<in> set (nullish (alert_includeOnlyTaskIds alert) []). trim i = [])"
    by (rule uniqIds_Nil_iff)
  have member: "e \<in> set (applyEntryFilters a entries) \<longleftrightarrow>
      e \<in> set entries \<and> uniqIds (alert_includeOnlyTaskIds a) = []" for a
    using absent by (rule applyEntryFilters_None_iff)
  have dropped: "(\<exists>i \<in> set (nullish (alert_includeOnlyTaskIds alert) []). trim i \<noteq> []) \<longrightarrow>
      e \<notin> set (applyEntryFilters alert entries)"
    using member [of alert] blank by blast
  have excluded: "e \<in> set (applyEntryFilters (alert\<lparr>alert_excludedTaskIds := xs\<rparr>) entries) \<longleftrightarrow>
      e \<in> set (applyEntryFilters alert entries)"
    by (simp add: member)
  from member [of alert] blank dropped excluded show ?thesis by blast
qed

theorem applyEntryFilters_absent_taskId_witness:
  "entry_taskId (entry_of ''e1'' None 60000) = None \<and>
   entry_of ''e1'' None 60000 \<notin>
     set (applyEntryFilters alert_include_only [entry_of ''e1'' None 60000]) \<and>
   entry_of ''e1'' None 60000 \<in> set (applyEntryFilters alert_50h [entry_of ''e1'' None 60000]) \<and>
   alert_includeOnlyTaskIds alert_blank_include = Some ['' ''] \<and>
   entry_of ''e1'' None 60000 \<in>
     set (applyEntryFilters alert_blank_include [entry_of ''e1'' None 60000])"
proof -
  have absent: "entry_taskId (entry_of ''e1'' None 60000) = None"
    by (simp add: entry_of_def)
  have inc: "uniqIds (alert_includeOnlyTaskIds alert_include_only) = [''t1'']"
    by (simp add: alert_include_only_def alert_50h_def uniqIds_def newSet_def trim_def
        isWhiteSpace_def)
  have none: "uniqIds (alert_includeOnlyTaskIds alert_50h) = []"
    by (simp add: alert_50h_def uniqIds_def newSet_def)
  have blank: "alert_includeOnlyTaskIds alert_blank_include = Some ['' '']"
    "uniqIds (alert_includeOnlyTaskIds alert_blank_include) = []"
    by (simp_all add: alert_blank_include_def uniqIds_def newSet_def trim_def isWhiteSpace_def)
  show ?thesis
    using applyEntryFilters_absent_taskId
        [OF absent, of alert_include_only "[entry_of ''e1'' None 60000]" "[]"]
      applyEntryFilters_absent_taskId
        [OF absent, of alert_50h "[entry_of ''e1'' None 60000]" "[]"]
      applyEntryFilters_absent_taskId
        [OF absent, of alert_blank_include "[entry_of ''e1'' None 60000]" "[]"]
      absent inc none blank
    by simp
qed

text \<open>The unamended statement of C9 does not hold for an include-only list that is not
  empty and holds only blank ids: the entry without task id survives.\<close>

theorem applyEntryFilters_blank_include_counterexample:
  "alert_includeOnlyTaskIds alert_blank_include = Some ['' ''] \<and>
   entry_taskId (entry_of ''e1'' None 60000) = None \<and>
   applyEntryFilters alert_blank_include [entry_of ''e1'' None 60000] =
     [entry_of ''e1'' None 60000]"
  by (simp add: alert_blank_include_def alert_50h_def entry_of_def applyEntryFilters_def
      uniqIds_def newSet_def trim_def isWhiteSpace_def)

text \<open>
  C6 (amended). \<open>buildErrorSnapshot\<close> returns a snapshot with status \<open>error\<close> that carries
  the message. Its \<open>budgetHours\<close> is always the alert's current budget. When the alert has
  a previous snapshot, \<open>hoursUsed\<close>, \<open>remainingHours\<close>, \<open>overByHours\<close>, \<open>percentUsed\<close>,
  \<open>entryCount\<close> and \<open>scopeSummary\<close> are carried forward from it; when it has none,
  \<open>remainingHours\<close> is the alert's budget, the other four figures are 0 and the scope
  summary is computed from the alert.
\<close>

theorem buildErrorSnapshot_carries_forward:
  "snap_status (buildErrorSnapshot alert msg now) = ErrorStatus \<and>
   snap_errorMessage (buildErrorSnapshot alert msg now) = Some msg \<and>
   snap_budgetHours (buildErrorSnapshot alert msg now) = alert_budgetHours alert \<and>
   (\<forall>prev. alert_lastSnapshot alert = Some prev \<longrightarrow>
      snap_hoursUsed (buildErrorSnapshot alert msg now) = snap_hoursUsed prev \<and>
      snap_remainingHours (buildErrorSnapshot alert msg now) = snap_remainingHours prev \<and>
      snap_overByHours (buildErrorSnapshot alert msg now) = snap_overByHours prev \<and>
      snap_percentUsed (buildErrorSnapshot alert msg now) = snap_percentUsed prev \<and>
      snap_entryCount (buildErrorSnapshot alert msg now) = snap_entryCount prev \<and>
      snap_scopeSummary (buildErrorSnapshot alert msg now) = snap_scopeSummary prev) \<and>
   (alert_lastSnapshot alert = None \<longrightarrow>
      snap_hoursUsed (buildErrorSnapshot alert msg now) = 0 \<and>
      snap_remainingHours (buildErrorSnapshot alert msg now) = alert_budgetHours alert \<and>
      snap_overByHours (buildErrorSnapshot alert msg now) = 0 \<and>
      snap_percentUsed (buildErrorSnapshot alert msg now) = 0 \<and>
      snap_entryCount (buildErrorSnapshot alert msg now) = 0 \<and>
      snap_scopeSummary (buildErrorSnapshot alert msg now) = resolveScopeSummary alert)"
  by (simp add: buildErrorSnapshot_def)

theorem buildErrorSnapshot_carries_forward_witness:
  "alert_lastSnapshot alert_edited = Some snapshot_prev \<and>
   snap_hoursUsed (buildErrorSnapshot alert_edited ''Network error'' ''now'') = 4167 / 100 \<and>
   snap_remainingHours (buildErrorSnapshot alert_edited ''Network error'' ''now'') = 833 / 100 \<and>
   snap_entryCount (buildErrorSnapshot alert_edited ''Network error'' ''now'') = 1 \<and>
   alert_lastSnapshot alert_50h = None \<and>
   snap_remainingHours (buildErrorSnapshot alert_50h ''Network error'' ''now'') = 50 \<and>
   snap_scopeSummary (buildErrorSnapshot alert_50h ''Network error'' ''now'') =
     ''Folder: Design | Cumulative''"
proof -
  have prev: "alert_lastSnapshot alert_edited = Some snapshot_prev"
    by (simp add: alert_edited_def)
  have none: "alert_lastSnapshot alert_50h = None"
    by (simp add: alert_50h_def)
  have summary: "resolveScopeSummary alert_50h = ''Folder: Design | Cumulative''"
    by (simp add: resolveScopeSummary_def alert_50h_def)
  have budget: "alert_budgetHours alert_50h = 50"
    by (simp add: alert_50h_def)
  show ?thesis
    using buildErrorSnapshot_carries_forward [of alert_edited "''Network error''" "''now''"]
      buildErrorSnapshot_carries_forward [of alert_50h "''Network error''" "''now''"]
      prev none summary budget
    by (simp add: snapshot_prev_def)
qed

text \<open>The unamended statement of C6 does not hold for \<open>budgetHours\<close>: after the budget was
  edited from 50 to 60 hours, the error snapshot shows 60, not the 50 of the previous
  snapshot.\<close>

theorem buildErrorSnapshot_budget_counterexample:
  "alert_lastSnapshot alert_edited = Some snapshot_prev \<and>
   snap_budgetHours snapshot_prev = 50 \<and>
   snap_budgetHours (buildErrorSnapshot alert_edited ''Network error'' ''now'') = 60"
  by (simp add: alert_edited_def snapshot_prev_def buildErrorSnapshot_def)

lemma roundHours_zero: "roundHours 0 = 0"
  by (simp add: roundHours_def Math_round_def fl_zero)

lemma sum_list_map_nonneg:
  fixes f :: "'a \<Rightarrow> real"
  shows "\<forall>e \<in> set es. 0 \<le> f e \<Longrightarrow> 0 \<le> sum_list (map f es)"
  by (induction es) simp_all

text \<open>The sum that \<open>buildSnapshot\<close> accumulates in doubles stays close to the exact sum
  of the hours: each of the two roundings of a step adds an error of at most
  \<open>2 ^ -53\<close> relative to a bound \<open>B\<close> of the sum.\<close>

lemma sum_error:
  fixes f :: "'a \<Rightarrow> real" and B :: real
  assumes "\<forall>e \<in> set es. 0 \<le> f e" and "1 \<le> B" and "0 \<le> A"
    and "A + sum_list (map f es) / 3600000 \<le> B"
    and "\<bar>acc - A\<bar> \<le> E" and "0 \<le> E"
    and "E + 7 * B * real (length es) / 2 ^ 53 \<le> 1"
  shows "\<bar>foldl (\<lambda>sum e. fl (sum + fl (f e / 3600000))) acc es -
      (A + sum_list (map f es) / 3600000)\<bar> \<le> E + 7 * B * real (length es) / 2 ^ 53"
  using assms
proof (induction es arbitrary: acc A E)
  case Nil
  then show ?case by simp
next
  case (Cons e es)
  let ?u = "(1::real) / 2 ^ 53"
  let ?q = "f e / 3600000"
  let ?rest = "sum_list (map f es) / 3600000"
  let ?a = "acc + fl ?q"
  have q: "0 \<le> ?q" using Cons.prems(1) by simp
  have rest: "0 \<le> ?rest" using Cons.prems(1) sum_list_map_nonneg [of es f] by simp
  have total: "A + ?q + ?rest \<le> B" using Cons.prems(4) by (simp add: add_divide_distrib)
  have budget: "E + 7 * B * ?u + 7 * B * real (length es) * ?u \<le> 1"
    using Cons.prems(7) by (simp add: algebra_simps add_divide_distrib)
  have Bu: "0 \<le> B * ?u" using Cons.prems(2) by simp
  have rest_u: "0 \<le> 7 * B * real (length es) * ?u" using Cons.prems(2) by simp
  have small: "7 * B * ?u \<le> 1" using budget Cons.prems(6) rest_u by linarith
  have one_u: "?u \<le> B * ?u" using Cons.prems(2) by simp
  have E1: "E \<le> 1" using budget Bu rest_u by linarith
  have "\<bar>fl ?q - ?q\<bar> \<le> (\<bar>?q\<bar> + 1) * ?u" using fl_bound [of ?q] by simp
  also have "\<dots> \<le> (B + 1) * ?u"
    using q total rest Cons.prems(3) by (intro mult_right_mono) auto
  finally have first: "\<bar>fl ?q - ?q\<bar> \<le> B * ?u + ?u" by (simp add: algebra_simps)
  have near: "\<bar>?a - (A + ?q)\<bar> \<le> E + B * ?u + ?u"
    using first Cons.prems(5) by linarith
  have "\<bar>?a\<bar> \<le> \<bar>A + ?q\<bar> + \<bar>?a - (A + ?q)\<bar>" by linarith
  also have "\<dots> \<le> B + (E + B * ?u + ?u)"
    using near q rest total Cons.prems(3) by linarith
  also have "\<dots> \<le> B + 2" using E1 small one_u Bu by linarith
  finally have size: "\<bar>?a\<bar> \<le> B + 2" .
  have "\<bar>fl ?a - ?a\<bar> \<le> (\<bar>?a\<bar> + 1) * ?u" using fl_bound [of ?a] by simp
  also have "\<dots> \<le> (B + 3) * ?u" using size by (intro mult_right_mono) auto
  finally have second: "\<bar>fl ?a - ?a\<bar> \<le> B * ?u + 3 * ?u" by (simp add: algebra_simps)
  have step: "\<bar>fl ?a - (A + ?q)\<bar> \<le> E + 7 * B * ?u"
    using near second one_u Bu by linarith
  have "\<bar>foldl (\<lambda>sum e. fl (sum + fl (f e / 3600000))) (fl ?a) es - (A + ?q + ?rest)\<bar>
      \<le> E + 7 * B * ?u + 7 * B * real (length es) / 2 ^ 53"
  proof (rule Cons.IH)
    show "\<forall>e \<in> set es. 0 \<le> f e" using Cons.prems(1) by simp
    show "1 \<le> B" by (rule Cons.prems(2))
    show "0 \<le> A + ?q" using Cons.prems(3) q by simp
    show "A + ?q + ?rest \<le> B" by (rule total)
    show "\<bar>fl ?a - (A + ?q)\<bar> \<le> E + 7 * B * ?u" by (rule step)
    show "0 \<le> E + 7 * B * ?u" using Cons.prems(6) Bu by linarith
    show "E + 7 * B * ?u + 7 * B * real (length es) / 2 ^ 53 \<le> 1" using budget by simp
  qed
  then show ?case by (simp add: algebra_simps add_divide_distrib)
qed

text \<open>When a hundred times the exact sum of the hours is farther from \<open>t - 1/2\<close> and
  \<open>t + 1/2\<close> than the accumulated error, the total is rounded to \<open>t\<close> hundredths.\<close>

lemma total_rounds:
  fixes f :: "'a \<Rightarrow> real"
  assumes nonneg: "\<forall>e \<in> set es. 0 \<le> f e"
    and lower: "of_int t - 1 / 2 +
        1000 * max 1 (sum_list (map f es) / 3600000) * (real (length es) + 1) / 2 ^ 53 \<le>
        sum_list (map f es) / 3600000 * 100"
    and upper: "sum_list (map f es) / 3600000 * 100 +
        1000 * max 1 (sum_list (map f es) / 3600000) * (real (length es) + 1) / 2 ^ 53 <
        of_int t + 1 / 2"
  shows "roundHours (foldl (\<lambda>sum e. fl (sum + fl (f e / 3600000))) 0 es) = fl (of_int t / 100)"
proof -
  define S where "S = sum_list (map f es) / 3600000"
  define B where "B = max 1 S"
  define F where "F = foldl (\<lambda>sum e. fl (sum + fl (f e / 3600000))) 0 es"
  define y where "y = fl (F * 100)"
  define v where "v = B * real (length es) / 2 ^ 53"
  define w where "w = B / 2 ^ 53"
  define d where "d = 1000 * B * (real (length es) + 1) / 2 ^ 53"
  have S: "0 \<le> S" using nonneg sum_list_map_nonneg [of es f] by (simp add: S_def)
  have B: "1 \<le> B" "S \<le> B" by (simp_all add: B_def)
  have d: "d = 1000 * v + 1000 * w" by (simp add: d_def v_def w_def algebra_simps add_divide_distrib)
  have low: "of_int t - 1 / 2 + d \<le> S * 100" using lower by (simp add: d_def B_def S_def)
  have up: "S * 100 + d < of_int t + 1 / 2" using upper by (simp add: d_def B_def S_def)
  have v: "0 \<le> v" using B(1) by (simp add: v_def)
  have w: "0 \<le> w" "1 / 2 ^ 53 \<le> w" using B(1) by (simp_all add: w_def divide_right_mono)
  have half: "d < 1 / 2" using low up by linarith
  have seven: "7 * v \<le> 1" using half v w(1) unfolding d by linarith
  have "\<bar>F - (0 + S)\<bar> \<le> 0 + 7 * B * real (length es) / 2 ^ 53"
    unfolding F_def S_def
  proof (rule sum_error)
    show "\<forall>e \<in> set es. 0 \<le> f e" by (rule nonneg)
    show "1 \<le> B" by (rule B(1))
    show "0 + sum_list (map f es) / 3600000 \<le> B" using B(2) by (simp add: S_def)
    show "0 + 7 * B * real (length es) / 2 ^ 53 \<le> 1" using seven by (simp add: v_def)
  qed simp_all
  then have sum: "\<bar>F - S\<bar> \<le> 7 * v" by (simp add: v_def)
  have F1: "\<bar>F\<bar> \<le> B + 1" using sum seven S B(2) by linarith
  have "\<bar>y - F * 100\<bar> \<le> (\<bar>F * 100\<bar> + 1) / 2 ^ 53"
    unfolding y_def by (rule fl_bound)
  also have "\<dots> \<le> (100 * (B + 1) + 1) / 2 ^ 53"
    using F1 by (intro divide_right_mono) (simp_all add: abs_mult)
  also have "\<dots> = 100 * w + 101 * (1 / 2 ^ 53)"
    by (simp add: w_def algebra_simps add_divide_distrib)
  finally have round: "\<bar>y - F * 100\<bar> \<le> 100 * w + 101 * (1 / 2 ^ 53)" .
  have close: "\<bar>y - S * 100\<bar> \<le> d"
    unfolding d using sum round v w by linarith
  have "of_int t - 1 / 2 \<le> y" "y < of_int t + 1 / 2"
    using close low up by linarith+
  then have "\<lfloor>y + 1 / 2\<rfloor> = t" by linarith
  then show ?thesis by (simp add: roundHours_def Math_round_def y_def F_def)
qed

text \<open>Within the range of \<open>inRange\<close> no result of \<open>buildSnapshot\<close> reaches \<open>2 ^ 1024\<close>:
  neither the hours of an entry, nor any of the sums, nor any product, quotient or
  difference of the figures. There \<open>fl\<close> is the rounding of the machine.\<close>

lemma fl_le: "\<bar>x\<bar> \<le> b \<Longrightarrow> 1 \<le> b \<Longrightarrow> \<bar>fl x\<bar> \<le> 2 * b"
proof -
  assume x: "\<bar>x\<bar> \<le> b" and b: "1 \<le> b"
  have "(\<bar>x\<bar> + 1) / 2 ^ 53 \<le> (b + 1) / 2 ^ 53" using x by (simp add: divide_right_mono)
  also have "\<dots> \<le> (b + b) / 2 ^ 53" using b by (simp add: divide_right_mono)
  also have "\<dots> \<le> b" using b by simp
  finally show ?thesis using fl_bound [of x] x by linarith
qed

lemma Math_round_le: "\<bar>x\<bar> \<le> b \<Longrightarrow> 1 \<le> b \<Longrightarrow> \<bar>Math_round x\<bar> \<le> 2 * b"
  unfolding Math_round_def by linarith

lemma hundredfold_le:
  fixes x :: real
  shows "\<bar>x\<bar> \<le> b \<Longrightarrow> \<bar>x * 100\<bar> \<le> 128 * b"
proof -
  assume "\<bar>x\<bar> \<le> b"
  moreover have "\<bar>x * 100\<bar> = 100 * \<bar>x\<bar>" by (simp add: abs_mult)
  ultimately show ?thesis by linarith
qed

lemma sum_magnitude:
  fixes f :: "'a \<Rightarrow> real"
  assumes "\<forall>e \<in> set es. \<bar>f e\<bar> \<le> 2 ^ 500" and "\<bar>acc\<bar> \<le> real k * 2 ^ 481"
    and "k + length es \<le> 2 ^ 32"
  shows "\<bar>foldl (\<lambda>sum e. fl (sum + fl (f e / 3600000))) acc es\<bar> \<le>
    real (k + length es) * 2 ^ 481"
  using assms
proof (induction es arbitrary: acc k)
  case Nil
  then show ?case by simp
next
  case (Cons e es)
  let ?M = "(2::real) ^ 480"
  let ?a = "acc + fl (f e / 3600000)"
  have "\<bar>f e / 3600000\<bar> \<le> 2 ^ 500 / 3600000"
    using Cons.prems(1) by (simp add: divide_right_mono)
  also have "\<dots> \<le> 2 ^ 479" by simp
  finally have "\<bar>fl (f e / 3600000)\<bar> \<le> 2 * 2 ^ 479" by (rule fl_le) simp
  then have q: "\<bar>fl (f e / 3600000)\<bar> \<le> ?M" by simp
  have acc: "\<bar>acc\<bar> \<le> real k * (2 * ?M)" using Cons.prems(2) by simp
  have "Suc k \<le> 2 ^ 32" using Cons.prems(3) by simp
  then have "real (Suc k) \<le> real (2 ^ 32)" by (simp only: of_nat_le_iff)
  then have k: "real k + 1 \<le> 2 ^ 32" by simp
  have a: "\<bar>?a\<bar> \<le> real k * (2 * ?M) + ?M" using q acc by linarith
  have "(real k * (2 * ?M) + ?M + 1) / 2 ^ 53 \<le> ((real k + 1) * (2 * ?M)) / 2 ^ 53"
    by (intro divide_right_mono) (simp_all add: algebra_simps)
  also have "\<dots> \<le> (2 ^ 32 * (2 * ?M)) / 2 ^ 53"
    using k by (intro divide_right_mono mult_right_mono) simp_all
  also have "\<dots> \<le> ?M" by simp
  finally have err: "(real k * (2 * ?M) + ?M + 1) / 2 ^ 53 \<le> ?M" .
  have "(\<bar>?a\<bar> + 1) / 2 ^ 53 \<le> (real k * (2 * ?M) + ?M + 1) / 2 ^ 53"
    using a by (simp add: divide_right_mono)
  with err fl_bound [of ?a] a have "\<bar>fl ?a\<bar> \<le> real k * (2 * ?M) + ?M + ?M" by linarith
  then have step: "\<bar>fl ?a\<bar> \<le> real (Suc k) * 2 ^ 481" by (simp add: algebra_simps)
  have "\<bar>foldl (\<lambda>sum e. fl (sum + fl (f e / 3600000))) (fl ?a) es\<bar> \<le>
      real (Suc k + length es) * 2 ^ 481"
    using Cons.prems(1,3) by (intro Cons.IH step) simp_all
  then show ?case by simp
qed

lemma sum_in_range:
  fixes f :: "'a \<Rightarrow> real"
  assumes "\<forall>e \<in> set es. \<bar>f e\<bar> \<le> 2 ^ 500" and "length es < 2 ^ 32"
  shows "\<bar>foldl (\<lambda>sum e. fl (sum + fl (f e / 3600000))) 0 es\<bar> \<le> 2 ^ 513"
proof -
  have "\<bar>foldl (\<lambda>sum e. fl (sum + fl (f e / 3600000))) 0 es\<bar> \<le> real (0 + length es) * 2 ^ 481"
    using assms by (intro sum_magnitude) simp_all
  also have "\<dots> \<le> real (2 ^ 32) * 2 ^ 481"
    using assms(2) by (intro mult_right_mono) (simp_all only: of_nat_le_iff, simp_all)
  also have "\<dots> = 2 ^ 513" by simp
  finally show ?thesis .
qed

lemma buildSnapshot_in_range:
  assumes range: "inRange alert entries"
  shows "(\<forall>e \<in> set entries. \<bar>fl (entry_durationMs e / 3600000)\<bar> < 2 ^ 1024) \<and>
    (\<forall>k \<le> length entries.
       \<bar>foldl (\<lambda>sum entry. fl (sum + fl (entry_durationMs entry / 3600000))) 0 (take k entries)\<bar>
         < 2 ^ 1024) \<and>
    (let total = foldl (\<lambda>sum entry. fl (sum + fl (entry_durationMs entry / 3600000))) 0 entries;
         hundredfold = fl (total * 100);
         totalHours = fl (Math_round hundredfold / 100);
         budget = alert_budgetHours alert;
         ratio = fl (totalHours / budget);
         rawPercent = fl (ratio * 100);
         percentfold = fl (rawPercent * 100);
         remaining = fl (budget - totalHours);
         remainingfold = fl (max 0 remaining * 100);
         over = fl (totalHours - budget);
         overfold = fl (max 0 over * 100)
     in \<bar>hundredfold\<bar> < 2 ^ 1024 \<and> \<bar>totalHours\<bar> < 2 ^ 1024 \<and>
        (budget > 0 \<longrightarrow>
           \<bar>ratio\<bar> < 2 ^ 1024 \<and> \<bar>rawPercent\<bar> < 2 ^ 1024 \<and> \<bar>percentfold\<bar> < 2 ^ 1024 \<and>
           \<bar>fl (Math_round percentfold / 100)\<bar> < 2 ^ 1024) \<and>
        \<bar>remaining\<bar> < 2 ^ 1024 \<and> \<bar>remainingfold\<bar> < 2 ^ 1024 \<and>
        \<bar>fl (Math_round remainingfold / 100)\<bar> < 2 ^ 1024 \<and>
        \<bar>over\<bar> < 2 ^ 1024 \<and> \<bar>overfold\<bar> < 2 ^ 1024 \<and>
        \<bar>fl (Math_round overfold / 100)\<bar> < 2 ^ 1024)"
proof -
  let ?step = "\<lambda>sum entry. fl (sum + fl (entry_durationMs entry / 3600000))"
  define total where "total = foldl ?step 0 entries"
  define hundredfold where "hundredfold = fl (total * 100)"
  define totalHours where "totalHours = fl (Math_round hundredfold / 100)"
  define budget where "budget = alert_budgetHours alert"
  define ratio where "ratio = fl (totalHours / budget)"
  define rawPercent where "rawPercent = fl (ratio * 100)"
  define percentfold where "percentfold = fl (rawPercent * 100)"
  define remaining where "remaining = fl (budget - totalHours)"
  define remainingfold where "remainingfold = fl (max 0 remaining * 100)"
  define over where "over = fl (totalHours - budget)"
  define overfold where "overfold = fl (max 0 over * 100)"
  have len: "length entries < 2 ^ 32"
    and durations: "\<forall>e \<in> set entries. \<bar>entry_durationMs e\<bar> \<le> 2 ^ 500"
    and b: "\<bar>budget\<bar> \<le> 2 ^ 400" and b_pos: "budget \<le> 0 \<or> 1 / 2 ^ 400 \<le> budget"
    using range by (simp_all add: inRange_def budget_def)
  have hours: "\<bar>fl (entry_durationMs e / 3600000)\<bar> < 2 ^ 1024" if "e \<in> set entries" for e
  proof -
    have "\<bar>entry_durationMs e\<bar> \<le> 2 ^ 500" using durations that by blast
    moreover have "\<bar>entry_durationMs e / 3600000\<bar> \<le> \<bar>entry_durationMs e\<bar>" by simp
    ultimately have "\<bar>entry_durationMs e / 3600000\<bar> \<le> 2 ^ 500" by linarith
    then have "\<bar>fl (entry_durationMs e / 3600000)\<bar> \<le> 2 * 2 ^ 500" by (rule fl_le) simp
    then show ?thesis by simp
  qed
  have sums: "\<bar>foldl ?step 0 (take k entries)\<bar> < 2 ^ 1024" if "k \<le> length entries" for k
  proof -
    have "\<bar>foldl ?step 0 (take k entries)\<bar> \<le> 2 ^ 513"
    proof (rule sum_in_range)
      show "\<forall>e \<in> set (take k entries). \<bar>entry_durationMs e\<bar> \<le> 2 ^ 500"
        using durations by (meson in_set_takeD)
      show "length (take k entries) < 2 ^ 32" using len by simp
    qed
    then show ?thesis by simp
  qed
  have t: "\<bar>total\<bar> \<le> 2 ^ 513"
    unfolding total_def using durations len by (rule sum_in_range)
  have "\<bar>total * 100\<bar> \<le> 2 ^ 513 * 2 ^ 7" using t by (simp add: abs_mult)
  then have t1: "\<bar>hundredfold\<bar> \<le> 2 ^ 521"
    unfolding hundredfold_def using fl_le [of "total * 100" "2 ^ 520"] by simp
  have "\<bar>Math_round hundredfold\<bar> \<le> 2 * 2 ^ 521" using t1 by (rule Math_round_le) simp
  then have "\<bar>Math_round hundredfold / 100\<bar> \<le> 2 ^ 522" by simp
  then have h: "\<bar>totalHours\<bar> \<le> 2 ^ 523"
    unfolding totalHours_def using fl_le [of "Math_round hundredfold / 100" "2 ^ 522"] by simp
  have scaled: "\<bar>fl (max 0 x * 100)\<bar> \<le> 2 ^ 533 \<and> \<bar>fl (Math_round (fl (max 0 x * 100)) / 100)\<bar> \<le> 2 ^ 535"
    if "\<bar>x\<bar> \<le> 2 ^ 525" for x
  proof -
    have "\<bar>max 0 x\<bar> \<le> 2 ^ 525" using that by linarith
    then have "\<bar>max 0 x * 100\<bar> \<le> 128 * 2 ^ 525" by (rule hundredfold_le)
    then have one: "\<bar>fl (max 0 x * 100)\<bar> \<le> 2 ^ 533"
      using fl_le [of "max 0 x * 100" "2 ^ 532"] by simp
    then have "\<bar>Math_round (fl (max 0 x * 100))\<bar> \<le> 2 * 2 ^ 533" by (rule Math_round_le) simp
    then have "\<bar>Math_round (fl (max 0 x * 100)) / 100\<bar> \<le> 2 ^ 534" by simp
    then have "\<bar>fl (Math_round (fl (max 0 x * 100)) / 100)\<bar> \<le> 2 * 2 ^ 534" by (rule fl_le) simp
    with one show ?thesis by simp
  qed
  have "\<bar>budget - totalHours\<bar> \<le> 2 ^ 524" using b h by simp
  then have r: "\<bar>remaining\<bar> \<le> 2 ^ 525"
    unfolding remaining_def using fl_le [of "budget - totalHours" "2 ^ 524"] by simp
  have "\<bar>totalHours - budget\<bar> \<le> 2 ^ 524" using b h by simp
  then have o: "\<bar>over\<bar> \<le> 2 ^ 525"
    unfolding over_def using fl_le [of "totalHours - budget" "2 ^ 524"] by simp
  have percent: "\<bar>ratio\<bar> < 2 ^ 1024 \<and> \<bar>rawPercent\<bar> < 2 ^ 1024 \<and> \<bar>percentfold\<bar> < 2 ^ 1024 \<and>
      \<bar>fl (Math_round percentfold / 100)\<bar> < 2 ^ 1024" if "budget > 0"
  proof -
    have low: "1 / 2 ^ 400 \<le> budget" using that b_pos by simp
    have "\<bar>totalHours / budget\<bar> = \<bar>totalHours\<bar> / budget" using that by simp
    also have "\<dots> \<le> 2 ^ 523 / budget" using h that by (simp add: divide_right_mono)
    also have "\<dots> \<le> 2 ^ 523 / (1 / 2 ^ 400)" using low by (intro divide_left_mono) simp_all
    also have "\<dots> = 2 ^ 923" by simp
    finally have "\<bar>ratio\<bar> \<le> 2 * 2 ^ 923" unfolding ratio_def by (rule fl_le) simp
    then have p1: "\<bar>ratio\<bar> \<le> 2 ^ 924" by simp
    then have "\<bar>ratio * 100\<bar> \<le> 2 ^ 924 * 2 ^ 7" by (simp add: abs_mult)
    then have p2: "\<bar>rawPercent\<bar> \<le> 2 ^ 932"
      unfolding rawPercent_def using fl_le [of "ratio * 100" "2 ^ 931"] by simp
    then have "\<bar>rawPercent * 100\<bar> \<le> 2 ^ 932 * 2 ^ 7" by (simp add: abs_mult)
    then have p3: "\<bar>percentfold\<bar> \<le> 2 ^ 940"
      unfolding percentfold_def using fl_le [of "rawPercent * 100" "2 ^ 939"] by simp
    then have "\<bar>Math_round percentfold\<bar> \<le> 2 * 2 ^ 940" by (rule Math_round_le) simp
    then have "\<bar>Math_round percentfold / 100\<bar> \<le> 2 ^ 941" by simp
    then have "\<bar>fl (Math_round percentfold / 100)\<bar> \<le> 2 * 2 ^ 941" by (rule fl_le) simp
    with p1 p2 p3 show ?thesis by simp
  qed
  have figures: "\<bar>hundredfold\<bar> < 2 ^ 1024 \<and> \<bar>totalHours\<bar> < 2 ^ 1024 \<and>
        (budget > 0 \<longrightarrow>
           \<bar>ratio\<bar> < 2 ^ 1024 \<and> \<bar>rawPercent\<bar> < 2 ^ 1024 \<and> \<bar>percentfold\<bar> < 2 ^ 1024 \<and>
           \<bar>fl (Math_round percentfold / 100)\<bar> < 2 ^ 1024) \<and>
        \<bar>remaining\<bar> < 2 ^ 1024 \<and> \<bar>remainingfold\<bar> < 2 ^ 1024 \<and>
        \<bar>fl (Math_round remainingfold / 100)\<bar> < 2 ^ 1024 \<and>
        \<bar>over\<bar> < 2 ^ 1024 \<and> \<bar>overfold\<bar> < 2 ^ 1024 \<and>
        \<bar>fl (Math_round overfold / 100)\<bar> < 2 ^ 1024"
    using t1 h percent r o scaled [OF r] scaled [OF o]
    unfolding remainingfold_def overfold_def by simp
  show ?thesis
    using hours sums figures
    unfolding Let_def total_def hundredfold_def totalHours_def budget_def ratio_def
      rawPercent_def percentfold_def remaining_def remainingfold_def over_def overfold_def
    by blast
qed

text \<open>The figures for 41.67 hours used of a budget of 50 hours.\<close>

lemma figures_50h:
  "roundHours (fl (fl (fl (4167 / 100) / 50) * 100)) = fl (8334 / 100)"
  "roundHours (max 0 (fl (50 - fl (4167 / 100)))) = fl (833 / 100)"
  "roundHours (max 0 (fl (fl (4167 / 100) - 50))) = 0"
  by (simp_all add: roundHours_def Math_round_def fl_eval)

text \<open>
  C2 (amended). \<open>buildSnapshot\<close> computes its figures in double precision; the
  statement is for the inputs that keep every result in the range of the finite
  doubles. \<open>hoursUsed\<close> is the sum of the hours of the entries, accumulated entry by entry in doubles, then
  rounded to two decimals (times 100, \<open>Math.round\<close>, divided by 100). It is the double
  of \<open>round(total / 3,600,000 * 100) / 100\<close>, \<open>total\<close> being the exact sum of the
  durations, whenever the durations are not negative and a hundred times the exact
  hours is farther from the nearest rounding tie than
  \<open>1000 * max(1, hours) * (n + 1) / 2 ^ 53\<close> for \<open>n\<close> entries; close to a tie the two can
  differ by a hundredth. \<open>percentUsed\<close> is \<open>hoursUsed / budgetHours * 100\<close> rounded
  to two decimals (0 when the budget is not positive), \<open>remainingHours\<close> and
  \<open>overByHours\<close> are \<open>max(0, budget - used)\<close> and \<open>max(0, used - budget)\<close> rounded to two
  decimals, and one of the two is 0. For a budget of 50 hours and entries, none
  negative, totalling 150,000,000 ms the figures
  are the doubles 41.67, 83.34, 8.33 and 0, and the status is \<open>yellow\<close> when the alert
  is active and \<open>warningThresholdPct \<le> 83.34 < criticalThresholdPct\<close>; it is \<open>inactive\<close>
  when the alert is not active.
\<close>

theorem buildSnapshot_figures:
  assumes range: "inRange alert entries"
  shows "(let s = buildSnapshot alert entries warning now;
        total = sum_list (map entry_durationMs entries);
        hours = total / 3600000;
        budget = alert_budgetHours alert
    in snap_hoursUsed s =
         fl (Math_round
           (fl (foldl (\<lambda>sum entry. fl (sum + fl (entry_durationMs entry / 3600000))) 0 entries
              * 100)) / 100) \<and>
       ((\<forall>e \<in> set entries. 0 \<le> entry_durationMs e) \<and>
        Math_round (hours * 100) - 1 / 2 +
          1000 * max 1 hours * (real (length entries) + 1) / 2 ^ 53 \<le> hours * 100 \<and>
        hours * 100 + 1000 * max 1 hours * (real (length entries) + 1) / 2 ^ 53 <
          Math_round (hours * 100) + 1 / 2 \<longrightarrow>
          snap_hoursUsed s = fl (Math_round (hours * 100) / 100)) \<and>
       snap_percentUsed s =
         (if budget \<le> 0 then 0
          else fl (Math_round (fl (fl (fl (snap_hoursUsed s / budget) * 100) * 100)) / 100)) \<and>
       snap_remainingHours s =
         fl (Math_round (fl (max 0 (fl (budget - snap_hoursUsed s)) * 100)) / 100) \<and>
       snap_overByHours s =
         fl (Math_round (fl (max 0 (fl (snap_hoursUsed s - budget)) * 100)) / 100) \<and>
       (snap_hoursUsed s \<le> budget \<longrightarrow> snap_overByHours s = 0) \<and>
       (budget \<le> snap_hoursUsed s \<longrightarrow> snap_remainingHours s = 0) \<and>
       snap_budgetHours s = budget \<and> snap_entryCount s = length entries \<and>
       snap_status s =
         (if \<not> alert_active alert then Inactive
          else if snap_percentUsed s \<ge> alert_criticalThresholdPct alert then Red
          else if snap_percentUsed s \<ge> alert_warningThresholdPct alert then Yellow
          else Green) \<and>
       (budget = 50 \<and> total = 150000000 \<and> (\<forall>e \<in> set entries. 0 \<le> entry_durationMs e) \<longrightarrow>
          snap_hoursUsed s = fl (4167 / 100) \<and> snap_percentUsed s = fl (8334 / 100) \<and>
          snap_remainingHours s = fl (833 / 100) \<and> snap_overByHours s = 0 \<and>
          (alert_active alert \<and> alert_warningThresholdPct alert \<le> fl (8334 / 100) \<and>
             fl (8334 / 100) < alert_criticalThresholdPct alert \<longrightarrow> snap_status s = Yellow) \<and>
          (\<not> alert_active alert \<longrightarrow> snap_status s = Inactive)))"
proof -
  let ?s = "buildSnapshot alert entries warning now"
  let ?total = "sum_list (map entry_durationMs entries)"
  let ?hours = "?total / 3600000"
  let ?budget = "alert_budgetHours alert"
  let ?sum = "foldl (\<lambda>sum entry. fl (sum + fl (entry_durationMs entry / 3600000))) 0 entries"
  have used: "snap_hoursUsed ?s = roundHours ?sum"
    by (simp add: buildSnapshot_def Let_def)
  have used_explicit: "snap_hoursUsed ?s = fl (Math_round (fl (?sum * 100)) / 100)"
    by (simp add: used roundHours_def)
  have exact: "snap_hoursUsed ?s = fl (Math_round (?hours * 100) / 100)"
    if nonneg: "\<forall>e \<in> set entries. 0 \<le> entry_durationMs e"
      and lower: "Math_round (?hours * 100) - 1 / 2 +
          1000 * max 1 ?hours * (real (length entries) + 1) / 2 ^ 53 \<le> ?hours * 100"
      and upper: "?hours * 100 + 1000 * max 1 ?hours * (real (length entries) + 1) / 2 ^ 53 <
          Math_round (?hours * 100) + 1 / 2"
  proof -
    have "roundHours ?sum = fl (of_int \<lfloor>?hours * 100 + 1 / 2\<rfloor> / 100)"
      using nonneg lower upper unfolding Math_round_def by (rule total_rounds)
    then show ?thesis by (simp add: used Math_round_def)
  qed
  have percent_raw: "snap_percentUsed ?s =
      roundHours (if ?budget > 0 then fl (fl (snap_hoursUsed ?s / ?budget) * 100) else 0)"
    by (simp add: buildSnapshot_def Let_def)
  have remaining_raw: "snap_remainingHours ?s =
      roundHours (max 0 (fl (?budget - snap_hoursUsed ?s)))"
    by (simp add: buildSnapshot_def Let_def)
  have over_raw: "snap_overByHours ?s = roundHours (max 0 (fl (snap_hoursUsed ?s - ?budget)))"
    by (simp add: buildSnapshot_def Let_def)
  have percent: "snap_percentUsed ?s =
      (if ?budget \<le> 0 then 0
       else fl (Math_round (fl (fl (fl (snap_hoursUsed ?s / ?budget) * 100) * 100)) / 100))"
    using roundHours_zero by (simp add: buildSnapshot_def Let_def roundHours_def)
  have remaining: "snap_remainingHours ?s =
      fl (Math_round (fl (max 0 (fl (?budget - snap_hoursUsed ?s)) * 100)) / 100)"
    by (simp add: buildSnapshot_def Let_def roundHours_def)
  have over: "snap_overByHours ?s =
      fl (Math_round (fl (max 0 (fl (snap_hoursUsed ?s - ?budget)) * 100)) / 100)"
    by (simp add: buildSnapshot_def Let_def roundHours_def)
  have no_over: "snap_overByHours ?s = 0" if "snap_hoursUsed ?s \<le> ?budget"
  proof -
    have "fl (snap_hoursUsed ?s - ?budget) \<le> 0" using that by (intro fl_nonpos) simp
    then have "max 0 (fl (snap_hoursUsed ?s - ?budget)) = 0" by simp
    then show ?thesis using roundHours_zero unfolding over by (simp add: roundHours_def)
  qed
  have no_remaining: "snap_remainingHours ?s = 0" if "?budget \<le> snap_hoursUsed ?s"
  proof -
    have "fl (?budget - snap_hoursUsed ?s) \<le> 0" using that by (intro fl_nonpos) simp
    then have "max 0 (fl (?budget - snap_hoursUsed ?s)) = 0" by simp
    then show ?thesis using roundHours_zero unfolding remaining by (simp add: roundHours_def)
  qed
  have fields: "snap_budgetHours ?s = ?budget" "snap_entryCount ?s = length entries"
    by (simp_all add: buildSnapshot_def Let_def)
  have status: "snap_status ?s =
      (if \<not> alert_active alert then Inactive
       else if snap_percentUsed ?s \<ge> alert_criticalThresholdPct alert then Red
       else if snap_percentUsed ?s \<ge> alert_warningThresholdPct alert then Yellow
       else Green)"
    by (simp add: buildSnapshot_def Let_def resolveStatus_def)
  have example: "snap_hoursUsed ?s = fl (4167 / 100) \<and> snap_percentUsed ?s = fl (8334 / 100) \<and>
      snap_remainingHours ?s = fl (833 / 100) \<and> snap_overByHours ?s = 0 \<and>
      (alert_active alert \<and> alert_warningThresholdPct alert \<le> fl (8334 / 100) \<and>
         fl (8334 / 100) < alert_criticalThresholdPct alert \<longrightarrow> snap_status ?s = Yellow) \<and>
      (\<not> alert_active alert \<longrightarrow> snap_status ?s = Inactive)"
    if budget: "?budget = 50" and total: "?total = 150000000"
      and nonneg: "\<forall>e \<in> set entries. 0 \<le> entry_durationMs e"
  proof -
    have len: "length entries < 2 ^ 32" using range by (simp add: inRange_def)
    have "real (length entries) + 1 = real (Suc (length entries))" by simp
    also have "\<dots> \<le> real (2 ^ 32)" using len by (simp only: of_nat_le_iff)
    finally have n: "real (length entries) + 1 \<le> 2 ^ 32" by simp
    have "1000 * max 1 ?hours * (real (length entries) + 1) / 2 ^ 53 =
        125000 / 3 * (real (length entries) + 1) / 2 ^ 53"
      by (simp add: total)
    also have "\<dots> \<le> 125000 / 3 * 2 ^ 32 / 2 ^ 53"
      using n by (intro divide_right_mono mult_left_mono) simp_all
    also have "\<dots> \<le> 1 / 7" by simp
    finally have slack: "1000 * max 1 ?hours * (real (length entries) + 1) / 2 ^ 53 \<le> 1 / 7" .
    have hundred: "?hours * 100 = 12500 / 3" by (simp add: total)
    have "roundHours ?sum = fl (of_int 4167 / 100)"
      using nonneg
    proof (rule total_rounds)
      show "of_int 4167 - 1 / 2 +
          1000 * max 1 ?hours * (real (length entries) + 1) / 2 ^ 53 \<le> ?hours * 100"
        using slack unfolding hundred by simp
      show "?hours * 100 + 1000 * max 1 ?hours * (real (length entries) + 1) / 2 ^ 53 <
          of_int 4167 + 1 / 2"
        using slack unfolding hundred by simp
    qed
    then have h: "snap_hoursUsed ?s = fl (4167 / 100)" by (simp add: used)
    have p: "snap_percentUsed ?s = fl (8334 / 100)"
      unfolding percent_raw h budget using figures_50h(1) by simp
    have r: "snap_remainingHours ?s = fl (833 / 100)"
      unfolding remaining_raw h budget using figures_50h(2) by simp
    have o: "snap_overByHours ?s = 0"
      unfolding over_raw h budget using figures_50h(3) by simp
    have y: "snap_status ?s = Yellow"
      if "alert_active alert" "alert_warningThresholdPct alert \<le> fl (8334 / 100)"
        "fl (8334 / 100) < alert_criticalThresholdPct alert"
      using that unfolding status p by simp
    have i: "snap_status ?s = Inactive" if "\<not> alert_active alert"
      using that unfolding status by simp
    from h p r o y i show ?thesis by blast
  qed
  show ?thesis
    unfolding Let_def
    apply (intro conjI)
    subgoal by (rule used_explicit)
    subgoal using exact by blast
    subgoal by (rule percent)
    subgoal by (rule remaining)
    subgoal by (rule over)
    subgoal using no_over by blast
    subgoal using no_remaining by blast
    subgoal by (rule fields(1))
    subgoal by (rule fields(2))
    subgoal by (rule status)
    subgoal using example by blast
    done
qed


theorem buildSnapshot_figures_witness:
  "inRange alert_50h [entry_of ''e1'' (Some ''t1'') 90000000,
      entry_of ''e2'' (Some ''t2'') 60000000] \<and>
   alert_budgetHours alert_50h = 50 \<and>
   sum_list (map entry_durationMs [entry_of ''e1'' (Some ''t1'') 90000000,
      entry_of ''e2'' (Some ''t2'') 60000000]) = 150000000 \<and>
   alert_active alert_50h \<and> alert_warningThresholdPct alert_50h \<le> fl (8334 / 100) \<and>
   fl (8334 / 100) < alert_criticalThresholdPct alert_50h \<and>
   snap_hoursUsed (buildSnapshot alert_50h [entry_of ''e1'' (Some ''t1'') 90000000,
      entry_of ''e2'' (Some ''t2'') 60000000] None ''now'') = fl (4167 / 100) \<and>
   snap_percentUsed (buildSnapshot alert_50h [entry_of ''e1'' (Some ''t1'') 90000000,
      entry_of ''e2'' (Some ''t2'') 60000000] None ''now'') = fl (8334 / 100) \<and>
   snap_remainingHours (buildSnapshot alert_50h [entry_of ''e1'' (Some ''t1'') 90000000,
      entry_of ''e2'' (Some ''t2'') 60000000] None ''now'') = fl (833 / 100) \<and>
   snap_overByHours (buildSnapshot alert_50h [entry_of ''e1'' (Some ''t1'') 90000000,
      entry_of ''e2'' (Some ''t2'') 60000000] None ''now'') = 0 \<and>
   snap_status (buildSnapshot alert_50h [entry_of ''e1'' (Some ''t1'') 90000000,
      entry_of ''e2'' (Some ''t2'') 60000000] None ''now'') = Yellow \<and>
   fl (4167 / 100) = 2932265569883259 / 70368744177664 \<and>
   Math_round (150000000 / 3600000 * 100) = 4167 \<and>
   alert_budgetHours alert_50h_inactive = 50 \<and> \<not> alert_active alert_50h_inactive \<and>
   snap_status (buildSnapshot alert_50h_inactive [entry_of ''e1'' (Some ''t1'') 90000000,
      entry_of ''e2'' (Some ''t2'') 60000000] None ''now'') = Inactive"
proof -
  let ?entries = "[entry_of ''e1'' (Some ''t1'') 90000000, entry_of ''e2'' (Some ''t2'') 60000000]"
  have facts: "alert_budgetHours alert_50h = 50" "alert_active alert_50h"
    "alert_budgetHours alert_50h_inactive = 50" "\<not> alert_active alert_50h_inactive"
    by (simp_all add: alert_50h_def alert_50h_inactive_def)
  have thresholds: "alert_warningThresholdPct alert_50h \<le> fl (8334 / 100)"
    "fl (8334 / 100) < alert_criticalThresholdPct alert_50h"
    by (simp_all add: alert_50h_def fl_eval)
  have total: "sum_list (map entry_durationMs ?entries) = 150000000"
    by (simp add: entry_of_def)
  have entries: "\<forall>e \<in> set ?entries. 0 \<le> entry_durationMs e"
    by (simp add: entry_of_def)
  have range: "inRange alert_50h ?entries" "inRange alert_50h_inactive ?entries"
    by (simp_all add: inRange_def entry_of_def alert_50h_def alert_50h_inactive_def)
  have double: "fl (4167 / 100) = 2932265569883259 / 70368744177664"
    by (simp add: fl_eval)
  have rounded: "Math_round (150000000 / 3600000 * 100) = 4167"
    by (simp add: Math_round_def)
  have tie: "Math_round (sum_list (map entry_durationMs ?entries) / 3600000 * 100) - 1 / 2 +
      1000 * max 1 (sum_list (map entry_durationMs ?entries) / 3600000) *
        (real (length ?entries) + 1) / 2 ^ 53 \<le>
      sum_list (map entry_durationMs ?entries) / 3600000 * 100"
    "sum_list (map entry_durationMs ?entries) / 3600000 * 100 +
      1000 * max 1 (sum_list (map entry_durationMs ?entries) / 3600000) *
        (real (length ?entries) + 1) / 2 ^ 53 <
      Math_round (sum_list (map entry_durationMs ?entries) / 3600000 * 100) + 1 / 2"
    by (simp_all add: entry_of_def Math_round_def)
  note active = buildSnapshot_figures [OF range(1), of None "''now''", unfolded Let_def]
  note inactive = buildSnapshot_figures [OF range(2), of None "''now''", unfolded Let_def]
  from active entries tie
  have "snap_hoursUsed (buildSnapshot alert_50h ?entries None ''now'') =
      fl (Math_round (sum_list (map entry_durationMs ?entries) / 3600000 * 100) / 100)"
    by blast
  then have general: "snap_hoursUsed (buildSnapshot alert_50h ?entries None ''now'') =
      fl (4167 / 100)"
    unfolding total rounded by simp
  from active facts thresholds total entries
  have example: "snap_hoursUsed (buildSnapshot alert_50h ?entries None ''now'') = fl (4167 / 100) \<and>
      snap_percentUsed (buildSnapshot alert_50h ?entries None ''now'') = fl (8334 / 100) \<and>
      snap_remainingHours (buildSnapshot alert_50h ?entries None ''now'') = fl (833 / 100) \<and>
      snap_overByHours (buildSnapshot alert_50h ?entries None ''now'') = 0 \<and>
      snap_status (buildSnapshot alert_50h ?entries None ''now'') = Yellow"
    by blast
  from inactive facts total entries
  have off: "snap_status (buildSnapshot alert_50h_inactive ?entries None ''now'') = Inactive"
    by blast
  from facts thresholds total double rounded general example off range show ?thesis by blast
qed

text \<open>The unamended statement of C2 does not hold as a formula on the total: for two
  entries of 1,000 ms and 485,000 ms the total is 0.135 hours, which rounds to 0.14
  (also when the division and the rounding are carried out in doubles), and the
  program, which adds the hours of the entries in doubles, shows 0.13. Nor does the status of the scenario hold for an alert that is not active: with
  a budget of 50 hours, 150,000,000 ms of entries and thresholds 80 and 100 the status
  is \<open>inactive\<close>, not \<open>yellow\<close>.\<close>

theorem buildSnapshot_rounding_counterexample:
  "sum_list (map entry_durationMs [entry_of ''e1'' (Some ''t1'') 1000,
      entry_of ''e2'' (Some ''t1'') 485000]) = 486000 \<and>
   Math_round (486000 / 3600000 * 100) / 100 = 14 / 100 \<and>
   fl (Math_round (fl (fl (486000 / 3600000) * 100)) / 100) = fl (14 / 100) \<and>
   snap_hoursUsed (buildSnapshot alert_50h [entry_of ''e1'' (Some ''t1'') 1000,
      entry_of ''e2'' (Some ''t1'') 485000] None ''now'') = fl (13 / 100) \<and>
   fl (13 / 100) = 1170935903116329 / 9007199254740992 \<and>
   fl (14 / 100) = 1261007895663739 / 9007199254740992 \<and>
   alert_budgetHours alert_50h_inactive = 50 \<and>
   alert_warningThresholdPct alert_50h_inactive \<le> fl (8334 / 100) \<and>
   fl (8334 / 100) < alert_criticalThresholdPct alert_50h_inactive \<and>
   snap_status (buildSnapshot alert_50h_inactive [entry_of ''e1'' (Some ''t1'') 150000000]
     None ''now'') = Inactive"
proof -
  have exact: "sum_list (map entry_durationMs [entry_of ''e1'' (Some ''t1'') 1000,
      entry_of ''e2'' (Some ''t1'') 485000]) = 486000"
    "Math_round (486000 / 3600000 * 100) / 100 = 14 / 100"
    by (simp_all add: entry_of_def Math_round_def)
  have in_doubles: "fl (Math_round (fl (fl (486000 / 3600000) * 100)) / 100) =
      1261007895663739 / 9007199254740992"
    by (simp add: Math_round_def fl_eval)
  have "snap_hoursUsed (buildSnapshot alert_50h [entry_of ''e1'' (Some ''t1'') 1000,
      entry_of ''e2'' (Some ''t1'') 485000] None ''now'') =
      roundHours (fl (fl (0 + fl (1000 / 3600000)) + fl (485000 / 3600000)))"
    by (simp add: buildSnapshot_def Let_def entry_of_def)
  also have "\<dots> = 1170935903116329 / 9007199254740992"
    by (simp add: roundHours_def Math_round_def fl_eval)
  finally have shown: "snap_hoursUsed (buildSnapshot alert_50h [entry_of ''e1'' (Some ''t1'') 1000,
      entry_of ''e2'' (Some ''t1'') 485000] None ''now'') = 1170935903116329 / 9007199254740992" .
  have doubles: "fl (13 / 100) = 1170935903116329 / 9007199254740992"
    "fl (14 / 100) = 1261007895663739 / 9007199254740992"
    by (simp_all add: fl_eval)
  have thresholds: "alert_budgetHours alert_50h_inactive = 50"
    "alert_warningThresholdPct alert_50h_inactive \<le> fl (8334 / 100)"
    "fl (8334 / 100) < alert_criticalThresholdPct alert_50h_inactive"
    by (simp_all add: alert_50h_inactive_def alert_50h_def fl_eval)
  have off: "snap_status (buildSnapshot alert_50h_inactive [entry_of ''e1'' (Some ''t1'') 150000000]
     None ''now'') = Inactive"
    by (simp add: buildSnapshot_def Let_def resolveStatus_def alert_50h_inactive_def alert_50h_def)
  from exact in_doubles shown doubles thresholds off show ?thesis by simp
qed

end
